theory Spec2Isabelle
  imports Complex_Main "HOL-Library.Word" "HOL-Library.Product_Lexorder"
begin

section \<open>Python values and strings\<close>

text \<open>
  The script reads two JSON files (the chat export and its own state snapshot) and talks
  to a remote text-generation service. JSON values are modelled as a datatype; objects are
  association lists looked up with \<open>map_of\<close>. JSON numbers with a fractional part are
  outside the model. Python strings are \<open>string\<close>, with a character standing for the code
  point of the same number.
\<close>

datatype json =
    JNull
  | JBool bool
  | JNum int
  | JStr string
  | JArr "json list"
  | JObj "(string \<times> json) list"

datatype py_error = AttributeError | TypeError | ValueError | OverflowError | OSError

type_synonym dict = "(string \<times> json) list"

text \<open>\<^verbatim>\<open>d.get(k)\<close> and \<^verbatim>\<open>d.get(k, default)\<close>.\<close>

definition get :: "dict \<Rightarrow> string \<Rightarrow> json" where
  "get d k = (case map_of d k of None \<Rightarrow> JNull | Some v \<Rightarrow> v)"

definition get_default :: "dict \<Rightarrow> string \<Rightarrow> json \<Rightarrow> json" where
  "get_default d k dflt = (case map_of d k of None \<Rightarrow> dflt | Some v \<Rightarrow> v)"

text \<open>Truth value of a JSON value, as \<^verbatim>\<open>if x\<close>, \<^verbatim>\<open>not x\<close> and \<^verbatim>\<open>x or y\<close> test it.\<close>

fun truthy :: "json \<Rightarrow> bool" where
  "truthy JNull = False"
| "truthy (JBool b) = b"
| "truthy (JNum n) = (n \<noteq> 0)"
| "truthy (JStr s) = (s \<noteq> [])"
| "truthy (JArr xs) = (xs \<noteq> [])"
| "truthy (JObj kvs) = (kvs \<noteq> [])"

definition py_or :: "json \<Rightarrow> json \<Rightarrow> json" where
  "py_or x y = (if truthy x then x else y)"

text \<open>
  The builtins \<^verbatim>\<open>int\<close> and \<^verbatim>\<open>str\<close> are fixed here on the values where their result is
  plain; reading a string as an integer and printing a list or a dictionary are left to
  two parameters, so that every theorem below holds for whatever Python does there.
  \<open>int_of_str s = None\<close> stands for the \<^verbatim>\<open>ValueError\<close> of \<^verbatim>\<open>int(s)\<close>. A third parameter
  is the exception that \<^verbatim>\<open>datetime.datetime.fromtimestamp\<close> raises for a number of seconds
  that the platform cannot turn into a local time, if it raises one.
\<close>

record builtins =
  int_of_str :: "string \<Rightarrow> int option"
  repr_of :: "json \<Rightarrow> string"
  fromtimestamp_raises :: "int \<Rightarrow> py_error option"

fun py_int :: "builtins \<Rightarrow> json \<Rightarrow> int option" where
  "py_int P (JNum n) = Some n"
| "py_int P (JBool b) = Some (if b then 1 else 0)"
| "py_int P (JStr s) = int_of_str P s"
| "py_int P JNull = None"
| "py_int P (JArr xs) = None"
| "py_int P (JObj kvs) = None"

definition digit_char :: "nat \<Rightarrow> char" where
  "digit_char d = ''0123456789'' ! d"

fun str_of_nat :: "nat \<Rightarrow> string" where
  "str_of_nat n = (if n < 10 then [digit_char n] else str_of_nat (n div 10) @ [digit_char (n mod 10)])"

declare str_of_nat.simps [simp del]

definition str_of_int :: "int \<Rightarrow> string" where
  "str_of_int i = (if i < 0 then CHR ''-'' # str_of_nat (nat (- i)) else str_of_nat (nat i))"

text \<open>What an f-string prints for a JSON value.\<close>

fun py_str :: "builtins \<Rightarrow> json \<Rightarrow> string" where
  "py_str P (JStr s) = s"
| "py_str P JNull = ''None''"
| "py_str P (JBool b) = (if b then ''True'' else ''False'')"
| "py_str P (JNum n) = str_of_int n"
| "py_str P (JArr xs) = repr_of P (JArr xs)"
| "py_str P (JObj kvs) = repr_of P (JObj kvs)"

text \<open>The characters \<^verbatim>\<open>str.strip()\<close> removes, among the code points below 256.\<close>

definition is_space :: "char \<Rightarrow> bool" where
  "is_space c \<longleftrightarrow> c \<in> {CHR 0x09, CHR 0x0A, CHR 0x0B, CHR 0x0C, CHR 0x0D,
                        CHR 0x1C, CHR 0x1D, CHR 0x1E, CHR 0x1F, CHR 0x20, CHR 0x85, CHR 0xA0}"

definition strip :: "string \<Rightarrow> string" where
  "strip s = rev (dropWhile is_space (rev (dropWhile is_space s)))"

definition startswith :: "string \<Rightarrow> string \<Rightarrow> bool" where
  "startswith s p \<longleftrightarrow> take (length p) s = p"

text \<open>\<^verbatim>\<open>sep.join(xs)\<close> on a list of strings.\<close>

fun join :: "string \<Rightarrow> string list \<Rightarrow> string" where
  "join sep [] = []"
| "join sep [x] = x"
| "join sep (x # y # ys) = x @ sep @ join sep (y # ys)"

text \<open>\<^verbatim>\<open>xs[a:b]\<close> for \<open>0 \<le> a \<le> b\<close>, and \<^verbatim>\<open>xs[:m]\<close> for any integer \<open>m\<close>.\<close>

definition slice :: "nat \<Rightarrow> nat \<Rightarrow> 'a list \<Rightarrow> 'a list" where
  "slice a b xs = take (b - a) (drop a xs)"

definition slice_to :: "int \<Rightarrow> 'a list \<Rightarrow> 'a list" where
  "slice_to m xs = (if 0 \<le> m then take (nat m) xs else take (length xs - nat (- m)) xs)"

section \<open>Configuration\<close>

definition MESSAGES_PER_CHUNK :: nat where "MESSAGES_PER_CHUNK = 50"
definition MAX_PREVIOUS_INSIGHTS_TOKENS_FOR_CHUNK_PROCESSING :: int where
  "MAX_PREVIOUS_INSIGHTS_TOKENS_FOR_CHUNK_PROCESSING = 100000"
definition MAX_TOKENS_FOR_INSIGHT_COLLECTION_COMPACTION :: int where
  "MAX_TOKENS_FOR_INSIGHT_COLLECTION_COMPACTION = 150000"
definition MAX_INSIGHTS_PER_META_CHUNK_FOR_REPORT :: nat where
  "MAX_INSIGHTS_PER_META_CHUNK_FOR_REPORT = 30"
definition MAX_TOKENS_FOR_FINAL_REPORT_GENERATION :: int where
  "MAX_TOKENS_FOR_FINAL_REPORT_GENERATION = 180000"
definition MAX_API_RETRIES :: nat where "MAX_API_RETRIES = 5"
definition INITIAL_BACKOFF_SECONDS :: real where "INITIAL_BACKOFF_SECONDS = 5"
definition MAX_BACKOFF_SECONDS :: real where "MAX_BACKOFF_SECONDS = 120"

section \<open>Chunk partitioning\<close>

text \<open>
  \<^verbatim>\<open>num_chunks = (len(new_messages) + MESSAGES_PER_CHUNK - 1) // MESSAGES_PER_CHUNK\<close> and
  \<^verbatim>\<open>new_messages[i * MESSAGES_PER_CHUNK : (i + 1) * MESSAGES_PER_CHUNK]\<close> for
  \<^verbatim>\<open>i in range(num_chunks)\<close>, with the chunk size as an argument.
\<close>

definition num_chunks :: "nat \<Rightarrow> nat \<Rightarrow> nat" where
  "num_chunks s n = (n + s - 1) div s"

definition chunk_messages :: "nat \<Rightarrow> 'a list \<Rightarrow> nat \<Rightarrow> 'a list" where
  "chunk_messages s xs i = slice (i * s) ((i + 1) * s) xs"

definition chunks :: "nat \<Rightarrow> 'a list \<Rightarrow> 'a list list" where
  "chunks s xs = map (chunk_messages s xs) [0..<num_chunks s (length xs)]"

section \<open>Reading the export: \<^verbatim>\<open>load_and_format_new_messages\<close>\<close>

text \<open>\<^verbatim>\<open>d[k] = v\<close> on a dictionary.\<close>

fun set_item :: "(string \<times> 'v) list \<Rightarrow> string \<Rightarrow> 'v \<Rightarrow> (string \<times> 'v) list" where
  "set_item [] k v = [(k, v)]"
| "set_item ((k', v') # d) k v = (if k' = k then (k, v) # d else (k', v') # set_item d k v)"

text \<open>
  \<^verbatim>\<open>parse_telegram_message_text\<close>. A text is a string or a list of segments; a segment
  is a dictionary with a \<^verbatim>\<open>text\<close> entry, or a string. \<^verbatim>\<open>"".join\<close> raises
  \<^verbatim>\<open>TypeError\<close> on an entry that is not a string.
\<close>

fun segment_text :: "json \<Rightarrow> py_error + string" where
  "segment_text (JObj kvs) =
     (case map_of kvs ''text'' of
        None \<Rightarrow> Inr []
      | Some (JStr t) \<Rightarrow> Inr t
      | Some _ \<Rightarrow> Inl TypeError)"
| "segment_text (JStr s) = Inr s"
| "segment_text _ = Inr []"

fun join_segments :: "json list \<Rightarrow> py_error + string" where
  "join_segments [] = Inr []"
| "join_segments (x # xs) =
     (case segment_text x of
        Inl e \<Rightarrow> Inl e
      | Inr t \<Rightarrow> (case join_segments xs of Inl e \<Rightarrow> Inl e | Inr r \<Rightarrow> Inr (t @ r)))"

fun parse_telegram_message_text :: "json \<Rightarrow> py_error + string" where
  "parse_telegram_message_text (JStr s) = Inr (strip s)"
| "parse_telegram_message_text (JArr segs) =
     (case join_segments segs of Inl e \<Rightarrow> Inl e | Inr t \<Rightarrow> Inr (strip t))"
| "parse_telegram_message_text _ = Inr []"

text \<open>
  A message whose \<^verbatim>\<open>id\<close> and \<^verbatim>\<open>date_unixtime\<close> went through \<^verbatim>\<open>int\<close>. The script
  writes the two integers back into the dictionary and reads them from there;
  \<open>id_int\<close> and \<open>date_unixtime\<close> are these two entries.
\<close>

record valid_message =
  id_int :: int
  date_unixtime :: int
  msg_data :: dict

text \<open>An entry of \<^verbatim>\<open>new_formatted_messages\<close>; \<open>msg_id\<close> is its \<^verbatim>\<open>"id"\<close>.\<close>

record formatted_message =
  msg_id :: int
  text_for_llm :: string
  timestamp_unix :: int
  timestamp_utc :: json

type_synonym lookup_dict = "int \<Rightarrow> dict option"

text \<open>\<^verbatim>\<open>msg_data['id'], msg_data['date_unixtime'] = msg_id, msg_timestamp_unix\<close>.\<close>

definition write_back :: "dict \<Rightarrow> int \<Rightarrow> int \<Rightarrow> dict" where
  "write_back d i t = set_item (set_item d ''id'' (JNum i)) ''date_unixtime'' (JNum t)"

text \<open>
  The first loop: \<^verbatim>\<open>valid_messages_for_sorting\<close> and \<^verbatim>\<open>message_lookup_dict\<close>.
  \<^verbatim>\<open>ValueError\<close> and \<^verbatim>\<open>TypeError\<close> of \<^verbatim>\<open>int\<close> skip the message; an element that is
  not a dictionary has no \<^verbatim>\<open>get\<close>, and that \<^verbatim>\<open>AttributeError\<close> is not caught.
\<close>

fun scan_messages ::
  "builtins \<Rightarrow> json list \<Rightarrow> valid_message list \<Rightarrow> lookup_dict \<Rightarrow>
   py_error + (valid_message list \<times> lookup_dict)" where
  "scan_messages P [] valid lookup = Inr (valid, lookup)"
| "scan_messages P (JObj d # rest) valid lookup =
     (case (py_int P (get d ''id''), py_int P (get d ''date_unixtime'')) of
        (Some i, Some t) \<Rightarrow>
          (let d' = write_back d i t;
               m = \<lparr>id_int = i, date_unixtime = t, msg_data = d'\<rparr>
           in scan_messages P rest (valid @ [m])
                (if get d' ''type'' = JStr ''message'' then lookup(i \<mapsto> d') else lookup))
      | _ \<Rightarrow> scan_messages P rest valid lookup)"
| "scan_messages P (_ # rest) valid lookup = Inl AttributeError"

text \<open>
  \<^verbatim>\<open>reply_to_id and reply_to_id in message_lookup_dict\<close>, then
  \<^verbatim>\<open>message_lookup_dict[reply_to_id]\<close>. The keys of the dictionary are integers:
  \<open>dict_key\<close> gives the integer a value is equal to as a key, if any; lists and
  dictionaries cannot be hashed.
\<close>

fun dict_key :: "json \<Rightarrow> py_error + int option" where
  "dict_key (JNum n) = Inr (Some n)"
| "dict_key (JBool b) = Inr (Some (if b then 1 else 0))"
| "dict_key (JStr s) = Inr None"
| "dict_key JNull = Inr None"
| "dict_key (JArr xs) = Inl TypeError"
| "dict_key (JObj kvs) = Inl TypeError"

definition lookup_reply :: "lookup_dict \<Rightarrow> json \<Rightarrow> py_error + dict option" where
  "lookup_reply lookup reply_to_id =
     (if \<not> truthy reply_to_id then Inr None
      else case dict_key reply_to_id of
             Inl e \<Rightarrow> Inl e
           | Inr None \<Rightarrow> Inr None
           | Inr (Some k) \<Rightarrow> Inr (lookup k))"

text \<open>The placeholder that stands for a replied-to message without text.\<close>

definition attachment_placeholder :: "builtins \<Rightarrow> dict \<Rightarrow> string" where
  "attachment_placeholder P original_msg =
     (if truthy (get original_msg ''file'')
      then ''[File: '' @ py_str P (get_default original_msg ''file_name'' (JStr ''attachment'')) @ '']''
      else if truthy (get original_msg ''photo'') then ''[Photo]''
      else if truthy (get original_msg ''sticker'')
      then strip (''[Sticker '' @ py_str P (get_default original_msg ''sticker_emoji'' (JStr [])) @ '']'')
      else [])"

definition reply_snippet :: "string \<Rightarrow> string" where
  "reply_snippet original_text =
     (if length original_text > 75 then take 75 original_text @ ''...'' else original_text)"

definition sender_name :: "builtins \<Rightarrow> dict \<Rightarrow> string \<Rightarrow> string" where
  "sender_name P d dflt = py_str P (py_or (get_default d ''from'' (JStr dflt)) (JStr ''System''))"

definition llm_text_prefix :: "builtins \<Rightarrow> lookup_dict \<Rightarrow> dict \<Rightarrow> py_error + string" where
  "llm_text_prefix P lookup d =
     (let plain = ''From '' @ sender_name P d ''Unknown Sender'' @ '':'' in
      case lookup_reply lookup (get d ''reply_to_message_id'') of
        Inl e \<Rightarrow> Inl e
      | Inr None \<Rightarrow> Inr plain
      | Inr (Some original_msg) \<Rightarrow>
          (case parse_telegram_message_text (get_default original_msg ''text'' (JStr [])) of
             Inl e \<Rightarrow> Inl e
           | Inr t \<Rightarrow>
               (let original_text = (if t = [] then attachment_placeholder P original_msg else t) in
                if original_text \<noteq> []
                then Inr (''From '' @ sender_name P d ''Unknown Sender'' @ '' (replying to '' @ [CHR 0x27]
                          @ sender_name P original_msg ''Original Sender'' @ '': ''
                          @ reply_snippet original_text @ [CHR 0x27] @ ''):'')
                else Inr plain)))"

text \<open>
  \<^verbatim>\<open>final_text_for_llm\<close>, or \<open>None\<close> where the script goes on to the next message
  because there is nothing to render.
\<close>

definition final_text_for_llm :: "builtins \<Rightarrow> dict \<Rightarrow> string \<Rightarrow> string \<Rightarrow> string option" where
  "final_text_for_llm P d prefix text_content =
     (if text_content \<noteq> [] then Some (prefix @ '' '' @ text_content)
      else if truthy (get d ''file'')
      then Some (prefix @ '' [Sent a file: '' @ py_str P (get_default d ''file_name'' (JStr ''attachment'')) @ '']'')
      else if truthy (get d ''photo'') then Some (prefix @ '' [Sent a photo]'')
      else if truthy (get d ''sticker'')
      then Some (strip (prefix @ '' [Sent a sticker '' @ py_str P (get_default d ''sticker_emoji'' (JStr [])) @ '']''))
      else None)"

text \<open>
  The body of the second loop for one message: the comparison with the cursor, the test
  of the type, the rendering. \<open>Inr None\<close> is \<^verbatim>\<open>continue\<close>.
\<close>

definition new_message ::
  "builtins \<Rightarrow> lookup_dict \<Rightarrow> int \<Rightarrow> int \<Rightarrow> valid_message \<Rightarrow> py_error + formatted_message option" where
  "new_message P lookup last_id_processed last_timestamp_unix_processed m =
     (if date_unixtime m < last_timestamp_unix_processed
         \<or> (date_unixtime m = last_timestamp_unix_processed \<and> id_int m \<le> last_id_processed)
      then Inr None
      else if get (msg_data m) ''type'' \<noteq> JStr ''message'' then Inr None
      else case parse_telegram_message_text (get_default (msg_data m) ''text'' (JStr [])) of
             Inl e \<Rightarrow> Inl e
           | Inr text_content \<Rightarrow>
               (case llm_text_prefix P lookup (msg_data m) of
                  Inl e \<Rightarrow> Inl e
                | Inr prefix \<Rightarrow>
                    Inr (map_option
                      (\<lambda>t. \<lparr>msg_id = id_int m, text_for_llm = t, timestamp_unix = date_unixtime m,
                            timestamp_utc = get_default (msg_data m) ''date'' (JStr [])\<rparr>)
                      (final_text_for_llm P (msg_data m) prefix text_content))))"

fun format_new ::
  "builtins \<Rightarrow> lookup_dict \<Rightarrow> int \<Rightarrow> int \<Rightarrow> valid_message list \<Rightarrow> py_error + formatted_message list" where
  "format_new P lookup last_id last_ts [] = Inr []"
| "format_new P lookup last_id last_ts (m # ms) =
     (case new_message P lookup last_id last_ts m of
        Inl e \<Rightarrow> Inl e
      | Inr None \<Rightarrow> format_new P lookup last_id last_ts ms
      | Inr (Some f) \<Rightarrow>
          (case format_new P lookup last_id last_ts ms of
             Inl e \<Rightarrow> Inl e
           | Inr fs \<Rightarrow> Inr (f # fs)))"

text \<open>
  What \<^verbatim>\<open>for msg_data in all_messages_in_file\<close> runs over. The value is whatever the
  file holds under \<^verbatim>\<open>messages\<close>: a string gives its characters, a dictionary its keys,
  a number cannot be iterated.
\<close>

fun iterate :: "json \<Rightarrow> py_error + json list" where
  "iterate (JArr xs) = Inr xs"
| "iterate (JStr s) = Inr (map (\<lambda>c. JStr [c]) s)"
| "iterate (JObj kvs) = Inr (map (\<lambda>kv. JStr (fst kv)) kvs)"
| "iterate _ = Inl TypeError"

text \<open>
  \<^verbatim>\<open>load_and_format_new_messages\<close>. The export file is \<open>None\<close> when it cannot be opened
  or is not JSON, and the parsed value otherwise.
\<close>

definition load_and_format_new_messages ::
  "builtins \<Rightarrow> json option \<Rightarrow> int \<Rightarrow> int \<Rightarrow> py_error + (formatted_message list \<times> int \<times> int)" where
  "load_and_format_new_messages P export_file last_id_processed last_timestamp_unix_processed =
     (case export_file of
        None \<Rightarrow> Inr ([], 0, 0)
      | Some (JObj data) \<Rightarrow>
          (let all_messages_in_file = get_default data ''messages'' (JArr []) in
           if \<not> truthy all_messages_in_file then Inr ([], 0, 0)
           else case iterate all_messages_in_file of
                  Inl e \<Rightarrow> Inl e
                | Inr items \<Rightarrow>
                    (case scan_messages P items [] Map.empty of
                       Inl e \<Rightarrow> Inl e
                     | Inr (valid, message_lookup_dict) \<Rightarrow>
                         if valid = [] then Inr ([], 0, 0)
                         else (let sorted = sort_key (\<lambda>m. (date_unixtime m, id_int m)) valid in
                               case format_new P message_lookup_dict last_id_processed
                                      last_timestamp_unix_processed sorted of
                                 Inl e \<Rightarrow> Inl e
                               | Inr new_formatted_messages \<Rightarrow>
                                   Inr (new_formatted_messages, id_int (hd sorted), id_int (last sorted)))))
      | Some _ \<Rightarrow> Inl AttributeError)"

text \<open>A stand-in for the builtins, for evaluating the functions on examples: it reads
  strings of decimal digits, prints nothing for lists and dictionaries, and has a local time
  for the seconds from 1970 up to the end of the year 9999.\<close>

definition digit_value :: "char \<Rightarrow> int option" where
  "digit_value c = map_of (zip ''0123456789'' [0, 1, 2, 3, 4, 5, 6, 7, 8, 9]) c"

fun digits_value :: "int \<Rightarrow> string \<Rightarrow> int option" where
  "digits_value acc [] = Some acc"
| "digits_value acc (c # cs) =
     (case digit_value c of None \<Rightarrow> None | Some v \<Rightarrow> digits_value (10 * acc + v) cs)"

definition example_builtins :: builtins where
  "example_builtins =
     \<lparr>int_of_str = (\<lambda>s. if s = [] then None else digits_value 0 s), repr_of = (\<lambda>v. []),
      fromtimestamp_raises = (\<lambda>t. if 0 \<le> t \<and> t < 253402300800 then None else Some ValueError)\<rparr>"

text \<open>
  For the statements about the export: the Records of an export file (what the first loop
  runs over), whether a message has something to render, and whether a Record with a given
  identifier and timestamp is among the new messages.
\<close>

definition export_records :: "json option \<Rightarrow> json list" where
  "export_records export_file =
     (case export_file of
        Some (JObj data) \<Rightarrow>
          (case iterate (get_default data ''messages'' (JArr [])) of Inr items \<Rightarrow> items | Inl e \<Rightarrow> [])
      | _ \<Rightarrow> [])"

definition has_content :: "dict \<Rightarrow> bool" where
  "has_content d \<longleftrightarrow>
     (case parse_telegram_message_text (get_default d ''text'' (JStr [])) of Inr t \<Rightarrow> t \<noteq> [] | Inl e \<Rightarrow> False)
     \<or> truthy (get d ''file'') \<or> truthy (get d ''photo'') \<or> truthy (get d ''sticker'')"

definition emitted :: "formatted_message list \<Rightarrow> int \<Rightarrow> int \<Rightarrow> bool" where
  "emitted new_formatted_messages i t \<longleftrightarrow>
     (\<exists>f \<in> set new_formatted_messages. msg_id f = i \<and> timestamp_unix f = t)"

text \<open>
  An export on which the function raises nothing: the messages are a list of dictionaries,
  the text of each is a string or a list whose \<^verbatim>\<open>text\<close> entries are strings, and no
  \<^verbatim>\<open>reply_to_message_id\<close> is a list or a dictionary.
\<close>

definition well_formed_message :: "dict \<Rightarrow> bool" where
  "well_formed_message d \<longleftrightarrow>
     (case parse_telegram_message_text (get_default d ''text'' (JStr [])) of Inr t \<Rightarrow> True | Inl e \<Rightarrow> False)
     \<and> (case dict_key (get d ''reply_to_message_id'') of Inr k \<Rightarrow> True | Inl e \<Rightarrow> False)"

definition well_formed_record :: "json \<Rightarrow> bool" where
  "well_formed_record x = (case x of JObj d \<Rightarrow> well_formed_message d | _ \<Rightarrow> False)"

definition well_formed_export :: "json option \<Rightarrow> bool" where
  "well_formed_export export_file =
     (case export_file of
        None \<Rightarrow> True
      | Some (JObj data) \<Rightarrow>
          (case get_default data ''messages'' (JArr []) of
             JArr items \<Rightarrow> list_all well_formed_record items
           | _ \<Rightarrow> False)
      | Some _ \<Rightarrow> False)"

definition service_export :: json where
  "service_export = JObj [(''messages'', JArr
     [JObj [(''id'', JNum 5), (''type'', JStr ''service''), (''date_unixtime'', JStr ''10''),
            (''action'', JStr ''pin_message'')]])]"

definition example_export :: json where
  "example_export = JObj [(''messages'', JArr
     [JObj [(''id'', JNum 1), (''type'', JStr ''message''), (''date_unixtime'', JStr ''100''),
            (''from'', JStr ''Ann''), (''text'', JStr []), (''photo'', JStr ''p.jpg'')],
      JObj [(''id'', JNum 2), (''type'', JStr ''service''), (''date_unixtime'', JStr ''101'')],
      JObj [(''id'', JNum 3), (''type'', JStr ''message''), (''date_unixtime'', JStr ''102''),
            (''from'', JStr ''Bob''), (''text'', JStr ''nice''), (''reply_to_message_id'', JNum 1)]])]"

definition file_and_photo_export :: json where
  "file_and_photo_export = JObj [(''messages'', JArr
     [JObj [(''id'', JNum 1), (''type'', JStr ''message''), (''date_unixtime'', JStr ''100''),
            (''from'', JStr ''Ann''), (''text'', JStr []), (''file'', JStr ''f.pdf''),
            (''photo'', JStr ''p.jpg'')],
      JObj [(''id'', JNum 3), (''type'', JStr ''message''), (''date_unixtime'', JStr ''102''),
            (''from'', JStr ''Bob''), (''text'', JStr ''nice''), (''reply_to_message_id'', JNum 1)]])]"

section \<open>State, effects and the world outside\<close>

definition SYSTEM_PROMPT_CHUNK_INSIGHTS :: string where
  \<open>SYSTEM_PROMPT_CHUNK_INSIGHTS = join [CHR 0x0A]
    [''You are an expert AI assistant. Your task is to analyze a new chunk of Telegram chat messages.'',
     ''You have been provided with a 'Previous Conversation Summary' which summarizes key points from messages processed before this current chunk.'',
     ''Based on BOTH the 'Previous Conversation Summary' AND the 'Current Message Chunk', identify and extract NEW key insights, decisions, important questions, action items, and main topics from the 'Current Message Chunk' ONLY.'',
     ''Do not repeat information already well-covered in the 'Previous Conversation Summary' unless the new chunk significantly updates or refutes it or adds crucial new details.'',
     ''If the 'Current Message Chunk' contains no new salient information, or is just noise/greetings/banter without substance when considering the previous summary, respond with the exact phrase "NO_NEW_INSIGHTS".'',
     ''Otherwise, present the new insights for the current chunk concisely and clearly, using bullet points for distinct items. Focus on actionable and informative content.'',
     ''The chat messages are in the format 'Sender Name: Message content' or 'Sender Name (replying to 'OriginalSender: Snippet'): Message content'.'',
     '''']\<close>

definition SYSTEM_PROMPT_COMPACT_INSIGHTS_COLLECTION :: string where
  \<open>SYSTEM_PROMPT_COMPACT_INSIGHTS_COLLECTION = join [CHR 0x0A]
    [''You are an expert AI assistant. You will be given a 'Collection of Previous Insights' from a long-running Telegram chat. These insights were generated sequentially from chunks of the conversation.'',
     ''Your task is to synthesize and compact this collection into a single, coherent, and concise 'Updated Conversation Summary so far'.'',
     ''This summary must retain all unique key information, decisions, questions, action items, and important topic developments mentioned in the individual insights.'',
     ''Eliminate redundancy, combine related points, and maintain chronological flow where sensible. The goal is a dense, informative summary that is shorter than the sum of its parts but captures all critical information needed to understand the conversation's progression.'',
     ''Focus on factual extraction and key developments. Use clear language and bullet points for distinct pieces of information where appropriate. This summary will be used as context for processing future message chunks OR as input to a final report.'',
     '''']\<close>

definition SYSTEM_PROMPT_FINAL_REPORT :: string where
  \<open>SYSTEM_PROMPT_FINAL_REPORT = join [CHR 0x0A]
    [''You are an expert AI assistant. You have been provided with a 'Consolidated Summary of Key Conversation Insights', which covers a long Telegram chat. These insights have been chronologically ordered and potentially pre-summarized.'',
     ''Your task is to synthesize these insights into a single, well-structured, highly readable, and comprehensive 'Final Report' of the entire conversation.'',
     '''',
     ''The report should be formatted for easy readability by a human. Use clear headings, paragraphs, and MOST IMPORTANTLY, extensive use of bullet points for:'',
     ''- Key Decisions Made (with when/who if identifiable)'',
     ''- Major Action Items (assigned to whom if identifiable, and any deadlines)'',
     ''- Significant Questions Raised (and their resolutions or if they remain open)'',
     ''- Critical Takeaways and Conclusions'',
     '''',
     ''Structure your report logically:'',
     ''1.  **Executive Summary:** A brief overview (2-3 paragraphs) of the entire conversation's purpose, main outcomes, and critical conclusions.'',
     ''2.  **Main Themes and Discussion Flow:** Describe the overarching topics and how the conversation evolved.'',
     ''3.  **Detailed Breakdown:**'',
     ''    * **Key Decisions:** Use bullet points. For each decision, briefly state the decision and any context.'',
     ''    * **Action Items:** Use bullet points. For each action item, specify the task, who is responsible (if known), and any deadlines.'',
     ''    * **Important Questions & Resolutions:** Use bullet points. List key questions, and their answers or current status.'',
     ''    * **Other Significant Insights/Events:** Use bullet points for any other notable information, topic shifts, or unresolved issues.'',
     ''4.  **Overall Conclusion/Next Steps (if apparent):** Summarize the final state of the discussion.'',
     '''',
     ''Ensure the report is detailed enough to be a standalone useful document. Do not just list the input insights; synthesize, structure, and rephrase them into this formal report format. Be comprehensive.'',
     '''']\<close>

text \<open>An Insight and the state snapshot, as \<^verbatim>\<open>save_state_data\<close> writes them.\<close>

record insight =
  chunk_start_message_id :: int
  chunk_end_message_id :: int
  chunk_start_message_timestamp_utc :: json
  chunk_end_message_timestamp_utc :: json
  insight_text :: string
  generated_at_utc :: string

record state_data =
  last_processed_message_id :: int
  last_processed_message_timestamp_unix :: int
  individual_useful_insights :: "insight list"
  latest_report_filename :: "string option"
  report_generated_at_utc :: "string option"
  system_prompts_used :: "(string \<times> string) list"

text \<open>
  The state file as \<^verbatim>\<open>load_state_data\<close> finds it: missing, impossible to open, not
  JSON, JSON that is not an object, or an object; of an object, which of the six keys it
  has, each with a value of the type that \<^verbatim>\<open>save_state_data\<close> writes (the report name
  and its time may be \<^verbatim>\<open>null\<close>).
\<close>

record state_file_object =
  file_last_processed_message_id :: "int option"
  file_last_processed_message_timestamp_unix :: "int option"
  file_individual_useful_insights :: "insight list option"
  file_latest_report_filename :: "string option option"
  file_report_generated_at_utc :: "string option option"
  file_system_prompts_used :: "(string \<times> string) list option"

datatype state_file = Missing | Unreadable | Unparsable | NotAnObject | Object state_file_object

text \<open>
  A request to \<^verbatim>\<open>client.messages.create\<close> (the model name is fixed, and the messages are
  one user message with the given content) and what comes of it: the text of the first content block, an \<^verbatim>\<open>APIError\<close> with its \<^verbatim>\<open>status_code\<close>
  if it has one (an \<^verbatim>\<open>APITimeoutError\<close> has none) and its message, or any other
  exception with its text.
\<close>

record request =
  system :: string
  messages_content :: string
  max_tokens :: nat

datatype outcome =
    Response string
  | APIError "int option" string
  | OtherException string

text \<open>
  What the script does to the world, in the order in which it does it: a call of the
  service, a sleep, a state snapshot written by \<^verbatim>\<open>save_state_data\<close>, a report file
  written (name and content), the export file removed.
\<close>

datatype event =
    ApiCall request
  | Sleep real
  | SaveState state_data
  | WriteReport string string
  | RemoveExport

text \<open>
  The world outside. What it answers may depend on everything that happened before, so
  each answer is a function of the events so far: the outcome of a request, the byte
  \<^verbatim>\<open>os.urandom(1)[0]\<close>, the clock in the three formats the script prints, whether a write
  succeeds. \<open>encode\<close> and \<open>decode\<close> are the tokenizer. The last four fields are what
  a run finds: whether the chat folder is a directory, the state file, the newest export
  file if there is one (\<open>None\<close> inside when it cannot be read as JSON), and the builtins.
\<close>

record environment =
  respond :: "event list \<Rightarrow> request \<Rightarrow> outcome"
  urandom :: "event list \<Rightarrow> 8 word"
  utcnow_isoformat :: "event list \<Rightarrow> string"
  now_file_stamp :: "event list \<Rightarrow> string"
  now_header_stamp :: "event list \<Rightarrow> string"
  state_write_ok :: "event list \<Rightarrow> bool"
  report_write_ok :: "event list \<Rightarrow> bool"
  report_exists :: "string \<Rightarrow> bool"
  folder_basename :: string
  encode :: "string \<Rightarrow> nat list"
  decode :: "nat list \<Rightarrow> string"
  chat_folder_is_dir :: bool
  state_file_content :: state_file
  latest_export_file :: "json option option"
  python :: builtins

definition count_tokens :: "environment \<Rightarrow> string \<Rightarrow> int" where
  "count_tokens E text_string = (if text_string = [] then 0 else int (length (encode E text_string)))"

section \<open>The adapter: \<^verbatim>\<open>call_anthropic_api\<close>\<close>

definition error_prefix :: "int option \<Rightarrow> string \<Rightarrow> string" where
  "error_prefix error_code error_message =
     ''ANTHROPIC_API_ERROR (Code ''
     @ (case error_code of None \<Rightarrow> ''Timeout'' | Some c \<Rightarrow> str_of_int c)
     @ ''): '' @ error_message"

definition retriable :: "int option \<Rightarrow> bool" where
  "retriable error_code =
     (case error_code of
        None \<Rightarrow> True
      | Some c \<Rightarrow> c = 529 \<or> c = 429 \<or> (500 \<le> c \<and> c \<le> 599))"

text \<open>
  \<^verbatim>\<open>min(INITIAL_BACKOFF_SECONDS * (2**(attempt - 1)), MAX_BACKOFF_SECONDS) *
  (1 + os.urandom(1)[0]/255.0 * 0.2)\<close>, in exact arithmetic, for \<open>attempt \<ge> 1\<close>.
\<close>

definition backoff :: "nat \<Rightarrow> 8 word \<Rightarrow> real" where
  "backoff attempt byte =
     min (INITIAL_BACKOFF_SECONDS * 2 ^ (attempt - 1)) MAX_BACKOFF_SECONDS
     * (1 + real (unat byte) / 255 * 0.2)"

text \<open>
  The function returns the text or the error-marker, and the events so far. It is called
  with \<open>attempt = 1\<close> and calls itself with the next attempt.
\<close>

function call_anthropic_api ::
  "environment \<Rightarrow> event list \<Rightarrow> string \<Rightarrow> string \<Rightarrow> nat \<Rightarrow> nat \<Rightarrow> string \<times> event list" where
  "call_anthropic_api E tr system_prompt user_messages_content max_response_tokens attempt =
     (let req = \<lparr>system = system_prompt, messages_content = user_messages_content,
                 max_tokens = max_response_tokens\<rparr>;
          tr1 = tr @ [ApiCall req]
      in case respond E tr req of
           Response text \<Rightarrow> (strip text, tr1)
         | APIError error_code error_message \<Rightarrow>
             if retriable error_code \<and> attempt < MAX_API_RETRIES
             then call_anthropic_api E (tr1 @ [Sleep (backoff attempt (urandom E tr1))])
                    system_prompt user_messages_content max_response_tokens (attempt + 1)
             else (error_prefix error_code error_message, tr1)
         | OtherException text \<Rightarrow> (''UNEXPECTED_ANTHROPIC_API_ERROR: '' @ text, tr1))"
  by pat_completeness auto
termination
  by (relation "measure (\<lambda>(E, tr, s, u, m, attempt). MAX_API_RETRIES - attempt)") auto

declare call_anthropic_api.simps [simp del]

definition is_error_marker :: "string \<Rightarrow> bool" where
  "is_error_marker s \<longleftrightarrow> startswith s ''ANTHROPIC_'' \<or> startswith s ''UNEXPECTED_''"

definition is_api_call :: "event \<Rightarrow> bool" where
  "is_api_call e = (case e of ApiCall r \<Rightarrow> True | _ \<Rightarrow> False)"

section \<open>The compactor: \<^verbatim>\<open>compact_insights_collection\<close>\<close>

definition SEP :: string where
  "SEP = [CHR 0x0A, CHR 0x0A] @ ''---'' @ [CHR 0x0A, CHR 0x0A]"

text \<open>The loop of the degraded path, over \<^verbatim>\<open>reversed(insights_texts_list)\<close>.\<close>

fun safe_loop :: "environment \<Rightarrow> int \<Rightarrow> string list \<Rightarrow> string \<Rightarrow> int \<Rightarrow> string" where
  "safe_loop E max_tokens_for_context [] safe_str temp_tokens = safe_str"
| "safe_loop E max_tokens_for_context (text # rest) safe_str temp_tokens =
     (let text_tokens = count_tokens E text + 5 in
      if temp_tokens + text_tokens \<le> max_tokens_for_context
      then safe_loop E max_tokens_for_context rest (text @ SEP @ safe_str) (temp_tokens + text_tokens)
      else safe_str)"

definition compaction_input_str :: "environment \<Rightarrow> string \<Rightarrow> string \<Rightarrow> string" where
  "compaction_input_str E full_insights_str prompt_for_compaction =
     (let max_allowed_input_for_compactor =
            MAX_TOKENS_FOR_INSIGHT_COLLECTION_COMPACTION - count_tokens E prompt_for_compaction - 2000
      in if count_tokens E full_insights_str > max_allowed_input_for_compactor
         then decode E (slice_to max_allowed_input_for_compactor (encode E full_insights_str))
         else full_insights_str)"

definition compaction_user_prompt :: "environment \<Rightarrow> string \<Rightarrow> string \<Rightarrow> string" where
  "compaction_user_prompt E full_insights_str prompt_for_compaction =
     ''Please compact the following collection of insights according to the instructions:''
     @ [CHR 0x0A, CHR 0x0A] @ compaction_input_str E full_insights_str prompt_for_compaction"

definition compact_insights_collection ::
  "environment \<Rightarrow> event list \<Rightarrow> string list \<Rightarrow> int \<Rightarrow> string \<Rightarrow> string \<times> event list" where
  "compact_insights_collection E tr insights_texts_list max_tokens_for_context prompt_for_compaction =
     (if insights_texts_list = [] then ([], tr)
      else let full_insights_str = join SEP insights_texts_list in
        if count_tokens E full_insights_str > max_tokens_for_context
        then (case call_anthropic_api E tr prompt_for_compaction
                     (compaction_user_prompt E full_insights_str prompt_for_compaction) 3000 1 of
                (compacted_summary, tr') \<Rightarrow>
                  if is_error_marker compacted_summary
                  then (strip (safe_loop E max_tokens_for_context (rev insights_texts_list) [] 0), tr')
                  else (compacted_summary, tr'))
        else (full_insights_str, tr))"

text \<open>
  A world for evaluating the functions on examples: the service answers as given, the
  random byte is 255, the clock stands still, writes succeed, a token is a character, there
  is no state file yet, and the export is \<open>example_export\<close>.
\<close>

definition example_environment :: "(event list \<Rightarrow> request \<Rightarrow> outcome) \<Rightarrow> environment" where
  "example_environment service =
     \<lparr>respond = service, urandom = (\<lambda>tr. 255), utcnow_isoformat = (\<lambda>tr. ''2024-01-01T00:00:00''),
      now_file_stamp = (\<lambda>tr. ''2024-01-01_000000''),
      now_header_stamp = (\<lambda>tr. ''2024-01-01 12:00:00 AM''),
      state_write_ok = (\<lambda>tr. True), report_write_ok = (\<lambda>tr. True),
      report_exists = (\<lambda>name. False), folder_basename = ''chat'',
      encode = map of_char, decode = map char_of,
      chat_folder_is_dir = True, state_file_content = Missing,
      latest_export_file = Some (Some example_export), python = example_builtins\<rparr>"

definition always_overloaded :: "event list \<Rightarrow> request \<Rightarrow> outcome" where
  "always_overloaded tr req = APIError (Some 529) ''Overloaded''"

text \<open>
  Two variations of a world, for the examples: one in which a token is up to four
  characters and the tokens of a string are numbered from 0, and one in which every write
  of the state file raises.
\<close>

definition tokens_of_four :: "environment \<Rightarrow> environment" where
  "tokens_of_four E = E\<lparr>encode := (\<lambda>s. [0 ..< (length s + 3) div 4])\<rparr>"

definition failing_writes :: "environment \<Rightarrow> environment" where
  "failing_writes E = E\<lparr>state_write_ok := (\<lambda>tr. False)\<rparr>"

text \<open>
  For the statements about the degraded path: the estimate the loop adds up for a text,
  and how many texts of the reversed list the loop takes before it stops.
\<close>

definition estimate :: "environment \<Rightarrow> string \<Rightarrow> int" where
  "estimate E t = count_tokens E t + 5"

fun taken :: "environment \<Rightarrow> int \<Rightarrow> string list \<Rightarrow> int \<Rightarrow> nat" where
  "taken E max_tokens_for_context [] temp_tokens = 0"
| "taken E max_tokens_for_context (t # rest) temp_tokens =
     (if temp_tokens + estimate E t \<le> max_tokens_for_context
      then Suc (taken E max_tokens_for_context rest (temp_tokens + estimate E t))
      else 0)"

section \<open>The state snapshot: \<^verbatim>\<open>load_state_data\<close> and \<^verbatim>\<open>save_state_data\<close>\<close>

definition fresh_state :: state_data where
  "fresh_state =
     \<lparr>last_processed_message_id = 0, last_processed_message_timestamp_unix = 0,
      individual_useful_insights = [], latest_report_filename = None,
      report_generated_at_utc = None, system_prompts_used = []\<rparr>"

definition setdefault :: "'a option \<Rightarrow> 'a \<Rightarrow> 'a" where
  "setdefault entry dflt = (case entry of None \<Rightarrow> dflt | Some v \<Rightarrow> v)"

text \<open>
  Every exception inside the \<^verbatim>\<open>try\<close> (the file cannot be opened, is not JSON, or is
  not an object, so that \<^verbatim>\<open>setdefault\<close> does not exist) is caught and leads to the fresh
  state, as a missing file does.
\<close>

fun load_state_data :: "state_file \<Rightarrow> state_data" where
  "load_state_data (Object data) =
     \<lparr>last_processed_message_id = setdefault (file_last_processed_message_id data) 0,
      last_processed_message_timestamp_unix = setdefault (file_last_processed_message_timestamp_unix data) 0,
      individual_useful_insights = setdefault (file_individual_useful_insights data) [],
      latest_report_filename = setdefault (file_latest_report_filename data) None,
      report_generated_at_utc = setdefault (file_report_generated_at_utc data) None,
      system_prompts_used = setdefault (file_system_prompts_used data) []\<rparr>"
| "load_state_data Missing = fresh_state"
| "load_state_data Unreadable = fresh_state"
| "load_state_data Unparsable = fresh_state"
| "load_state_data NotAnObject = fresh_state"

text \<open>
  \<^verbatim>\<open>save_state_data\<close> puts the three prompts into the state and writes the snapshot. A
  write that raises is caught and only printed: the state in memory is the same, and no
  snapshot reaches the file.
\<close>

definition save_state_data :: "environment \<Rightarrow> event list \<Rightarrow> state_data \<Rightarrow> state_data \<times> event list" where
  "save_state_data E tr data =
     (let data' = data\<lparr>system_prompts_used :=
            set_item (set_item (set_item (system_prompts_used data)
              ''chunk_insights'' SYSTEM_PROMPT_CHUNK_INSIGHTS)
              ''compact_insights_collection'' SYSTEM_PROMPT_COMPACT_INSIGHTS_COLLECTION)
              ''final_report'' SYSTEM_PROMPT_FINAL_REPORT\<rparr>
      in (data', if state_write_ok E tr then tr @ [SaveState data'] else tr))"

text \<open>The snapshots written so far, oldest first; the last one is the content of the state file.\<close>

fun snapshots :: "event list \<Rightarrow> state_data list" where
  "snapshots [] = []"
| "snapshots (SaveState s # tr) = s # snapshots tr"
| "snapshots (e # tr) = snapshots tr"

section \<open>The report: \<^verbatim>\<open>generate_and_save_final_report_txt\<close>\<close>

definition name_missing :: "string option \<Rightarrow> bool" where
  "name_missing name = (case name of None \<Rightarrow> True | Some n \<Rightarrow> n = [])"

definition should_generate_report :: "environment \<Rightarrow> state_data \<Rightarrow> bool \<Rightarrow> bool" where
  "should_generate_report E state_data_ref new_insights_were_added_this_run \<longleftrightarrow>
     new_insights_were_added_this_run
     \<or> (individual_useful_insights state_data_ref \<noteq> []
        \<and> (name_missing (latest_report_filename state_data_ref)
           \<or> report_generated_at_utc state_data_ref = None
           \<or> \<not> report_exists E (setdefault (latest_report_filename state_data_ref) ''----.txt'')))"

definition all_individual_insights :: "state_data \<Rightarrow> string list" where
  "all_individual_insights state_data_ref =
     filter (\<lambda>t. t \<noteq> [] \<and> t \<noteq> ''NO_NEW_INSIGHTS'')
       (map insight_text (individual_useful_insights state_data_ref))"

text \<open>The second tier: one summary for each group of insights, \<open>idx\<close> counting from 0.\<close>

fun summarize_meta_chunks ::
  "environment \<Rightarrow> event list \<Rightarrow> nat \<Rightarrow> string list list \<Rightarrow> string list \<times> event list" where
  "summarize_meta_chunks E tr idx [] = ([], tr)"
| "summarize_meta_chunks E tr idx (meta_chunk # rest) =
     (case call_anthropic_api E tr SYSTEM_PROMPT_COMPACT_INSIGHTS_COLLECTION
             (''Please provide a concise summary of the following insights, which are part of a larger collection for a final report:''
              @ [CHR 0x0A, CHR 0x0A] @ join SEP meta_chunk) 2000 1 of
        (meta_summary, tr1) \<Rightarrow>
          (case summarize_meta_chunks E tr1 (idx + 1) rest of
             (summaries, tr2) \<Rightarrow>
               ((if is_error_marker meta_summary
                 then ''[Error summarizing meta-chunk '' @ str_of_nat (idx + 1) @ '': '' @ meta_summary @ '']''
                 else meta_summary) # summaries, tr2)))"

definition current_input_for_report ::
  "environment \<Rightarrow> event list \<Rightarrow> string list \<Rightarrow> string \<times> event list" where
  "current_input_for_report E tr insights =
     (if count_tokens E (join SEP insights) > MAX_TOKENS_FOR_FINAL_REPORT_GENERATION
      then (case summarize_meta_chunks E tr 0 (chunks MAX_INSIGHTS_PER_META_CHUNK_FOR_REPORT insights) of
              (summarized_meta_chunks, tr') \<Rightarrow> (join SEP summarized_meta_chunks, tr'))
      else (join SEP insights, tr))"

definition final_report_request :: "string \<Rightarrow> string" where
  "final_report_request input =
     ''Using the following consolidated key insights, please generate the final report as per the detailed instructions:''
     @ [CHR 0x0A, CHR 0x0A] @ input"

definition report_file_content :: "environment \<Rightarrow> event list \<Rightarrow> string \<Rightarrow> string" where
  "report_file_content E tr final_report_text_content =
     ''Final Report for: '' @ folder_basename E @ [CHR 0x0A]
     @ ''Generated on: '' @ now_header_stamp E tr @ [CHR 0x0A]
     @ replicate 30 CHR ''='' @ [CHR 0x0A, CHR 0x0A] @ final_report_text_content"

text \<open>
  \<open>no_valid_report\<close> is what the script does twice on failure and once when there is
  nothing to report: clear the name of the report, note the time, save.
\<close>

definition no_valid_report :: "environment \<Rightarrow> event list \<Rightarrow> state_data \<Rightarrow> state_data \<times> event list" where
  "no_valid_report E tr state_data_ref =
     save_state_data E tr
       (state_data_ref\<lparr>latest_report_filename := None,
                        report_generated_at_utc := Some (utcnow_isoformat E tr @ ''Z'')\<rparr>)"

definition generate_and_save_final_report_txt ::
  "environment \<Rightarrow> event list \<Rightarrow> state_data \<Rightarrow> bool \<Rightarrow> bool \<times> state_data \<times> event list" where
  "generate_and_save_final_report_txt E tr state_data_ref new_insights_were_added_this_run =
     (if \<not> should_generate_report E state_data_ref new_insights_were_added_this_run
      then (True, state_data_ref, tr)
      else if all_individual_insights state_data_ref = []
      then (True, no_valid_report E tr state_data_ref)
      else case current_input_for_report E tr (all_individual_insights state_data_ref) of
        (input, tr1) \<Rightarrow>
          (case call_anthropic_api E tr1 SYSTEM_PROMPT_FINAL_REPORT (final_report_request input) 4000 1 of
             (final_report_text_content, tr2) \<Rightarrow>
               if is_error_marker final_report_text_content
               then (False, no_valid_report E tr2 state_data_ref)
               else if report_write_ok E tr2
               then (let report_filename =
                           folder_basename E @ ''-Report-'' @ now_file_stamp E tr2 @ ''.txt'';
                         tr3 = tr2 @ [WriteReport report_filename
                                        (report_file_content E tr2 final_report_text_content)]
                     in (True, save_state_data E tr3
                           (state_data_ref\<lparr>latest_report_filename := Some report_filename,
                              report_generated_at_utc := Some (utcnow_isoformat E tr3 @ ''Z'')\<rparr>)))
               else (False, no_valid_report E tr2 state_data_ref)))"

section \<open>The run: \<^verbatim>\<open>process_chat_folder\<close>\<close>

definition ANTHROPIC_API_KEY :: string where
  "ANTHROPIC_API_KEY = ''YOUR KEY GOES HERE''"

definition get_anthropic_client :: "py_error + unit" where
  "get_anthropic_client =
     (if ANTHROPIC_API_KEY = [] \<or> startswith ANTHROPIC_API_KEY ''sk-ant-api03-xxx''
      then Inl ValueError else Inr ())"

definition prompt_content_for_chunk :: "string \<Rightarrow> formatted_message list \<Rightarrow> string" where
  "prompt_content_for_chunk previous_insights_context_str chunk =
     ''Previous Conversation Summary:'' @ [CHR 0x0A]
     @ (if previous_insights_context_str \<noteq> [] then previous_insights_context_str
        else ''No previous summary available.'')
     @ SEP @ ''Current Message Chunk:'' @ [CHR 0x0A]
     @ join [CHR 0x0A] (map text_for_llm chunk)"

text \<open>The variables of the chunk loop, and the events so far.\<close>

record run =
  state :: state_data
  previous_insights_context_str :: string
  trace :: "event list"
  any_new_insights_this_run :: bool
  all_chunks_successful :: bool

text \<open>The end of an iteration that goes through: the cursor moves to the last message of
  the chunk, the report is no longer valid, the state is saved.\<close>

definition commit_chunk :: "environment \<Rightarrow> formatted_message list \<Rightarrow> run \<Rightarrow> run" where
  "commit_chunk E chunk r =
     (case save_state_data E (trace r)
             ((state r)\<lparr>last_processed_message_id := msg_id (last chunk),
                         last_processed_message_timestamp_unix := timestamp_unix (last chunk),
                         latest_report_filename := None, report_generated_at_utc := None\<rparr>) of
        (state_data, tr) \<Rightarrow> r\<lparr>state := state_data, trace := tr\<rparr>)"

definition new_insight_obj :: "environment \<Rightarrow> event list \<Rightarrow> formatted_message list \<Rightarrow> string \<Rightarrow> insight" where
  "new_insight_obj E tr chunk chunk_insight_text =
     \<lparr>chunk_start_message_id = msg_id (hd chunk), chunk_end_message_id = msg_id (last chunk),
      chunk_start_message_timestamp_utc = timestamp_utc (hd chunk),
      chunk_end_message_timestamp_utc = timestamp_utc (last chunk),
      insight_text = chunk_insight_text, generated_at_utc = utcnow_isoformat E tr @ ''Z''\<rparr>"

text \<open>
  One iteration for a chunk that is not empty. The second component says whether the
  loop goes on; \<open>False\<close> is \<^verbatim>\<open>break\<close>.
\<close>

definition process_chunk :: "environment \<Rightarrow> formatted_message list \<Rightarrow> run \<Rightarrow> run \<times> bool" where
  "process_chunk E chunk r =
     (case call_anthropic_api E (trace r) SYSTEM_PROMPT_CHUNK_INSIGHTS
             (prompt_content_for_chunk (previous_insights_context_str r) chunk) 1500 1 of
        (chunk_insight_text, tr1) \<Rightarrow>
          if is_error_marker chunk_insight_text
          then (r\<lparr>trace := tr1, all_chunks_successful := False\<rparr>, False)
          else if chunk_insight_text = ''NO_NEW_INSIGHTS''
          then (commit_chunk E chunk (r\<lparr>trace := tr1\<rparr>), True)
          else (let state1 = (state r)\<lparr>individual_useful_insights :=
                       individual_useful_insights (state r) @ [new_insight_obj E tr1 chunk chunk_insight_text]\<rparr>
                in case compact_insights_collection E tr1
                          (map insight_text (individual_useful_insights state1))
                          MAX_PREVIOUS_INSIGHTS_TOKENS_FOR_CHUNK_PROCESSING
                          SYSTEM_PROMPT_COMPACT_INSIGHTS_COLLECTION of
                     (context, tr2) \<Rightarrow>
                       if is_error_marker context
                       then (r\<lparr>state := state1, previous_insights_context_str := context, trace := tr2,
                               any_new_insights_this_run := True, all_chunks_successful := False\<rparr>, False)
                       else (commit_chunk E chunk
                               (r\<lparr>state := state1, previous_insights_context_str := context,
                                  trace := tr2, any_new_insights_this_run := True\<rparr>), True)))"

fun chunk_loop :: "environment \<Rightarrow> formatted_message list list \<Rightarrow> run \<Rightarrow> run" where
  "chunk_loop E [] r = r"
| "chunk_loop E (chunk # rest) r =
     (if chunk = [] then chunk_loop E rest r
      else case process_chunk E chunk r of
             (r', continue) \<Rightarrow> if continue then chunk_loop E rest r' else r')"

text \<open>What follows the loop, for a run that had new messages.\<close>

definition finish_run :: "environment \<Rightarrow> run \<Rightarrow> state_data \<times> event list" where
  "finish_run E r =
     (if all_chunks_successful r
      then (case generate_and_save_final_report_txt E (trace r) (state r) (any_new_insights_this_run r) of
              (report_generation_successful_this_run, state_data, tr) \<Rightarrow>
                (state_data, if report_generation_successful_this_run then tr @ [RemoveExport] else tr))
      else (state r, trace r))"

text \<open>
  The line that prints the loaded state formats the stored timestamp with
  \<^verbatim>\<open>datetime.datetime.fromtimestamp\<close> when it is positive, outside any \<^verbatim>\<open>try\<close>: an exception
  there ends the run before anything else happens.
\<close>

definition print_loaded_state :: "builtins \<Rightarrow> state_data \<Rightarrow> py_error option" where
  "print_loaded_state P state_data =
     (if last_processed_message_timestamp_unix state_data > 0
      then fromtimestamp_raises P (last_processed_message_timestamp_unix state_data)
      else None)"

text \<open>
  \<^verbatim>\<open>process_chat_folder\<close>: the exception that ends the run, if any, the state in memory
  at the end, and the events of the run.
\<close>

definition process_chat_folder :: "environment \<Rightarrow> py_error option \<times> state_data \<times> event list" where
  "process_chat_folder E =
     (if \<not> chat_folder_is_dir E then (None, fresh_state, [])
      else let state_data = load_state_data (state_file_content E) in
        case print_loaded_state (python E) state_data of
          Some e \<Rightarrow> (Some e, state_data, [])
        | None \<Rightarrow>
        case get_anthropic_client of
          Inl e \<Rightarrow> (None, state_data, [])
        | Inr client \<Rightarrow>
            (case latest_export_file E of
               None \<Rightarrow> (None, snd (generate_and_save_final_report_txt E [] state_data False))
             | Some export_file \<Rightarrow>
                 (case load_and_format_new_messages (python E) export_file
                         (last_processed_message_id state_data)
                         (last_processed_message_timestamp_unix state_data) of
                    Inl e \<Rightarrow> (Some e, state_data, [])
                  | Inr (new_messages, first_id_in_file, last_id_in_file) \<Rightarrow>
                      if new_messages = []
                      then (None, snd (generate_and_save_final_report_txt E
                              (if last_id_in_file > 0 \<and> last_processed_message_id state_data \<ge> last_id_in_file
                               then [RemoveExport] else [])
                              state_data False))
                      else (case compact_insights_collection E []
                                   (map insight_text (individual_useful_insights state_data))
                                   MAX_PREVIOUS_INSIGHTS_TOKENS_FOR_CHUNK_PROCESSING
                                   SYSTEM_PROMPT_COMPACT_INSIGHTS_COLLECTION of
                              (context, tr) \<Rightarrow>
                                if is_error_marker context then (None, state_data, tr)
                                else (None, finish_run E
                                        (chunk_loop E (chunks MESSAGES_PER_CHUNK new_messages)
                                           \<lparr>state = state_data, previous_insights_context_str = context,
                                            trace = tr, any_new_insights_this_run = False,
                                            all_chunks_successful = True\<rparr>))))))"

definition early_export :: json where
  "early_export = JObj [(''messages'', JArr
     [JObj [(''id'', JNum 1), (''type'', JStr ''message''), (''date_unixtime'', JNum (- 1)),
            (''from'', JStr ''Ann''), (''text'', JStr ''old'')]])]"

text \<open>
  For the statements about persisted progress: the state that \<^verbatim>\<open>load_state_data\<close> would
  read after the events so far (the last snapshot written, or what the state file held at
  the start), and whether it has the Insights and the cursor of the state in memory.
\<close>

definition persisted_state :: "environment \<Rightarrow> event list \<Rightarrow> state_data" where
  "persisted_state E tr =
     (if snapshots tr = [] then load_state_data (state_file_content E) else last (snapshots tr))"

definition in_sync :: "environment \<Rightarrow> run \<Rightarrow> bool" where
  "in_sync E r \<longleftrightarrow>
     individual_useful_insights (persisted_state E (trace r)) = individual_useful_insights (state r)
     \<and> last_processed_message_id (persisted_state E (trace r)) = last_processed_message_id (state r)
     \<and> last_processed_message_timestamp_unix (persisted_state E (trace r))
         = last_processed_message_timestamp_unix (state r)"

text \<open>Services and data for evaluating a run on examples.\<close>

definition nothing_new :: "event list \<Rightarrow> request \<Rightarrow> outcome" where
  "nothing_new tr req = Response ''NO_NEW_INSIGHTS''"

definition fails_after_first :: "event list \<Rightarrow> request \<Rightarrow> outcome" where
  "fails_after_first tr req =
     (if tr = [] then Response ''NO_NEW_INSIGHTS'' else APIError (Some 400) ''Bad request'')"

definition example_message :: "int \<Rightarrow> formatted_message" where
  "example_message i =
     \<lparr>msg_id = i, text_for_llm = ''From Ann: hello'', timestamp_unix = 100 + i, timestamp_utc = JStr []\<rparr>"

definition start_of_run :: run where
  "start_of_run =
     \<lparr>state = fresh_state, previous_insights_context_str = [], trace = [],
      any_new_insights_this_run = False, all_chunks_successful = True\<rparr>"

definition one_insight_state :: state_data where
  "one_insight_state =
     fresh_state\<lparr>last_processed_message_id := 3, last_processed_message_timestamp_unix := 102,
       individual_useful_insights :=
         [\<lparr>chunk_start_message_id = 1, chunk_end_message_id = 3,
           chunk_start_message_timestamp_utc = JStr [], chunk_end_message_timestamp_utc = JStr [],
           insight_text = ''- Bob liked the photo'', generated_at_utc = ''2024-01-01T00:00:00Z''\<rparr>],
       latest_report_filename := Some ''chat-Report-2023-12-31_000000.txt'',
       report_generated_at_utc := Some ''2023-12-31T00:00:00Z''\<rparr>"

definition example_new :: "formatted_message list" where
  "example_new = [\<lparr>msg_id = 1, text_for_llm = ''From Ann: [Sent a photo]'',
               timestamp_unix = 100, timestamp_utc = JStr []\<rparr>,
              \<lparr>msg_id = 3, text_for_llm = ''From Bob (replying to '' @ [CHR 0x27] @ ''Ann: [Photo]'' @ [CHR 0x27] @ ''): nice'',
               timestamp_unix = 102, timestamp_utc = JStr []\<rparr>]"

definition example_saved :: state_data where
  "example_saved = fresh_state\<lparr>last_processed_message_id := 3,
          last_processed_message_timestamp_unix := 102,
          system_prompts_used :=
            [(''chunk_insights'', SYSTEM_PROMPT_CHUNK_INSIGHTS),
             (''compact_insights_collection'', SYSTEM_PROMPT_COMPACT_INSIGHTS_COLLECTION),
             (''final_report'', SYSTEM_PROMPT_FINAL_REPORT)]\<rparr>"

section \<open>Properties of the chunk partitioning\<close>

lemma chunk_messages_take_drop: "chunk_messages s xs i = take s (drop (i * s) xs)"
  by (simp add: chunk_messages_def slice_def)

lemma concat_chunk_prefix:
  "concat (map (chunk_messages s xs) [0..<k]) = take (k * s) xs"
proof (induction k)
  case 0
  then show ?case by simp
next
  case (Suc k)
  have "take (k * s) xs @ take s (drop (k * s) xs) = take (k * s + s) xs"
    by (simp add: take_add)
  with Suc show ?case
    by (simp add: chunk_messages_take_drop add.commute)
qed

lemma num_chunks_covers:
  assumes "0 < s"
  shows "n \<le> num_chunks s n * s"
proof -
  have "(n + s - 1) mod s < s" using assms by simp
  moreover have "(n + s - 1) div s * s + (n + s - 1) mod s = n + s - 1" by simp
  ultimately have "n + s - 1 < ((n + s - 1) div s) * s + s" by linarith
  then show ?thesis using assms by (simp add: num_chunks_def)
qed

lemma num_chunks_tight:
  assumes "0 < s" and "k < num_chunks s n"
  shows "k * s < n"
proof -
  have "Suc k \<le> (n + s - 1) div s" using assms by (simp add: num_chunks_def)
  then have "Suc k * s \<le> n + s - 1"
    using assms(1) by (simp add: less_eq_div_iff_mult_less_eq)
  then show ?thesis using assms(1) by simp
qed

lemma num_chunks_ceiling:
  assumes "0 < s"
  shows "int (num_chunks s n) = \<lceil>real n / real s\<rceil>"
proof -
  let ?k = "num_chunks s n"
  have up: "real n \<le> real ?k * real s"
    using num_chunks_covers [OF assms, of n] by (metis of_nat_le_iff of_nat_mult)
  have low: "real ?k * real s < real n + real s"
  proof (cases "?k = 0")
    case True
    then show ?thesis using assms by simp
  next
    case False
    then have "?k - 1 < ?k" by simp
    from num_chunks_tight [OF assms this] have "(?k - 1) * s < n" .
    then have "?k * s < n + s" using False by (simp add: algebra_simps diff_mult_distrib)
    then show ?thesis by (metis of_nat_add of_nat_less_iff of_nat_mult)
  qed
  have s: "0 < real s" using assms by simp
  have "real n / real s \<le> real ?k" using up s by (simp add: pos_divide_le_eq)
  moreover have "real ?k - 1 < real n / real s"
  proof -
    have "(real ?k - 1) * real s < real n" using low by (simp add: algebra_simps)
    then show ?thesis using s by (simp add: pos_less_divide_eq)
  qed
  ultimately have "\<lceil>real n / real s\<rceil> = int ?k"
    by (intro ceiling_unique) simp_all
  then show ?thesis by simp
qed

lemma chunk_messages_positions:
  "chunk_messages s xs k = map (\<lambda>j. xs ! j) [k * s..<min ((k + 1) * s) (length xs)]"
proof (rule nth_equalityI)
  show "length (chunk_messages s xs k) = length (map (\<lambda>j. xs ! j) [k * s..<min ((k + 1) * s) (length xs)])"
    by (auto simp: chunk_messages_take_drop)
next
  fix i
  assume "i < length (chunk_messages s xs k)"
  then have i: "i < s" "k * s + i < length xs"
    by (auto simp: chunk_messages_take_drop)
  then have m: "k * s + i < min ((k + 1) * s) (length xs)" by simp
  have "i < length [k * s..<min ((k + 1) * s) (length xs)]"
    using i by (auto simp: min_def)
  then have "map (\<lambda>j. xs ! j) [k * s..<min ((k + 1) * s) (length xs)] ! i
      = xs ! ([k * s..<min ((k + 1) * s) (length xs)] ! i)"
    by (rule nth_map)
  also have "[k * s..<min ((k + 1) * s) (length xs)] ! i = k * s + i"
    using m by (rule nth_upt)
  finally have "map (\<lambda>j. xs ! j) [k * s..<min ((k + 1) * s) (length xs)] ! i = xs ! (k * s + i)" .
  moreover have "chunk_messages s xs k ! i = xs ! (k * s + i)"
    using i by (simp add: chunk_messages_take_drop)
  ultimately show "chunk_messages s xs k ! i = map (\<lambda>j. xs ! j) [k * s..<min ((k + 1) * s) (length xs)] ! i"
    by simp
qed

lemma chunk_messages_length:
  "length (chunk_messages s xs k) = min s (length xs - k * s)"
  by (simp add: chunk_messages_take_drop)

text \<open>
  C6. A sequence of \<open>n\<close> Records is cut into \<open>\<lceil>n / s\<rceil>\<close> chunks; chunk \<open>k\<close> holds exactly the
  Records at the positions \<open>k * s \<le> j < (k + 1) * s\<close> (as far as the sequence reaches), in
  their order; the chunks put one after the other give back the sequence; no chunk is
  empty, none is longer than \<open>s\<close>, and every chunk but the last has exactly \<open>s\<close> Records.
\<close>

theorem chunks_partition:
  assumes "0 < s"
  shows "int (length (chunks s xs)) = \<lceil>real (length xs) / real s\<rceil>
    \<and> concat (chunks s xs) = xs
    \<and> (\<forall>k < length (chunks s xs).
          chunks s xs ! k = map (\<lambda>j. xs ! j) [k * s..<min ((k + 1) * s) (length xs)]
        \<and> 0 < length (chunks s xs ! k)
        \<and> length (chunks s xs ! k) \<le> s
        \<and> (k + 1 < length (chunks s xs) \<longrightarrow> length (chunks s xs ! k) = s))"
proof -
  let ?n = "length xs"
  have len: "length (chunks s xs) = num_chunks s ?n" by (simp add: chunks_def)
  have nth: "chunks s xs ! k = chunk_messages s xs k" if "k < num_chunks s ?n" for k
    using that by (simp add: chunks_def)
  have c1: "int (length (chunks s xs)) = \<lceil>real ?n / real s\<rceil>"
    using num_chunks_ceiling [OF assms, of ?n] by (simp add: len)
  have c2: "concat (chunks s xs) = xs"
    using num_chunks_covers [OF assms, of ?n] by (simp add: chunks_def concat_chunk_prefix)
  have c3: "chunks s xs ! k = map (\<lambda>j. xs ! j) [k * s..<min ((k + 1) * s) ?n]
        \<and> 0 < length (chunks s xs ! k)
        \<and> length (chunks s xs ! k) \<le> s
        \<and> (k + 1 < length (chunks s xs) \<longrightarrow> length (chunks s xs ! k) = s)"
    if k: "k < length (chunks s xs)" for k
  proof -
    from k have k': "k < num_chunks s ?n" by (simp add: len)
    have lt: "k * s < ?n" by (rule num_chunks_tight [OF assms k'])
    have full: "length (chunk_messages s xs k) = s" if "k + 1 < num_chunks s ?n"
    proof -
      from num_chunks_tight [OF assms that] have "(k + 1) * s < ?n" .
      then have "s \<le> ?n - k * s" by simp
      then show ?thesis by (simp add: chunk_messages_length)
    qed
    have p1: "chunks s xs ! k = map (\<lambda>j. xs ! j) [k * s..<min ((k + 1) * s) ?n]"
      unfolding nth [OF k'] by (rule chunk_messages_positions)
    have p2: "0 < length (chunks s xs ! k)" "length (chunks s xs ! k) \<le> s"
      using lt assms by (simp_all add: nth [OF k'] chunk_messages_length)
    have p3: "k + 1 < length (chunks s xs) \<longrightarrow> length (chunks s xs ! k) = s"
      using full by (simp add: nth [OF k'] len)
    from p1 p2 p3 show ?thesis by blast
  qed
  from c1 c2 c3 show ?thesis by blast
qed

theorem chunks_partition_witness:
  "(0::nat) < 2 \<and> chunks 2 [10, 20, 30, 40, 50 :: int] = [[10, 20], [30, 40], [50]]
    \<and> int (length (chunks 2 [10, 20, 30, 40, 50 :: int])) = \<lceil>real 5 / real 2\<rceil>
    \<and> chunks 2 [10, 20, 30, 40, 50 :: int] ! 2 = map (\<lambda>j. [10, 20, 30, 40, 50] ! j) [2 * 2..<min ((2 + 1) * 2) 5]"
proof -
  have h: "(0::nat) < 2" by simp
  have e: "chunks 2 [10, 20, 30, 40, 50 :: int] = [[10, 20], [30, 40], [50]]"
    by (simp add: chunks_def num_chunks_def chunk_messages_def slice_def upt_rec [of _ 3]
        upt_rec [of _ "Suc (Suc (Suc 0))"] numeral_3_eq_3)
  from chunks_partition [OF h, of "[10, 20, 30, 40, 50 :: int]"] e show ?thesis
    by simp
qed

section \<open>Properties of the export reader\<close>

lemma map_of_set_item: "map_of (set_item d k v) = (map_of d)(k \<mapsto> v)"
  by (induction d k v rule: set_item.induct) auto

lemma get_set_item_other: "k' \<noteq> k \<Longrightarrow> get (set_item d k v) k' = get d k'"
  by (simp add: get_def map_of_set_item)

lemma get_default_set_item_other: "k' \<noteq> k \<Longrightarrow> get_default (set_item d k v) k' x = get_default d k' x"
  by (simp add: get_default_def map_of_set_item)

lemma get_write_back:
  "k \<noteq> ''id'' \<Longrightarrow> k \<noteq> ''date_unixtime'' \<Longrightarrow> get (write_back d i t) k = get d k"
  by (simp add: write_back_def get_set_item_other)

lemma get_default_write_back:
  "k \<noteq> ''id'' \<Longrightarrow> k \<noteq> ''date_unixtime'' \<Longrightarrow>
   get_default (write_back d i t) k x = get_default d k x"
  by (simp add: write_back_def get_default_set_item_other)

lemma has_content_set_item: "has_content (write_back d i t) = has_content d"
  by (simp add: has_content_def get_write_back get_default_write_back)

lemma type_set_item: "get (write_back d i t) ''type'' = get d ''type''"
  by (simp add: get_write_back)

lemma sender_name_write_back: "sender_name P (write_back d i t) dflt = sender_name P d dflt"
  by (simp add: sender_name_def get_default_write_back)

lemma attachment_placeholder_write_back:
  "attachment_placeholder P (write_back d i t) = attachment_placeholder P d"
  by (simp add: attachment_placeholder_def get_write_back get_default_write_back)

text \<open>The first loop keeps exactly the Records whose two numbers can be read.\<close>

lemma scan_messages_set:
  "scan_messages P items valid0 lookup0 = Inr (valid, lookup) \<Longrightarrow>
   set valid = set valid0 \<union>
     {\<lparr>id_int = i, date_unixtime = t,
        msg_data = write_back d i t\<rparr> | d i t.
      JObj d \<in> set items \<and> py_int P (get d ''id'') = Some i
      \<and> py_int P (get d ''date_unixtime'') = Some t}"
proof (induction P items valid0 lookup0 rule: scan_messages.induct)
  case (1 P valid lookup)
  then show ?case by simp
next
  case (2 P d rest valid0 lookup0)
  show ?case
  proof (cases "py_int P (get d ''id'')")
    case None
    with 2 show ?thesis by (auto split: option.splits)
  next
    case (Some i)
    note i = this
    show ?thesis
    proof (cases "py_int P (get d ''date_unixtime'')")
      case None
      with 2 i show ?thesis by (auto split: option.splits)
    next
      case (Some t)
      with 2 i show ?thesis by (auto simp: Let_def split: if_splits)
    qed
  qed
qed simp_all

lemma new_message_Some:
  assumes "new_message P lookup last_id last_ts m = Inr (Some f)"
  shows "msg_id f = id_int m \<and> timestamp_unix f = date_unixtime m
    \<and> (last_ts, last_id) < (date_unixtime m, id_int m)
    \<and> get (msg_data m) ''type'' = JStr ''message'' \<and> has_content (msg_data m)"
  using assms
  by (auto simp: new_message_def has_content_def final_text_for_llm_def
      split: if_splits sum.splits)

lemma new_message_emits:
  assumes "new_message P lookup last_id last_ts m = Inr r"
    and "(last_ts, last_id) < (date_unixtime m, id_int m)"
    and "get (msg_data m) ''type'' = JStr ''message''" and "has_content (msg_data m)"
  shows "\<exists>f. r = Some f"
  using assms
  by (auto simp: new_message_def has_content_def final_text_for_llm_def
      split: if_splits sum.splits)

lemma format_new_set:
  "format_new P lookup last_id last_ts ms = Inr out \<Longrightarrow>
   set out = {f. \<exists>m \<in> set ms. new_message P lookup last_id last_ts m = Inr (Some f)}
   \<and> (\<forall>m \<in> set ms. \<exists>r. new_message P lookup last_id last_ts m = Inr r)"
proof (induction ms arbitrary: out)
  case Nil
  then show ?case by simp
next
  case (Cons m ms)
  then show ?case
    by (auto split: sum.splits option.splits)
qed

lemma export_records_falsy:
  "\<not> truthy (get_default data ''messages'' (JArr [])) \<Longrightarrow> export_records (Some (JObj data)) = []"
  by (cases "get_default data ''messages'' (JArr [])") (simp_all add: export_records_def)

lemma emitted_Nil: "emitted [] i t = False"
  by (simp add: emitted_def)

lemma load_example:
  "load_and_format_new_messages example_builtins (Some example_export) 1 100
   = Inr ([\<lparr>msg_id = 3, text_for_llm = ''From Bob (replying to '' @ [CHR 0x27] @ ''Ann: [Photo]'' @ [CHR 0x27] @ ''): nice'',
            timestamp_unix = 102, timestamp_utc = JStr []\<rparr>], 1, 3)"
  by (simp add: load_and_format_new_messages_def example_export_def get_default_def get_def
      example_builtins_def digit_value_def new_message_def llm_text_prefix_def lookup_reply_def
      sender_name_def py_or_def final_text_for_llm_def attachment_placeholder_def
      reply_snippet_def strip_def is_space_def Let_def write_back_def)

text \<open>Which Records are among the new messages when the function returns.\<close>

lemma emitted_iff:
  assumes "load_and_format_new_messages P export_file last_id last_ts = Inr (out, first_id, last_id_in_file)"
  shows "emitted out i t \<longleftrightarrow>
     (last_ts, last_id) < (t, i)
     \<and> (\<exists>d. JObj d \<in> set (export_records export_file)
            \<and> py_int P (get d ''id'') = Some i \<and> py_int P (get d ''date_unixtime'') = Some t
            \<and> get d ''type'' = JStr ''message'' \<and> has_content d)"
proof (cases export_file)
  case None
  with assms show ?thesis
    by (simp add: load_and_format_new_messages_def export_records_def emitted_Nil)
next
  case (Some top)
  show ?thesis
  proof (cases top)
    case (JObj data)
    let ?all = "get_default data ''messages'' (JArr [])"
    show ?thesis
    proof (cases "truthy ?all")
      case False
      with assms Some JObj have "out = []"
        by (simp add: load_and_format_new_messages_def)
      with False Some JObj show ?thesis
        by (simp add: export_records_falsy emitted_Nil)
    next
      case True
      with assms Some JObj obtain items where items: "iterate ?all = Inr items"
        by (auto simp: load_and_format_new_messages_def split: sum.splits)
      with assms Some JObj True obtain valid lookup
        where scan: "scan_messages P items [] Map.empty = Inr (valid, lookup)"
        by (auto simp: load_and_format_new_messages_def split: sum.splits)
      have recs: "export_records export_file = items"
        using Some JObj items by (simp add: export_records_def)
      have valid: "set valid =
        {\<lparr>id_int = i, date_unixtime = t,
          msg_data = write_back d i t\<rparr> | d i t.
         JObj d \<in> set items \<and> py_int P (get d ''id'') = Some i
         \<and> py_int P (get d ''date_unixtime'') = Some t}"
        using scan_messages_set [OF scan] by simp
      show ?thesis
      proof (cases "valid = []")
        case True
        with assms Some JObj \<open>truthy ?all\<close> items scan have "out = []"
          by (simp add: load_and_format_new_messages_def)
        moreover from True valid have "\<not> (\<exists>d. JObj d \<in> set items
            \<and> py_int P (get d ''id'') = Some i \<and> py_int P (get d ''date_unixtime'') = Some t)"
          by auto
        ultimately show ?thesis by (auto simp: recs emitted_Nil)
      next
        case False
        let ?sorted = "sort_key (\<lambda>m. (date_unixtime m, id_int m)) valid"
        from assms Some JObj \<open>truthy ?all\<close> items scan False
        have fmt: "format_new P lookup last_id last_ts ?sorted = Inr out"
          by (auto simp: load_and_format_new_messages_def Let_def split: sum.splits)
        note fs = format_new_set [OF fmt, unfolded set_sort]
        show ?thesis
        proof
          assume "emitted out i t"
          then obtain f where f: "f \<in> set out" "msg_id f = i" "timestamp_unix f = t"
            by (auto simp: emitted_def)
          with fs obtain m where m: "m \<in> set valid"
            "new_message P lookup last_id last_ts m = Inr (Some f)" by auto
          from new_message_Some [OF m(2)] f
          have p: "id_int m = i" "date_unixtime m = t" "(last_ts, last_id) < (t, i)"
            "get (msg_data m) ''type'' = JStr ''message''" "has_content (msg_data m)"
            by auto
          from m(1) valid obtain d i' t' where d: "JObj d \<in> set items"
            "py_int P (get d ''id'') = Some i'" "py_int P (get d ''date_unixtime'') = Some t'"
            "m = \<lparr>id_int = i', date_unixtime = t', msg_data = write_back d i' t'\<rparr>"
            by auto
          from d(4) p have "i' = i" "t' = t" "get d ''type'' = JStr ''message''" "has_content d"
            by (auto simp: type_set_item has_content_set_item)
          with d p(3) show "(last_ts, last_id) < (t, i)
             \<and> (\<exists>d. JObj d \<in> set (export_records export_file)
                \<and> py_int P (get d ''id'') = Some i \<and> py_int P (get d ''date_unixtime'') = Some t
                \<and> get d ''type'' = JStr ''message'' \<and> has_content d)"
            unfolding recs by blast
        next
          assume r: "(last_ts, last_id) < (t, i)
             \<and> (\<exists>d. JObj d \<in> set (export_records export_file)
                \<and> py_int P (get d ''id'') = Some i \<and> py_int P (get d ''date_unixtime'') = Some t
                \<and> get d ''type'' = JStr ''message'' \<and> has_content d)"
          then obtain d where d: "JObj d \<in> set items"
            "py_int P (get d ''id'') = Some i" "py_int P (get d ''date_unixtime'') = Some t"
            "get d ''type'' = JStr ''message''" "has_content d"
            unfolding recs by blast
          define m where "m = \<lparr>id_int = i, date_unixtime = t,
               msg_data = write_back d i t\<rparr>"
          have mv: "m \<in> set valid" unfolding valid m_def using d by blast
          with fs obtain res where res: "new_message P lookup last_id last_ts m = Inr res"
            by blast
          have "\<exists>f. res = Some f"
            by (rule new_message_emits [OF res])
               (use r d in \<open>simp_all add: m_def type_set_item has_content_set_item\<close>)
          then obtain f where f: "res = Some f" ..
          with res mv fs have "f \<in> set out" by blast
          moreover from new_message_Some [OF res [unfolded f]]
          have "msg_id f = i" "timestamp_unix f = t" by (simp_all add: m_def)
          ultimately show "emitted out i t" by (auto simp: emitted_def)
        qed
      qed
    qed
  qed (use assms Some in \<open>simp_all add: load_and_format_new_messages_def\<close>)
qed

text \<open>
  C1, as amended. When \<^verbatim>\<open>load_and_format_new_messages\<close> returns, a Record with identifier
  \<open>i\<close> and timestamp \<open>t\<close> is among the new messages if and only if \<open>(t, i)\<close> is strictly
  greater than the stored cursor in the lexicographic order and the export holds a Record
  with these two numbers that has the type \<^verbatim>\<open>message\<close> and something to render. So a
  Record at or below the cursor is never emitted, and a Record above it is emitted unless
  it is not a message or has nothing to render.
\<close>

theorem admission_filter:
  assumes "load_and_format_new_messages P export_file last_id last_ts = Inr (out, first_id, last_id_in_file)"
  shows "emitted out i t \<longleftrightarrow>
     (last_ts, last_id) < (t, i)
     \<and> (\<exists>d. JObj d \<in> set (export_records export_file)
            \<and> py_int P (get d ''id'') = Some i \<and> py_int P (get d ''date_unixtime'') = Some t
            \<and> get d ''type'' = JStr ''message'' \<and> has_content d)"
  using assms by (rule emitted_iff)

theorem admission_filter_witness:
  "emitted [\<lparr>msg_id = 3, text_for_llm = ''From Bob (replying to '' @ [CHR 0x27] @ ''Ann: [Photo]'' @ [CHR 0x27] @ ''): nice'',
            timestamp_unix = 102, timestamp_utc = JStr []\<rparr>] 3 102 \<longleftrightarrow>
     ((100::int), (1::int)) < (102, 3)
     \<and> (\<exists>d. JObj d \<in> set (export_records (Some example_export))
            \<and> py_int example_builtins (get d ''id'') = Some 3
            \<and> py_int example_builtins (get d ''date_unixtime'') = Some 102
            \<and> get d ''type'' = JStr ''message'' \<and> has_content d)"
  by (rule admission_filter [OF load_example])

text \<open>
  C1 as it is stated fails on a Record that is not a message: the service Record of
  \<open>service_export\<close> lies above the cursor \<open>(0, 0)\<close> and is not emitted.
\<close>

theorem admission_filter_counterexample:
  "load_and_format_new_messages example_builtins (Some service_export) 0 0 = Inr ([], 5, 5)
   \<and> export_records (Some service_export)
       = [JObj [(''id'', JNum 5), (''type'', JStr ''service''), (''date_unixtime'', JStr ''10''),
                (''action'', JStr ''pin_message'')]]
   \<and> py_int example_builtins (JNum 5) = Some 5 \<and> py_int example_builtins (JStr ''10'') = Some 10
   \<and> \<not> (emitted [] 5 10 \<longleftrightarrow> ((0::int), (0::int)) < (10, 5))"
  by (simp add: load_and_format_new_messages_def service_export_def get_default_def get_def
      example_builtins_def digit_value_def new_message_def export_records_def emitted_def Let_def
      write_back_def)


section \<open>Replies to a message without text\<close>

lemma scan_messages_lookup_keeps:
  "scan_messages P items valid0 lookup0 = Inr (valid, lookup) \<Longrightarrow> lookup0 k \<noteq> None \<Longrightarrow> lookup k \<noteq> None"
proof (induction P items valid0 lookup0 rule: scan_messages.induct)
  case (2 P d rest valid0 lookup0)
  then show ?case
    by (cases "py_int P (get d ''id'')"; cases "py_int P (get d ''date_unixtime'')")
       (auto simp: Let_def split: if_splits)
qed simp_all

lemma scan_messages_lookup_dom:
  "scan_messages P items valid0 lookup0 = Inr (valid, lookup) \<Longrightarrow>
   JObj d \<in> set items \<Longrightarrow> py_int P (get d ''id'') = Some k \<Longrightarrow>
   py_int P (get d ''date_unixtime'') = Some t \<Longrightarrow> get d ''type'' = JStr ''message'' \<Longrightarrow>
   lookup k \<noteq> None"
proof (induction P items valid0 lookup0 rule: scan_messages.induct)
  case (2 P d0 rest valid0 lookup0)
  show ?case
  proof (cases "d = d0")
    case True
    with 2 have "scan_messages P rest
        (valid0 @ [\<lparr>id_int = k, date_unixtime = t, msg_data = write_back d k t\<rparr>])
        (lookup0(k \<mapsto> write_back d k t)) = Inr (valid, lookup)"
      by (simp add: Let_def type_set_item)
    from scan_messages_lookup_keeps [OF this, of k] show ?thesis by simp
  next
    case False
    with 2 show ?thesis
      by (cases "py_int P (get d0 ''id'')"; cases "py_int P (get d0 ''date_unixtime'')")
         (auto simp: Let_def split: if_splits)
  qed
qed simp_all

lemma scan_messages_lookup:
  "scan_messages P items valid0 lookup0 = Inr (valid, lookup) \<Longrightarrow> lookup k = Some d' \<Longrightarrow>
   lookup0 k = Some d' \<or>
   (\<exists>d t. JObj d \<in> set items \<and> py_int P (get d ''id'') = Some k
      \<and> py_int P (get d ''date_unixtime'') = Some t \<and> get d ''type'' = JStr ''message''
      \<and> d' = write_back d k t)"
proof (induction items arbitrary: valid0 lookup0)
  case Nil
  then show ?case by simp
next
  case (Cons x rest)
  show ?case
  proof (cases x)
    case (JObj d)
    show ?thesis
    proof (cases "py_int P (get d ''id'')")
      case None
      with Cons.prems JObj have "scan_messages P rest valid0 lookup0 = Inr (valid, lookup)"
        by simp
      from Cons.IH [OF this Cons.prems(2)] show ?thesis by auto
    next
      case (Some i)
      note i = this
      show ?thesis
      proof (cases "py_int P (get d ''date_unixtime'')")
        case None
        with Cons.prems JObj i have "scan_messages P rest valid0 lookup0 = Inr (valid, lookup)"
          by simp
        from Cons.IH [OF this Cons.prems(2)] show ?thesis by auto
      next
        case (Some t)
        let ?m = "\<lparr>id_int = i, date_unixtime = t, msg_data = write_back d i t\<rparr>"
        let ?lk = "if get d ''type'' = JStr ''message'' then lookup0(i \<mapsto> write_back d i t) else lookup0"
        from Cons.prems JObj i Some
        have "scan_messages P rest (valid0 @ [?m]) ?lk = Inr (valid, lookup)"
          by (simp add: Let_def type_set_item)
        from Cons.IH [OF this Cons.prems(2)]
        have "?lk k = Some d' \<or>
          (\<exists>d t. JObj d \<in> set rest \<and> py_int P (get d ''id'') = Some k
            \<and> py_int P (get d ''date_unixtime'') = Some t \<and> get d ''type'' = JStr ''message''
            \<and> d' = write_back d k t)" .
        then show ?thesis
        proof
          assume "?lk k = Some d'"
          then have "lookup0 k = Some d' \<or>
            (get d ''type'' = JStr ''message'' \<and> k = i \<and> d' = write_back d i t)"
            by (auto split: if_splits)
          with JObj i Some show ?thesis by auto
        next
          assume "\<exists>d t. JObj d \<in> set rest \<and> py_int P (get d ''id'') = Some k
            \<and> py_int P (get d ''date_unixtime'') = Some t \<and> get d ''type'' = JStr ''message''
            \<and> d' = write_back d k t"
          then show ?thesis by auto
        qed
      qed
    qed
  qed (use Cons.prems in simp_all)
qed

text \<open>What the function went through when it returns and the export holds a Record
  whose two numbers can be read.\<close>

lemma load_and_format_new_messages_steps:
  assumes "load_and_format_new_messages P export_file last_id last_ts = Inr (out, a, b)"
    and "JObj d \<in> set (export_records export_file)"
    and "py_int P (get d ''id'') = Some i" and "py_int P (get d ''date_unixtime'') = Some t"
  shows "\<exists>valid lookup.
    scan_messages P (export_records export_file) [] Map.empty = Inr (valid, lookup)
    \<and> format_new P lookup last_id last_ts (sort_key (\<lambda>m. (date_unixtime m, id_int m)) valid) = Inr out"
proof -
  from assms(2) obtain data where fl: "export_file = Some (JObj data)"
    by (auto simp: export_records_def split: option.splits json.splits)
  let ?all = "get_default data ''messages'' (JArr [])"
  have t: "truthy ?all"
  proof (rule ccontr)
    assume "\<not> truthy ?all"
    from export_records_falsy [OF this] assms(2) fl show False by simp
  qed
  with assms(1) fl obtain items where items: "iterate ?all = Inr items"
    by (auto simp: load_and_format_new_messages_def split: sum.splits)
  then have recs: "export_records export_file = items"
    using fl by (simp add: export_records_def)
  from assms(1) fl t items obtain valid lookup
    where scan: "scan_messages P items [] Map.empty = Inr (valid, lookup)"
    by (auto simp: load_and_format_new_messages_def split: sum.splits)
  from scan_messages_set [OF scan] assms(2-4) recs have "valid \<noteq> []" by auto
  with assms(1) fl t items scan
  have "format_new P lookup last_id last_ts (sort_key (\<lambda>m. (date_unixtime m, id_int m)) valid) = Inr out"
    by (auto simp: load_and_format_new_messages_def Let_def split: sum.splits)
  with scan recs show ?thesis by auto
qed

lemma new_message_reply_to_photo:
  assumes "(last_ts, last_id) < (date_unixtime m, id_int m)"
    and "get (msg_data m) ''type'' = JStr ''message''"
    and "parse_telegram_message_text (get_default (msg_data m) ''text'' (JStr [])) = Inr c"
    and "lookup_reply lookup (get (msg_data m) ''reply_to_message_id'') = Inr (Some original_msg)"
    and "parse_telegram_message_text (get_default original_msg ''text'' (JStr [])) = Inr []"
    and "\<not> truthy (get original_msg ''file'')" and "truthy (get original_msg ''photo'')"
  shows "new_message P lookup last_id last_ts m =
    Inr (map_option
      (\<lambda>t. \<lparr>msg_id = id_int m, text_for_llm = t, timestamp_unix = date_unixtime m,
            timestamp_utc = get_default (msg_data m) ''date'' (JStr [])\<rparr>)
      (final_text_for_llm P (msg_data m)
         (''From '' @ sender_name P (msg_data m) ''Unknown Sender'' @ '' (replying to '' @ [CHR 0x27]
          @ sender_name P original_msg ''Original Sender'' @ '': [Photo]'' @ [CHR 0x27] @ ''):'') c))"
  using assms
  by (auto simp: new_message_def llm_text_prefix_def attachment_placeholder_def reply_snippet_def)

lemma final_text_for_llm_write_back:
  "final_text_for_llm P (write_back d i t) prefix c = final_text_for_llm P d prefix c"
  by (simp add: final_text_for_llm_def get_write_back get_default_write_back)

lemma final_text_for_llm_Some:
  "has_content d \<Longrightarrow> parse_telegram_message_text (get_default d ''text'' (JStr [])) = Inr c \<Longrightarrow>
   \<exists>line. final_text_for_llm P d prefix c = Some line"
  by (auto simp: has_content_def final_text_for_llm_def)

lemma final_text_for_llm_text:
  "c \<noteq> [] \<Longrightarrow> final_text_for_llm P d prefix c = Some (prefix @ '' '' @ c)"
  by (simp add: final_text_for_llm_def)

text \<open>
  C9, as amended. A Record of type \<^verbatim>\<open>message\<close> above the cursor, with content, replies
  (with a non-zero \<^verbatim>\<open>reply_to_message_id\<close>) to the message Record of the export that has
  this identifier. If the text of that Record is blank and it carries a photo flag and no
  file flag, then the line rendered for the reply quotes \<^verbatim>\<open>[Photo]\<close>: it is
  \<^verbatim>\<open>From <sender> (replying to '<original sender>: [Photo]'):\<close> followed by the content,
  which is a blank and the text when the reply has a text.
\<close>

theorem reply_to_photo:
  assumes "load_and_format_new_messages P export_file last_id last_ts = Inr (out, a, b)"
    and "JObj r \<in> set (export_records export_file)"
    and "py_int P (get r ''id'') = Some i" and "py_int P (get r ''date_unixtime'') = Some t"
    and "get r ''type'' = JStr ''message''" and "(last_ts, last_id) < (t, i)"
    and "parse_telegram_message_text (get_default r ''text'' (JStr [])) = Inr c"
    and "has_content r"
    and "get r ''reply_to_message_id'' = JNum k" and "k \<noteq> 0"
    and "JObj original \<in> set (export_records export_file)"
    and "py_int P (get original ''id'') = Some k"
    and "py_int P (get original ''date_unixtime'') = Some t0"
    and "get original ''type'' = JStr ''message''"
    and "\<forall>d. JObj d \<in> set (export_records export_file) \<and> py_int P (get d ''id'') = Some k
           \<and> get d ''type'' = JStr ''message'' \<longrightarrow> d = original"
    and "parse_telegram_message_text (get_default original ''text'' (JStr [])) = Inr []"
    and "truthy (get original ''photo'')" and "\<not> truthy (get original ''file'')"
  shows "\<exists>f \<in> set out. msg_id f = i \<and> timestamp_unix f = t
    \<and> Some (text_for_llm f) = final_text_for_llm P r
         (''From '' @ sender_name P r ''Unknown Sender'' @ '' (replying to '' @ [CHR 0x27]
           @ sender_name P original ''Original Sender'' @ '': [Photo]'' @ [CHR 0x27] @ ''):'') c
    \<and> (c \<noteq> [] \<longrightarrow> text_for_llm f =
         (''From '' @ sender_name P r ''Unknown Sender'' @ '' (replying to '' @ [CHR 0x27]
           @ sender_name P original ''Original Sender'' @ '': [Photo]'' @ [CHR 0x27] @ ''):'')
         @ '' '' @ c)"
proof -
  define pfx where "pfx = ''From '' @ sender_name P r ''Unknown Sender'' @ '' (replying to '' @ [CHR 0x27]
           @ sender_name P original ''Original Sender'' @ '': [Photo]'' @ [CHR 0x27] @ ''):''"
  let ?recs = "export_records export_file"
  from load_and_format_new_messages_steps [OF assms(1-4)] obtain valid lookup
    where scan: "scan_messages P ?recs [] Map.empty = Inr (valid, lookup)"
      and fmt: "format_new P lookup last_id last_ts (sort_key (\<lambda>m. (date_unixtime m, id_int m)) valid) = Inr out"
    by blast
  note fs = format_new_set [OF fmt, unfolded set_sort]
  define m where "m = \<lparr>id_int = i, date_unixtime = t, msg_data = write_back r i t\<rparr>"
  have mv: "m \<in> set valid"
    using scan_messages_set [OF scan] assms(2-4) by (auto simp: m_def)
  from scan_messages_lookup_dom [OF scan assms(11-14)] obtain d'
    where d': "lookup k = Some d'" by auto
  from scan_messages_lookup [OF scan d'] obtain d t1
    where d: "JObj d \<in> set ?recs" "py_int P (get d ''id'') = Some k"
      "py_int P (get d ''date_unixtime'') = Some t1" "get d ''type'' = JStr ''message''"
      "d' = write_back d k t1"
    by auto
  from d(1,2,4) assms(15) have "d = original" by blast
  with d(5) d' have lk: "lookup k = Some (write_back original k t1)" by simp
  have reply: "lookup_reply lookup (get (msg_data m) ''reply_to_message_id'')
      = Inr (Some (write_back original k t1))"
    using assms(9,10) lk by (simp add: m_def get_write_back lookup_reply_def)
  have nm: "new_message P lookup last_id last_ts m =
    Inr (map_option
      (\<lambda>x. \<lparr>msg_id = id_int m, text_for_llm = x, timestamp_unix = date_unixtime m,
            timestamp_utc = get_default (msg_data m) ''date'' (JStr [])\<rparr>)
      (final_text_for_llm P (msg_data m)
         (''From '' @ sender_name P (msg_data m) ''Unknown Sender'' @ '' (replying to '' @ [CHR 0x27]
          @ sender_name P (write_back original k t1) ''Original Sender'' @ '': [Photo]''
          @ [CHR 0x27] @ ''):'') c))"
  proof (rule new_message_reply_to_photo [OF _ _ _ reply])
    show "(last_ts, last_id) < (date_unixtime m, id_int m)"
      using assms(6) by (simp add: m_def)
    show "get (msg_data m) ''type'' = JStr ''message''"
      using assms(5) by (simp add: m_def get_write_back)
    show "parse_telegram_message_text (get_default (msg_data m) ''text'' (JStr [])) = Inr c"
      using assms(7) by (simp add: m_def get_default_write_back)
    show "parse_telegram_message_text (get_default (write_back original k t1) ''text'' (JStr [])) = Inr []"
      using assms(16) by (simp add: get_default_write_back)
    show "\<not> truthy (get (write_back original k t1) ''file'')"
      using assms(18) by (simp add: get_write_back)
    show "truthy (get (write_back original k t1) ''photo'')"
      using assms(17) by (simp add: get_write_back)
  qed
  have ft: "final_text_for_llm P (msg_data m)
         (''From '' @ sender_name P (msg_data m) ''Unknown Sender'' @ '' (replying to '' @ [CHR 0x27]
          @ sender_name P (write_back original k t1) ''Original Sender'' @ '': [Photo]''
          @ [CHR 0x27] @ ''):'') c = final_text_for_llm P r pfx c"
    unfolding pfx_def by (simp only: m_def valid_message.simps final_text_for_llm_write_back sender_name_write_back)
  from final_text_for_llm_Some [OF assms(8,7)] obtain line
    where line: "final_text_for_llm P r pfx c = Some line" by blast
  define f where "f = \<lparr>msg_id = i, text_for_llm = line, timestamp_unix = t,
      timestamp_utc = get_default (msg_data m) ''date'' (JStr [])\<rparr>"
  have "new_message P lookup last_id last_ts m = Inr (Some f)"
    unfolding nm ft line by (simp add: f_def m_def)
  with mv fs have "f \<in> set out" by blast
  moreover have "msg_id f = i" "timestamp_unix f = t" "Some (text_for_llm f) = final_text_for_llm P r pfx c"
    by (simp_all add: f_def line)
  moreover have "c \<noteq> [] \<longrightarrow> text_for_llm f = pfx @ '' '' @ c"
    using line final_text_for_llm_text [of c P r pfx] by (auto simp: f_def)
  ultimately have "\<exists>f \<in> set out. msg_id f = i \<and> timestamp_unix f = t
    \<and> Some (text_for_llm f) = final_text_for_llm P r pfx c
    \<and> (c \<noteq> [] \<longrightarrow> text_for_llm f = pfx @ '' '' @ c)"
    by blast
  then show ?thesis unfolding pfx_def .
qed

theorem reply_to_photo_witness:
  "\<exists>f \<in> set [\<lparr>msg_id = 3, text_for_llm = ''From Bob (replying to '' @ [CHR 0x27] @ ''Ann: [Photo]'' @ [CHR 0x27] @ ''): nice'',
            timestamp_unix = 102, timestamp_utc = JStr []\<rparr>].
     msg_id f = 3 \<and> timestamp_unix f = 102
     \<and> text_for_llm f = ''From Bob (replying to '' @ [CHR 0x27] @ ''Ann: [Photo]'' @ [CHR 0x27] @ ''): nice''"
proof -
  let ?r = "[(''id'', JNum 3), (''type'', JStr ''message''), (''date_unixtime'', JStr ''102''),
            (''from'', JStr ''Bob''), (''text'', JStr ''nice''), (''reply_to_message_id'', JNum 1)]"
  let ?o = "[(''id'', JNum 1), (''type'', JStr ''message''), (''date_unixtime'', JStr ''100''),
            (''from'', JStr ''Ann''), (''text'', JStr []), (''photo'', JStr ''p.jpg'')]"
  have recs: "export_records (Some example_export) = [JObj ?o,
      JObj [(''id'', JNum 2), (''type'', JStr ''service''), (''date_unixtime'', JStr ''101'')], JObj ?r]"
    by (simp add: export_records_def example_export_def get_default_def)
  have "\<exists>f \<in> set [\<lparr>msg_id = 3, text_for_llm = ''From Bob (replying to '' @ [CHR 0x27] @ ''Ann: [Photo]'' @ [CHR 0x27] @ ''): nice'',
            timestamp_unix = 102, timestamp_utc = JStr []\<rparr>].
     msg_id f = 3 \<and> timestamp_unix f = 102
    \<and> Some (text_for_llm f) = final_text_for_llm example_builtins ?r
         (''From '' @ sender_name example_builtins ?r ''Unknown Sender'' @ '' (replying to '' @ [CHR 0x27]
           @ sender_name example_builtins ?o ''Original Sender'' @ '': [Photo]'' @ [CHR 0x27] @ ''):'') ''nice''
    \<and> (''nice'' \<noteq> [] \<longrightarrow> text_for_llm f =
         (''From '' @ sender_name example_builtins ?r ''Unknown Sender'' @ '' (replying to '' @ [CHR 0x27]
           @ sender_name example_builtins ?o ''Original Sender'' @ '': [Photo]'' @ [CHR 0x27] @ ''):'')
         @ '' '' @ ''nice'')"
    by (rule reply_to_photo [OF load_example, where k = 1 and ?t0.0 = 100])
       (auto simp: recs get_def get_default_def example_builtins_def digit_value_def
          has_content_def strip_def is_space_def)
  then show ?thesis
    by (simp add: sender_name_def get_default_def py_or_def)
qed

text \<open>
  C9 as it is stated fails when the replied-to Record carries a file flag next to the photo
  flag: the file is tested first, and the reply quotes \<^verbatim>\<open>[File: attachment]\<close>.
\<close>

theorem reply_to_photo_counterexample:
  "load_and_format_new_messages example_builtins (Some file_and_photo_export) 1 100
   = Inr ([\<lparr>msg_id = 3, text_for_llm = ''From Bob (replying to '' @ [CHR 0x27] @ ''Ann: [File: attachment]'' @ [CHR 0x27] @ ''): nice'',
            timestamp_unix = 102, timestamp_utc = JStr []\<rparr>], 1, 3)
   \<and> export_records (Some file_and_photo_export) ! 0
       = JObj [(''id'', JNum 1), (''type'', JStr ''message''), (''date_unixtime'', JStr ''100''),
            (''from'', JStr ''Ann''), (''text'', JStr []), (''file'', JStr ''f.pdf''),
            (''photo'', JStr ''p.jpg'')]
   \<and> parse_telegram_message_text (JStr []) = Inr [] \<and> truthy (JStr ''p.jpg'')
   \<and> ''From Bob (replying to '' @ [CHR 0x27] @ ''Ann: [File: attachment]'' @ [CHR 0x27] @ ''): nice''
       \<noteq> ''From Bob (replying to '' @ [CHR 0x27] @ ''Ann: [Photo]'' @ [CHR 0x27] @ ''): nice''"
  by (simp add: load_and_format_new_messages_def file_and_photo_export_def get_default_def get_def
      example_builtins_def digit_value_def new_message_def llm_text_prefix_def lookup_reply_def
      sender_name_def py_or_def final_text_for_llm_def attachment_placeholder_def
      reply_snippet_def strip_def is_space_def Let_def write_back_def export_records_def)


section \<open>Well-formed exports\<close>

lemma well_formed_write_back: "well_formed_message (write_back d i t) = well_formed_message d"
  by (simp add: well_formed_message_def get_write_back get_default_write_back)

lemma scan_messages_returns:
  "list_all well_formed_record items \<Longrightarrow> \<exists>valid lookup. scan_messages P items valid0 lookup0 = Inr (valid, lookup)"
proof (induction items arbitrary: valid0 lookup0)
  case Nil
  then show ?case by simp
next
  case (Cons x items)
  then obtain d where x: "x = JObj d"
    by (cases x) (simp_all add: well_formed_record_def)
  from Cons have "\<exists>valid lookup. scan_messages P items v l = Inr (valid, lookup)" for v l
    by simp
  then show ?case
    unfolding x
    by (cases "py_int P (get d ''id'')"; cases "py_int P (get d ''date_unixtime'')")
       (simp_all add: Let_def)
qed

lemma new_message_returns:
  assumes "well_formed_message (msg_data m)"
    and "\<forall>k original. lookup k = Some original \<longrightarrow> well_formed_message original"
  shows "\<exists>res. new_message P lookup last_id last_ts m = Inr res"
proof -
  from assms(1) obtain c where c: "parse_telegram_message_text (get_default (msg_data m) ''text'' (JStr [])) = Inr c"
    by (auto simp: well_formed_message_def split: sum.splits)
  from assms(1) obtain k where k: "dict_key (get (msg_data m) ''reply_to_message_id'') = Inr k"
    by (auto simp: well_formed_message_def split: sum.splits)
  have "\<exists>p. llm_text_prefix P lookup (msg_data m) = Inr p"
  proof (cases "lookup_reply lookup (get (msg_data m) ''reply_to_message_id'')")
    case (Inl e)
    with k show ?thesis by (simp add: lookup_reply_def split: if_splits option.splits)
  next
    case (Inr found)
    show ?thesis
    proof (cases found)
      case None
      with Inr show ?thesis by (simp add: llm_text_prefix_def Let_def)
    next
      case (Some original)
      with Inr have "\<exists>j. lookup j = Some original"
        by (auto simp: lookup_reply_def split: if_splits sum.splits option.splits)
      with assms(2) have "well_formed_message original" by blast
      then obtain t where "parse_telegram_message_text (get_default original ''text'' (JStr [])) = Inr t"
        by (auto simp: well_formed_message_def split: sum.splits)
      with Inr Some show ?thesis by (simp add: llm_text_prefix_def Let_def)
    qed
  qed
  with c show ?thesis by (auto simp: new_message_def)
qed

lemma format_new_returns:
  "\<forall>m \<in> set ms. \<exists>res. new_message P lookup last_id last_ts m = Inr res \<Longrightarrow>
   \<exists>out. format_new P lookup last_id last_ts ms = Inr out"
  by (induction ms) (auto split: option.splits)

text \<open>On a well-formed export the function raises nothing and returns.\<close>

lemma load_and_format_new_messages_returns:
  assumes "well_formed_export export_file"
  shows "\<exists>out first_id last_id_in_file.
    load_and_format_new_messages P export_file last_id last_ts = Inr (out, first_id, last_id_in_file)"
proof (cases export_file)
  case None
  then show ?thesis by (simp add: load_and_format_new_messages_def)
next
  case (Some top)
  with assms obtain data items where top: "top = JObj data"
    and items: "get_default data ''messages'' (JArr []) = JArr items"
    and wf: "list_all well_formed_record items"
    by (auto simp: well_formed_export_def split: json.splits)
  from scan_messages_returns [OF wf] obtain valid lookup
    where scan: "scan_messages P items [] Map.empty = Inr (valid, lookup)" by blast
  have v: "well_formed_message (msg_data m)" if "m \<in> set valid" for m
  proof -
    from that scan_messages_set [OF scan] obtain d i t where "JObj d \<in> set items" "m = \<lparr>id_int = i, date_unixtime = t, msg_data = write_back d i t\<rparr>"
      by auto
    with wf show ?thesis
      by (auto simp: list_all_iff well_formed_record_def well_formed_write_back)
  qed
  have l: "well_formed_message original" if "lookup k = Some original" for k original
  proof -
    from scan_messages_lookup [OF scan that] obtain d t where "JObj d \<in> set items" "original = write_back d k t"
      by auto
    with wf show ?thesis
      by (auto simp: list_all_iff well_formed_record_def well_formed_write_back)
  qed
  have "\<forall>m \<in> set (sort_key (\<lambda>m. (date_unixtime m, id_int m)) valid).
      \<exists>res. new_message P lookup last_id last_ts m = Inr res"
    using v l new_message_returns by simp
  from format_new_returns [OF this] obtain out
    where "format_new P lookup last_id last_ts (sort_key (\<lambda>m. (date_unixtime m, id_int m)) valid) = Inr out"
    by blast
  with Some top items scan show ?thesis
    by (simp add: load_and_format_new_messages_def Let_def)
qed


section \<open>Properties of the adapter\<close>

lemma backoff_bounds:
  "min (INITIAL_BACKOFF_SECONDS * 2 ^ (a - 1)) MAX_BACKOFF_SECONDS \<le> backoff a byte
   \<and> backoff a byte \<le> 1.2 * min (INITIAL_BACKOFF_SECONDS * 2 ^ (a - 1)) MAX_BACKOFF_SECONDS"
proof -
  let ?m = "min (INITIAL_BACKOFF_SECONDS * 2 ^ (a - 1)) MAX_BACKOFF_SECONDS"
  define n where "n = unat byte"
  have eq: "backoff a byte = ?m * (1 + real n / 255 * 0.2)"
    unfolding backoff_def n_def ..
  have m: "0 < ?m"
    by (simp add: INITIAL_BACKOFF_SECONDS_def MAX_BACKOFF_SECONDS_def)
  have "unat byte < 2 ^ 8" using unsigned_less [of byte] by simp
  then have "n \<le> 255" by (simp add: n_def)
  then have b: "real n \<le> 255" by simp
  have f: "1 \<le> 1 + real n / 255 * 0.2" "1 + real n / 255 * 0.2 \<le> 1.2"
    using b by simp_all
  have "?m * 1 \<le> ?m * (1 + real n / 255 * 0.2)"
    using m f(1) by (intro mult_left_mono) simp_all
  moreover have "?m * (1 + real n / 255 * 0.2) \<le> ?m * 1.2"
    using m f(2) by (intro mult_left_mono) simp_all
  ultimately show ?thesis unfolding eq by (simp add: mult.commute)
qed

lemma is_error_marker_error_prefix: "is_error_marker (error_prefix code msg)"
  by (simp add: is_error_marker_def error_prefix_def startswith_def)

lemma is_error_marker_unexpected: "is_error_marker (''UNEXPECTED_ANTHROPIC_API_ERROR: '' @ text)"
  by (simp add: is_error_marker_def startswith_def)

lemma call_anthropic_api_retry:
  assumes "respond E tr \<lparr>system = sp, messages_content = uc, max_tokens = mt\<rparr> = APIError code msg"
    and "retriable code" and "a < MAX_API_RETRIES"
  shows "call_anthropic_api E tr sp uc mt a =
    call_anthropic_api E
      (tr @ [ApiCall \<lparr>system = sp, messages_content = uc, max_tokens = mt\<rparr>,
             Sleep (backoff a (urandom E (tr @ [ApiCall \<lparr>system = sp, messages_content = uc, max_tokens = mt\<rparr>])))])
      sp uc mt (a + 1)"
  using assms by (simp add: call_anthropic_api.simps [of E tr sp uc mt a] Let_def)

text \<open>The events of one call of the adapter: never more requests than attempts left.\<close>

lemma call_anthropic_api_events:
  "\<exists>evs. snd (call_anthropic_api E tr sp uc mt a) = tr @ evs
     \<and> 1 \<le> length (filter is_api_call evs)
     \<and> length (filter is_api_call evs) \<le> MAX_API_RETRIES - a + 1"
proof (induction E tr sp uc mt a rule: call_anthropic_api.induct)
  case (1 E tr sp uc mt a)
  let ?req = "\<lparr>system = sp, messages_content = uc, max_tokens = mt\<rparr>"
  show ?case
  proof (cases "respond E tr ?req")
    case (Response resp)
    then show ?thesis
      by (simp add: call_anthropic_api.simps [of E tr sp uc mt a] Let_def is_api_call_def)
  next
    case (OtherException exn)
    then show ?thesis
      by (simp add: call_anthropic_api.simps [of E tr sp uc mt a] Let_def is_api_call_def)
  next
    case (APIError code msg)
    show ?thesis
    proof (cases "retriable code \<and> a < MAX_API_RETRIES")
      case False
      with APIError show ?thesis
        by (auto simp: call_anthropic_api.simps [of E tr sp uc mt a] Let_def is_api_call_def)
    next
      case True
      let ?tr2 = "tr @ [ApiCall ?req, Sleep (backoff a (urandom E (tr @ [ApiCall ?req])))]"
      from "1.IH" [OF refl refl APIError True]
      obtain evs where evs: "snd (call_anthropic_api E ?tr2 sp uc mt (a + 1)) = ?tr2 @ evs"
        "1 \<le> length (filter is_api_call evs)"
        "length (filter is_api_call evs) \<le> MAX_API_RETRIES - (a + 1) + 1"
        by auto
      from True have rc: "retriable code" and lt: "a < MAX_API_RETRIES" by simp_all
      have eq: "call_anthropic_api E tr sp uc mt a = call_anthropic_api E ?tr2 sp uc mt (a + 1)"
        by (rule call_anthropic_api_retry [OF APIError rc lt])
      let ?evs = "[ApiCall ?req, Sleep (backoff a (urandom E (tr @ [ApiCall ?req])))] @ evs"
      have "snd (call_anthropic_api E tr sp uc mt a) = tr @ ?evs"
        using eq evs(1) by simp
      moreover have "length (filter is_api_call ?evs) = 1 + length (filter is_api_call evs)"
        by (simp add: is_api_call_def)
      moreover have "1 + length (filter is_api_call evs) \<le> MAX_API_RETRIES - a + 1"
        using evs(3) lt by linarith
      ultimately show ?thesis by (intro exI [of _ ?evs]) simp
    qed
  qed
qed

text \<open>A service that fails every request in a retriable way uses up all attempts.\<close>

lemma call_anthropic_api_exhausted:
  "\<forall>tr'. \<exists>code msg. respond E tr' \<lparr>system = sp, messages_content = uc, max_tokens = mt\<rparr> = APIError code msg \<and> retriable code \<Longrightarrow>
   a \<le> MAX_API_RETRIES \<Longrightarrow> \<exists>code msg evs.
     call_anthropic_api E tr sp uc mt a = (error_prefix code msg, tr @ evs)
     \<and> length (filter is_api_call evs) = MAX_API_RETRIES - a + 1"
proof (induction E tr sp uc mt a rule: call_anthropic_api.induct)
  case (1 E tr sp uc mt a)
  let ?req = "\<lparr>system = sp, messages_content = uc, max_tokens = mt\<rparr>"
  from "1.prems"(1) obtain code msg where r: "respond E tr ?req = APIError code msg" "retriable code"
    by blast
  show ?case
  proof (cases "a < MAX_API_RETRIES")
    case False
    with r have "call_anthropic_api E tr sp uc mt a = (error_prefix code msg, tr @ [ApiCall ?req])"
      by (simp add: call_anthropic_api.simps [of E tr sp uc mt a] Let_def)
    moreover have "length (filter is_api_call [ApiCall ?req]) = MAX_API_RETRIES - a + 1"
      using False "1.prems"(2) by (simp add: is_api_call_def)
    ultimately show ?thesis by blast
  next
    case True
    let ?tr2 = "tr @ [ApiCall ?req, Sleep (backoff a (urandom E (tr @ [ApiCall ?req])))]"
    from True r have c: "retriable code \<and> a < MAX_API_RETRIES" by simp
    from True have "a + 1 \<le> MAX_API_RETRIES" by simp
    from "1.IH" [OF refl refl r(1) c "1.prems"(1) this]
    obtain code' msg' evs where evs:
      "call_anthropic_api E ?tr2 sp uc mt (a + 1) = (error_prefix code' msg', ?tr2 @ evs)"
      "length (filter is_api_call evs) = MAX_API_RETRIES - (a + 1) + 1"
      by auto
    have eq: "call_anthropic_api E tr sp uc mt a = call_anthropic_api E ?tr2 sp uc mt (a + 1)"
      by (rule call_anthropic_api_retry [OF r True])
    let ?evs = "[ApiCall ?req, Sleep (backoff a (urandom E (tr @ [ApiCall ?req])))] @ evs"
    have "call_anthropic_api E tr sp uc mt a = (error_prefix code' msg', tr @ ?evs)"
      using eq evs(1) by simp
    moreover have "length (filter is_api_call ?evs) = 1 + length (filter is_api_call evs)"
      by (simp add: is_api_call_def)
    then have "length (filter is_api_call ?evs) = MAX_API_RETRIES - a + 1"
      using evs(2) True by linarith
    ultimately show ?thesis by blast
  qed
qed

text \<open>A service that fails every request in a retriable way gets an error-marker.\<close>

lemma all_failures_marker:
  assumes "\<forall>tr'. \<exists>code msg. respond E tr'
      \<lparr>system = sp, messages_content = uc, max_tokens = mt\<rparr> = APIError code msg \<and> retriable code"
  shows "is_error_marker (fst (call_anthropic_api E tr sp uc mt 1))"
proof -
  have "(1::nat) \<le> MAX_API_RETRIES" by (simp add: MAX_API_RETRIES_def)
  with assms obtain code msg evs
    where "call_anthropic_api E tr sp uc mt 1 = (error_prefix code msg, tr @ evs)"
    using call_anthropic_api_exhausted [of E sp uc mt 1 tr]
    by blast
  then show ?thesis by (simp add: is_error_marker_error_prefix)
qed

text \<open>
  The cap is never reached: only the attempts below the maximum sleep, and the base delay
  doubled at most three times is 40 seconds.
\<close>

lemma cap_not_reached:
  "a < MAX_API_RETRIES \<Longrightarrow>
   min (INITIAL_BACKOFF_SECONDS * 2 ^ (a - 1)) MAX_BACKOFF_SECONDS = INITIAL_BACKOFF_SECONDS * 2 ^ (a - 1)"
proof -
  assume "a < MAX_API_RETRIES"
  then have "a - 1 \<le> 3" by (simp add: MAX_API_RETRIES_def)
  then have "(2::real) ^ (a - 1) \<le> 2 ^ 3" by (intro power_increasing) simp_all
  then show ?thesis by (simp add: INITIAL_BACKOFF_SECONDS_def MAX_BACKOFF_SECONDS_def)
qed

lemma backoff_zero: "backoff a 0 = min (INITIAL_BACKOFF_SECONDS * 2 ^ (a - 1)) MAX_BACKOFF_SECONDS"
  by (simp add: backoff_def)

text \<open>
  C7, as amended. A failure with status 429 or 529, with any status from 500 to 599, or
  without a status (a timeout) is retriable. After a retriable failure at attempt \<open>a\<close>, below
  the maximum, the adapter sleeps once and tries again as attempt \<open>a + 1\<close>. The delay is
  the base delay doubled \<open>a - 1\<close> times and capped at the maximum delay, multiplied by
  \<open>1 + byte / 255 * 0.2\<close>, where \<open>byte\<close>, from 0 to 255, is the random byte drawn after the
  failed request: the jitter only lengthens the delay, by nothing up to 20 percent, so the
  delay lies between 1.0 and 1.2 times the capped delay (and so within 0.8 and 1.2 times
  it). With the constants of the script the cap does not come into play. One call of the
  adapter sends at most \<^verbatim>\<open>MAX_API_RETRIES\<close> requests. If every request fails in a retriable
  way, it sends exactly that many and returns an error-marker; being a total function, it
  returns a string in every case.
\<close>

theorem retry_policy:
  "(retriable (Some 429) \<and> retriable (Some 529) \<and> retriable None
      \<and> (\<forall>c. 500 \<le> c \<and> c \<le> 599 \<longrightarrow> retriable (Some c)))
   \<and> (\<forall>a code msg. 1 \<le> a \<and> a < MAX_API_RETRIES
         \<and> respond E tr \<lparr>system = sp, messages_content = uc, max_tokens = mt\<rparr> = APIError code msg
         \<and> retriable code \<longrightarrow>
         (\<exists>d. call_anthropic_api E tr sp uc mt a =
              call_anthropic_api E
                (tr @ [ApiCall \<lparr>system = sp, messages_content = uc, max_tokens = mt\<rparr>, Sleep d])
                sp uc mt (a + 1)
            \<and> d = min (INITIAL_BACKOFF_SECONDS * 2 ^ (a - 1)) MAX_BACKOFF_SECONDS
                  * (1 + real (unat (urandom E
                       (tr @ [ApiCall \<lparr>system = sp, messages_content = uc, max_tokens = mt\<rparr>]))) / 255 * 0.2)
            \<and> unat (urandom E (tr @ [ApiCall \<lparr>system = sp, messages_content = uc, max_tokens = mt\<rparr>])) \<le> 255
            \<and> min (INITIAL_BACKOFF_SECONDS * 2 ^ (a - 1)) MAX_BACKOFF_SECONDS \<le> d
            \<and> d \<le> 1.2 * min (INITIAL_BACKOFF_SECONDS * 2 ^ (a - 1)) MAX_BACKOFF_SECONDS
            \<and> 0.8 * min (INITIAL_BACKOFF_SECONDS * 2 ^ (a - 1)) MAX_BACKOFF_SECONDS \<le> d
            \<and> min (INITIAL_BACKOFF_SECONDS * 2 ^ (a - 1)) MAX_BACKOFF_SECONDS
                = INITIAL_BACKOFF_SECONDS * 2 ^ (a - 1)))
   \<and> (\<exists>evs. snd (call_anthropic_api E tr sp uc mt 1) = tr @ evs
         \<and> length (filter is_api_call evs) \<le> MAX_API_RETRIES)
   \<and> ((\<forall>tr'. \<exists>code msg.
           respond E tr' \<lparr>system = sp, messages_content = uc, max_tokens = mt\<rparr> = APIError code msg
           \<and> retriable code) \<longrightarrow>
        is_error_marker (fst (call_anthropic_api E tr sp uc mt 1))
        \<and> (\<exists>evs. snd (call_anthropic_api E tr sp uc mt 1) = tr @ evs
              \<and> length (filter is_api_call evs) = MAX_API_RETRIES))"
proof -
  let ?req = "\<lparr>system = sp, messages_content = uc, max_tokens = mt\<rparr>"
  have p1: "retriable (Some 429) \<and> retriable (Some 529) \<and> retriable None
      \<and> (\<forall>c. 500 \<le> c \<and> c \<le> 599 \<longrightarrow> retriable (Some c))"
    by (simp add: retriable_def)
  have p2: "\<exists>d. call_anthropic_api E tr sp uc mt a =
              call_anthropic_api E (tr @ [ApiCall ?req, Sleep d]) sp uc mt (a + 1)
            \<and> d = min (INITIAL_BACKOFF_SECONDS * 2 ^ (a - 1)) MAX_BACKOFF_SECONDS
                  * (1 + real (unat (urandom E (tr @ [ApiCall ?req]))) / 255 * 0.2)
            \<and> unat (urandom E (tr @ [ApiCall ?req])) \<le> 255
            \<and> min (INITIAL_BACKOFF_SECONDS * 2 ^ (a - 1)) MAX_BACKOFF_SECONDS \<le> d
            \<and> d \<le> 1.2 * min (INITIAL_BACKOFF_SECONDS * 2 ^ (a - 1)) MAX_BACKOFF_SECONDS
            \<and> 0.8 * min (INITIAL_BACKOFF_SECONDS * 2 ^ (a - 1)) MAX_BACKOFF_SECONDS \<le> d
            \<and> min (INITIAL_BACKOFF_SECONDS * 2 ^ (a - 1)) MAX_BACKOFF_SECONDS
                = INITIAL_BACKOFF_SECONDS * 2 ^ (a - 1)"
    if "1 \<le> a" "a < MAX_API_RETRIES" "respond E tr ?req = APIError code msg" "retriable code"
    for a code msg
  proof -
    define m where "m = min (INITIAL_BACKOFF_SECONDS * 2 ^ (a - 1)) MAX_BACKOFF_SECONDS"
    define byte where "byte = urandom E (tr @ [ApiCall ?req])"
    define n where "n = unat byte"
    let ?d = "backoff a byte"
    have d: "?d = m * (1 + real n / 255 * 0.2)"
      unfolding backoff_def m_def n_def ..
    have "unat byte < 2 ^ 8" using unsigned_less [of byte] by simp
    then have n: "n \<le> 255" by (simp add: n_def)
    have "0 < m" by (simp add: m_def INITIAL_BACKOFF_SECONDS_def MAX_BACKOFF_SECONDS_def)
    moreover have "m \<le> ?d" "?d \<le> 1.2 * m"
      using backoff_bounds [of a byte] by (simp_all only: m_def)
    ultimately have b: "m \<le> ?d \<and> ?d \<le> 1.2 * m \<and> 0.8 * m \<le> ?d" by linarith
    have c: "m = INITIAL_BACKOFF_SECONDS * 2 ^ (a - 1)"
      unfolding m_def by (rule cap_not_reached [OF that(2)])
    have "call_anthropic_api E tr sp uc mt a =
        call_anthropic_api E (tr @ [ApiCall ?req, Sleep ?d]) sp uc mt (a + 1)"
      unfolding byte_def by (rule call_anthropic_api_retry [OF that(3,4,2)])
    with d n b c show ?thesis unfolding m_def n_def byte_def by blast
  qed
  have p3: "\<exists>evs. snd (call_anthropic_api E tr sp uc mt 1) = tr @ evs
         \<and> length (filter is_api_call evs) \<le> MAX_API_RETRIES"
    using call_anthropic_api_events [of E tr sp uc mt 1] by (auto simp: MAX_API_RETRIES_def)
  have p4: "is_error_marker (fst (call_anthropic_api E tr sp uc mt 1))
        \<and> (\<exists>evs. snd (call_anthropic_api E tr sp uc mt 1) = tr @ evs
              \<and> length (filter is_api_call evs) = MAX_API_RETRIES)"
    if "\<forall>tr'. \<exists>code msg. respond E tr' ?req = APIError code msg \<and> retriable code"
  proof -
    have "(1::nat) \<le> MAX_API_RETRIES" by (simp add: MAX_API_RETRIES_def)
    from call_anthropic_api_exhausted [OF that this, of tr]
    obtain code msg evs where "call_anthropic_api E tr sp uc mt 1 = (error_prefix code msg, tr @ evs)"
      "length (filter is_api_call evs) = MAX_API_RETRIES - 1 + 1" by blast
    then show ?thesis
      by (auto simp: is_error_marker_error_prefix MAX_API_RETRIES_def)
  qed
  from p1 p2 p3 p4 show ?thesis by blast
qed

text \<open>
  With the random byte 255 the first delay is 6 seconds, 1.2 times the base delay.
\<close>

theorem retry_policy_witness:
  "(1::nat) \<le> 1 \<and> 1 < MAX_API_RETRIES
   \<and> respond (example_environment always_overloaded) []
        \<lparr>system = ''s'', messages_content = ''u'', max_tokens = 10\<rparr> = APIError (Some 529) ''Overloaded''
   \<and> retriable (Some 529)
   \<and> call_anthropic_api (example_environment always_overloaded) [] ''s'' ''u'' 10 1 =
       call_anthropic_api (example_environment always_overloaded)
         [ApiCall \<lparr>system = ''s'', messages_content = ''u'', max_tokens = 10\<rparr>, Sleep 6]
         ''s'' ''u'' 10 2
   \<and> is_error_marker (fst (call_anthropic_api (example_environment always_overloaded) [] ''s'' ''u'' 10 1))
   \<and> (\<exists>evs. snd (call_anthropic_api (example_environment always_overloaded) [] ''s'' ''u'' 10 1) = [] @ evs
         \<and> length (filter is_api_call evs) = MAX_API_RETRIES)"
proof -
  let ?E = "example_environment always_overloaded"
  let ?req = "\<lparr>system = ''s'', messages_content = ''u'', max_tokens = 10\<rparr>"
  have r: "respond ?E tr' ?req = APIError (Some 529) ''Overloaded''" for tr'
    by (simp add: example_environment_def always_overloaded_def)
  have rt: "retriable (Some 529)" by (simp add: retriable_def)
  have h: "(1::nat) \<le> 1 \<and> 1 < MAX_API_RETRIES \<and> respond ?E [] ?req = APIError (Some 529) ''Overloaded''
      \<and> retriable (Some 529)"
    by (simp add: r rt MAX_API_RETRIES_def)
  have all: "\<forall>tr'. \<exists>code msg. respond ?E tr' ?req = APIError code msg \<and> retriable code"
    using r rt by blast
  have u: "urandom ?E tr' = 255" for tr' by (simp add: example_environment_def)
  note t = retry_policy [of ?E "[]" "''s''" "''u''" 10]
  from t h have "\<exists>d. call_anthropic_api ?E [] ''s'' ''u'' 10 1 =
            call_anthropic_api ?E ([] @ [ApiCall ?req, Sleep d]) ''s'' ''u'' 10 (1 + 1)
          \<and> d = min (INITIAL_BACKOFF_SECONDS * 2 ^ (1 - 1)) MAX_BACKOFF_SECONDS
                  * (1 + real (unat (urandom ?E ([] @ [ApiCall ?req]))) / 255 * 0.2)"
    by blast
  then obtain d where d: "call_anthropic_api ?E [] ''s'' ''u'' 10 1 =
            call_anthropic_api ?E ([] @ [ApiCall ?req, Sleep d]) ''s'' ''u'' 10 (1 + 1)"
      "d = min (INITIAL_BACKOFF_SECONDS * 2 ^ (1 - 1)) MAX_BACKOFF_SECONDS
                  * (1 + real (unat (255 :: 8 word)) / 255 * 0.2)"
    unfolding u by blast
  have "real (unat (255 :: 8 word)) = 255" by simp
  with d(2) have "d = 6"
    by (simp add: INITIAL_BACKOFF_SECONDS_def MAX_BACKOFF_SECONDS_def)
  with d(1) have "call_anthropic_api ?E [] ''s'' ''u'' 10 1 =
       call_anthropic_api ?E [ApiCall ?req, Sleep 6] ''s'' ''u'' 10 2"
    by (simp add: numeral_2_eq_2)
  moreover from t all have "is_error_marker (fst (call_anthropic_api ?E [] ''s'' ''u'' 10 1))
   \<and> (\<exists>evs. snd (call_anthropic_api ?E [] ''s'' ''u'' 10 1) = [] @ evs
         \<and> length (filter is_api_call evs) = MAX_API_RETRIES)"
    by blast
  ultimately show ?thesis using h by blast
qed

text \<open>
  The claim speaks of a jitter of 20 percent in both directions. With the random byte 0,
  the smallest there is, the delays of a call that fails five times are the doubled base
  delays themselves, 5, 10, 20 and 40 seconds, and no byte makes the first delay shorter
  than the base delay: the delay is never shortened.
\<close>

theorem retry_policy_counterexample:
  "call_anthropic_api ((example_environment always_overloaded)\<lparr>urandom := (\<lambda>tr. 0)\<rparr>) [] ''s'' ''u'' 10 1
     = (''ANTHROPIC_API_ERROR (Code 529): Overloaded'',
        [ApiCall \<lparr>system = ''s'', messages_content = ''u'', max_tokens = 10\<rparr>, Sleep 5,
         ApiCall \<lparr>system = ''s'', messages_content = ''u'', max_tokens = 10\<rparr>, Sleep 10,
         ApiCall \<lparr>system = ''s'', messages_content = ''u'', max_tokens = 10\<rparr>, Sleep 20,
         ApiCall \<lparr>system = ''s'', messages_content = ''u'', max_tokens = 10\<rparr>, Sleep 40,
         ApiCall \<lparr>system = ''s'', messages_content = ''u'', max_tokens = 10\<rparr>])
   \<and> \<not> (\<exists>byte. backoff 1 byte < min (INITIAL_BACKOFF_SECONDS * 2 ^ (1 - 1)) MAX_BACKOFF_SECONDS)"
proof -
  define E where "E = (example_environment always_overloaded)\<lparr>urandom := (\<lambda>tr. 0)\<rparr>"
  have e: "respond E tr' req = APIError (Some 529) ''Overloaded''" "urandom E tr' = 0" for tr' req
    by (simp_all add: E_def example_environment_def always_overloaded_def)
  have rt: "retriable (Some 529)" by (simp add: retriable_def)
  have s: "str_of_int 529 = ''529''"
    by (simp add: str_of_int_def str_of_nat.simps digit_char_def)
  have "call_anthropic_api E [] ''s'' ''u'' 10 1
     = (''ANTHROPIC_API_ERROR (Code 529): Overloaded'',
        [ApiCall \<lparr>system = ''s'', messages_content = ''u'', max_tokens = 10\<rparr>, Sleep 5,
         ApiCall \<lparr>system = ''s'', messages_content = ''u'', max_tokens = 10\<rparr>, Sleep 10,
         ApiCall \<lparr>system = ''s'', messages_content = ''u'', max_tokens = 10\<rparr>, Sleep 20,
         ApiCall \<lparr>system = ''s'', messages_content = ''u'', max_tokens = 10\<rparr>, Sleep 40,
         ApiCall \<lparr>system = ''s'', messages_content = ''u'', max_tokens = 10\<rparr>])"
    apply (subst call_anthropic_api.simps)
    apply (simp add: e rt backoff_zero MAX_API_RETRIES_def INITIAL_BACKOFF_SECONDS_def MAX_BACKOFF_SECONDS_def Let_def)
    apply (subst call_anthropic_api.simps)
    apply (simp add: e rt backoff_zero MAX_API_RETRIES_def INITIAL_BACKOFF_SECONDS_def MAX_BACKOFF_SECONDS_def Let_def)
    apply (subst call_anthropic_api.simps)
    apply (simp add: e rt backoff_zero MAX_API_RETRIES_def INITIAL_BACKOFF_SECONDS_def MAX_BACKOFF_SECONDS_def Let_def)
    apply (subst call_anthropic_api.simps)
    apply (simp add: e rt backoff_zero MAX_API_RETRIES_def INITIAL_BACKOFF_SECONDS_def MAX_BACKOFF_SECONDS_def Let_def)
    apply (subst call_anthropic_api.simps)
    apply (simp add: e rt MAX_API_RETRIES_def error_prefix_def s Let_def)
    done
  moreover have "\<not> backoff 1 byte < min (INITIAL_BACKOFF_SECONDS * 2 ^ (1 - 1)) MAX_BACKOFF_SECONDS"
    for byte using backoff_bounds [of 1 byte] by (simp only: not_less)
  then have "\<not> (\<exists>byte. backoff 1 byte < min (INITIAL_BACKOFF_SECONDS * 2 ^ (1 - 1)) MAX_BACKOFF_SECONDS)"
    by blast
  ultimately show ?thesis unfolding E_def by blast
qed

section \<open>Properties of the compactor\<close>

text \<open>
  C4. For a list of insight texts that is not empty and whose concatenation with the
  separator has at most as many tokens as the budget, \<^verbatim>\<open>compact_insights_collection\<close>
  returns the concatenation as it is, and the events are the ones before the call: no
  request went to the service.
\<close>

theorem compact_cheap_path:
  assumes "insights_texts_list \<noteq> []"
    and "count_tokens E (join SEP insights_texts_list) \<le> max_tokens_for_context"
  shows "compact_insights_collection E tr insights_texts_list max_tokens_for_context prompt_for_compaction
    = (join SEP insights_texts_list, tr)"
  using assms by (simp add: compact_insights_collection_def Let_def)

theorem compact_cheap_path_witness:
  "[''a'', ''b''] \<noteq> []
   \<and> count_tokens (example_environment always_overloaded) (join SEP [''a'', ''b'']) \<le> 100
   \<and> compact_insights_collection (example_environment always_overloaded) [] [''a'', ''b''] 100
        SYSTEM_PROMPT_COMPACT_INSIGHTS_COLLECTION = (join SEP [''a'', ''b''], [])"
proof -
  have h1: "[''a'', ''b''] \<noteq> []" by simp
  have h2: "count_tokens (example_environment always_overloaded) (join SEP [''a'', ''b'']) \<le> 100"
    by (simp add: count_tokens_def example_environment_def SEP_def)
  from compact_cheap_path [OF h1 h2] h1 h2 show ?thesis by blast
qed

lemma safe_loop_taken:
  "safe_loop E B rs acc temp = concat (map (\<lambda>t. t @ SEP) (rev (take (taken E B rs temp) rs))) @ acc"
  by (induction rs arbitrary: acc temp) (simp_all add: estimate_def Let_def)

lemma taken_le: "taken E B rs temp \<le> length rs"
  by (induction rs arbitrary: temp) simp_all

lemma taken_fits:
  "0 < taken E B rs temp \<Longrightarrow> temp + sum_list (map (estimate E) (take (taken E B rs temp) rs)) \<le> B"
proof (induction rs arbitrary: temp)
  case Nil
  then show ?case by simp
next
  case (Cons t rest)
  from Cons.prems have fits: "temp + estimate E t \<le> B" by (simp split: if_splits)
  show ?case
  proof (cases "taken E B rest (temp + estimate E t)")
    case 0
    with fits show ?thesis by simp
  next
    case (Suc k)
    with Cons.IH [of "temp + estimate E t"] fits show ?thesis by (simp add: add.assoc)
  qed
qed

lemma taken_stops:
  "taken E B rs temp < length rs \<Longrightarrow>
   B < temp + sum_list (map (estimate E) (take (Suc (taken E B rs temp)) rs))"
proof (induction rs arbitrary: temp)
  case Nil
  then show ?case by simp
next
  case (Cons t rest)
  show ?case
  proof (cases "temp + estimate E t \<le> B")
    case False
    then show ?thesis by simp
  next
    case True
    with Cons.prems have "taken E B rest (temp + estimate E t) < length rest" by simp
    from Cons.IH [OF this] True show ?thesis by (simp add: add.assoc)
  qed
qed

lemma taken_pos: "0 < taken E B rs temp \<longleftrightarrow> rs \<noteq> [] \<and> temp + estimate E (hd rs) \<le> B"
  by (cases rs) simp_all

lemma strip_empty_iff: "strip s = [] \<longleftrightarrow> (\<forall>c \<in> set s. is_space c)"
proof -
  have "strip s = [] \<longleftrightarrow> (\<forall>c \<in> set (dropWhile is_space s). is_space c)"
    by (simp add: strip_def)
  also have "\<dots> \<longleftrightarrow> dropWhile is_space s = []"
  proof
    assume a: "\<forall>c \<in> set (dropWhile is_space s). is_space c"
    show "dropWhile is_space s = []"
    proof (rule ccontr)
      assume n: "dropWhile is_space s \<noteq> []"
      then have "\<not> is_space (hd (dropWhile is_space s))" by (rule hd_dropWhile)
      moreover from n have "hd (dropWhile is_space s) \<in> set (dropWhile is_space s)" by simp
      ultimately show False using a by blast
    qed
  next
    assume e: "dropWhile is_space s = []"
    show "\<forall>c \<in> set (dropWhile is_space s). is_space c" unfolding e by simp
  qed
  also have "\<dots> \<longleftrightarrow> (\<forall>c \<in> set s. is_space c)"
    by simp
  finally show ?thesis .
qed

lemma not_space_dash: "\<not> is_space CHR ''-''"
  by (simp add: is_space_def)

lemma strip_joined_nonempty: "xs \<noteq> [] \<Longrightarrow> strip (concat (map (\<lambda>t. t @ SEP) xs)) \<noteq> []"
proof -
  assume "xs \<noteq> []"
  then obtain x where "x \<in> set xs" by (cases xs) auto
  then have "CHR ''-'' \<in> set (concat (map (\<lambda>t. t @ SEP) xs))"
    by (auto simp: SEP_def)
  with not_space_dash show ?thesis by (auto simp: strip_empty_iff)
qed

text \<open>The degraded path, when the compaction call gives an error-marker.\<close>

lemma compact_degraded:
  assumes "texts \<noteq> []" and "B < count_tokens E (join SEP texts)"
    and "is_error_marker (fst (call_anthropic_api E tr prompt
           (compaction_user_prompt E (join SEP texts) prompt) 3000 1))"
  shows "compact_insights_collection E tr texts B prompt =
    (strip (concat (map (\<lambda>t. t @ SEP) (drop (length texts - taken E B (rev texts) 0) texts))),
     snd (call_anthropic_api E tr prompt (compaction_user_prompt E (join SEP texts) prompt) 3000 1))"
proof -
  have "rev (take (taken E B (rev texts) 0) (rev texts))
      = drop (length texts - taken E B (rev texts) 0) texts"
    by (simp add: rev_take)
  moreover obtain c tr' where call: "call_anthropic_api E tr prompt
           (compaction_user_prompt E (join SEP texts) prompt) 3000 1 = (c, tr')"
    by (cases "call_anthropic_api E tr prompt (compaction_user_prompt E (join SEP texts) prompt) 3000 1")
  moreover from assms(3) call have "is_error_marker c" by simp
  ultimately show ?thesis using assms(1,2)
    by (simp add: compact_insights_collection_def Let_def safe_loop_taken)
qed

lemma startswith_take: "startswith (take n u) M \<Longrightarrow> startswith u M"
proof -
  assume a: "startswith (take n u) M"
  then have "length M \<le> n"
    by (metis startswith_def length_take min.cobounded2 min.absorb_iff2 take_all_iff take_take)
  with a show ?thesis by (simp add: startswith_def min_def)
qed

lemma startswith_append:
  assumes "startswith (u @ R) M" and "R \<noteq> []" and "hd R \<notin> set M"
  shows "startswith u M"
proof (cases "length M \<le> length u")
  case True
  with assms(1) show ?thesis by (simp add: startswith_def)
next
  case False
  from assms(1) have "M = u @ take (length M - length u) R"
    using False by (simp add: startswith_def)
  moreover from False assms(2) have "take (length M - length u) R \<noteq> []" by simp
  then have "hd R \<in> set (take (length M - length u) R)"
    by (metis hd_in_set hd_take take_eq_Nil not_gr_zero)
  ultimately have "hd R \<in> set M" by (metis Un_iff set_append)
  with assms(3) show ?thesis by simp
qed

lemma strip_is_take: "strip s = take (length (strip s)) (dropWhile is_space s)"
proof -
  let ?ys = "dropWhile is_space s"
  let ?k = "length (takeWhile is_space (rev ?ys))"
  have "strip s = rev (drop ?k (rev ?ys))"
    by (simp add: strip_def dropWhile_eq_drop)
  also have "\<dots> = take (length ?ys - ?k) ?ys" by (simp add: rev_drop)
  finally have e: "strip s = take (length ?ys - ?k) ?ys" .
  then have "length (strip s) = length ?ys - ?k" by simp
  with e show ?thesis by simp
qed

lemma is_error_marker_strip: "is_error_marker (strip s) \<Longrightarrow> is_error_marker (dropWhile is_space s)"
  unfolding is_error_marker_def using strip_is_take [of s] startswith_take by metis

lemma is_error_marker_append:
  "is_error_marker (u @ CHR 0x0A # R) \<Longrightarrow> is_error_marker u"
  unfolding is_error_marker_def
  by (auto dest!: startswith_append)

lemma not_marker_first:
  assumes "\<not> is_error_marker (dropWhile is_space t)"
  shows "\<not> is_error_marker (dropWhile is_space (t @ SEP @ rest))"
proof (cases "\<forall>c \<in> set t. is_space c")
  case True
  then have "dropWhile is_space (t @ SEP @ rest) = dropWhile is_space (SEP @ rest)"
    by simp
  also have "\<dots> = ''---'' @ [CHR 0x0A, CHR 0x0A] @ rest"
    by (simp add: SEP_def is_space_def)
  finally show ?thesis by (simp add: is_error_marker_def startswith_def)
next
  case False
  then obtain c where "c \<in> set t" "\<not> is_space c" by blast
  then have "dropWhile is_space (t @ SEP @ rest)
      = dropWhile is_space t @ CHR 0x0A # ([CHR 0x0A] @ ''---'' @ [CHR 0x0A, CHR 0x0A] @ rest)"
    by (simp add: SEP_def)
  with assms is_error_marker_append show ?thesis by metis
qed

lemma not_marker_joined:
  assumes "\<forall>t \<in> set xs. \<not> is_error_marker (dropWhile is_space t)"
  shows "\<not> is_error_marker (strip (concat (map (\<lambda>t. t @ SEP) xs)))"
proof (cases xs)
  case Nil
  then show ?thesis by (simp add: strip_def is_error_marker_def startswith_def)
next
  case (Cons t rest)
  with assms have "\<not> is_error_marker (dropWhile is_space t)" by simp
  from not_marker_first [OF this, of "concat (map (\<lambda>t. t @ SEP) rest)"]
  have "\<not> is_error_marker (dropWhile is_space (concat (map (\<lambda>t. t @ SEP) xs)))"
    by (simp add: Cons)
  with is_error_marker_strip show ?thesis by blast
qed

lemma always_overloaded_marker:
  "is_error_marker (fst (call_anthropic_api (example_environment always_overloaded) tr sp uc mt 1))"
proof -
  have "\<forall>tr'. \<exists>code msg. respond (example_environment always_overloaded) tr'
      \<lparr>system = sp, messages_content = uc, max_tokens = mt\<rparr> = APIError code msg \<and> retriable code"
    by (simp add: example_environment_def always_overloaded_def retriable_def)
  moreover have "(1::nat) \<le> MAX_API_RETRIES" by (simp add: MAX_API_RETRIES_def)
  ultimately obtain code msg evs
    where "call_anthropic_api (example_environment always_overloaded) tr sp uc mt 1
      = (error_prefix code msg, tr @ evs)"
    using call_anthropic_api_exhausted [of "example_environment always_overloaded" sp uc mt 1 tr]
    by blast
  then show ?thesis by (simp add: is_error_marker_error_prefix)
qed

text \<open>
  The estimate of the loop is sound for a tokenizer for which a separator between two
  strings costs at most five tokens more than the two strings: the texts taken, each with
  its separator, have no more tokens than their estimates add up to. The tokenizer with
  tokens of four characters is one, and stripping adds no token there.
\<close>

lemma joined_within_estimates:
  assumes "\<forall>a b. count_tokens E (a @ SEP @ b) \<le> count_tokens E a + 5 + count_tokens E b"
  shows "count_tokens E (concat (map (\<lambda>t. t @ SEP) xs)) \<le> sum_list (map (estimate E) xs)"
proof (induction xs)
  case Nil
  show ?case by (simp add: count_tokens_def)
next
  case (Cons x xs)
  have "count_tokens E (x @ SEP @ concat (map (\<lambda>t. t @ SEP) xs))
      \<le> count_tokens E x + 5 + count_tokens E (concat (map (\<lambda>t. t @ SEP) xs))"
    using assms by blast
  with Cons.IH show ?case by (simp add: estimate_def)
qed

lemma count_tokens_of_four:
  "count_tokens (tokens_of_four E) s = int ((length s + 3) div 4)"
  by (simp add: count_tokens_def tokens_of_four_def)

lemma tokens_of_four_separator:
  "count_tokens (tokens_of_four E) (a @ SEP @ b)
     \<le> count_tokens (tokens_of_four E) a + 5 + count_tokens (tokens_of_four E) b"
  unfolding count_tokens_of_four by (simp add: SEP_def)

lemma length_strip: "length (strip s) \<le> length s"
proof -
  have "length (strip s) \<le> length (dropWhile is_space s)"
    unfolding strip_def using length_dropWhile_le [of is_space "rev (dropWhile is_space s)"] by simp
  also have "\<dots> \<le> length s" by (rule length_dropWhile_le)
  finally show ?thesis .
qed

lemma tokens_of_four_strip:
  "count_tokens (tokens_of_four E) (strip s) \<le> count_tokens (tokens_of_four E) s"
  unfolding count_tokens_of_four using length_strip [of s] by simp

text \<open>
  C2, as amended. The list of insight texts is not empty, its concatenation exceeds the
  budget, and the compaction call returns an error-marker. Then the result is built from
  the \<open>k\<close> most recent texts, each followed by the separator, and stripped, where the loop
  went backward from the end of the list and stopped at the first text that did not fit:
  the estimates (\<^verbatim>\<open>count_tokens(text) + 5\<close>) of the \<open>k\<close> texts add up to at most the
  budget, and with one more text they exceed it. The result is not empty exactly when
  \<open>k\<close> is positive, which is when the estimate of the most recent text alone fits the
  budget. Its token count respects the budget whenever it is not empty or the budget is
  not negative, for a tokenizer for which the estimate is sound: a separator between two
  strings costs at most five tokens more than the two strings, and stripping adds no
  token. And the result does not begin with an error-marker prefix, provided that no
  insight text does so after its leading whitespace.
\<close>

theorem compact_degraded_path:
  assumes "texts \<noteq> []" and "B < count_tokens E (join SEP texts)"
    and "is_error_marker (fst (call_anthropic_api E tr prompt
           (compaction_user_prompt E (join SEP texts) prompt) 3000 1))"
  shows "\<exists>k \<le> length texts.
      fst (compact_insights_collection E tr texts B prompt)
        = strip (concat (map (\<lambda>t. t @ SEP) (drop (length texts - k) texts)))
    \<and> (0 < k \<longrightarrow> sum_list (map (estimate E) (drop (length texts - k) texts)) \<le> B)
    \<and> (k < length texts \<longrightarrow> B < sum_list (map (estimate E) (drop (length texts - Suc k) texts)))
    \<and> (0 < k \<longleftrightarrow> estimate E (last texts) \<le> B)
    \<and> (fst (compact_insights_collection E tr texts B prompt) \<noteq> [] \<longleftrightarrow> 0 < k)
    \<and> ((\<forall>a b. count_tokens E (a @ SEP @ b) \<le> count_tokens E a + 5 + count_tokens E b)
        \<and> (\<forall>s. count_tokens E (strip s) \<le> count_tokens E s)
        \<and> (0 < k \<or> 0 \<le> B) \<longrightarrow>
          count_tokens E (fst (compact_insights_collection E tr texts B prompt)) \<le> B)
    \<and> ((\<forall>t \<in> set texts. \<not> is_error_marker (dropWhile is_space t)) \<longrightarrow>
          \<not> is_error_marker (fst (compact_insights_collection E tr texts B prompt)))"
proof -
  define k where "k = taken E B (rev texts) 0"
  let ?suffix = "drop (length texts - k) texts"
  let ?result = "fst (compact_insights_collection E tr texts B prompt)"
  have take_rev: "take j (rev texts) = rev (drop (length texts - j) texts)" for j
    by (metis rev_take rev_rev_ident length_rev)
  have k_le: "k \<le> length texts" using taken_le [of E B "rev texts" 0] by (simp add: k_def)
  have res: "?result = strip (concat (map (\<lambda>t. t @ SEP) ?suffix))"
    using compact_degraded [OF assms] by (simp add: k_def)
  have fits: "sum_list (map (estimate E) ?suffix) \<le> B" if "0 < k"
  proof -
    from taken_fits [of E B "rev texts" 0] that
    have "sum_list (map (estimate E) (take k (rev texts))) \<le> B" by (simp add: k_def)
    then show ?thesis by (simp add: take_rev rev_map [symmetric])
  qed
  have stops: "B < sum_list (map (estimate E) (drop (length texts - Suc k) texts))"
    if "k < length texts"
  proof -
    from taken_stops [of E B "rev texts" 0] that
    have "B < sum_list (map (estimate E) (take (Suc k) (rev texts)))" by (simp add: k_def)
    then show ?thesis by (simp add: take_rev rev_map [symmetric])
  qed
  have pos: "0 < k \<longleftrightarrow> estimate E (last texts) \<le> B"
    using assms(1) by (simp add: k_def taken_pos hd_rev)
  have nonempty: "?result \<noteq> [] \<longleftrightarrow> 0 < k"
  proof
    assume "?result \<noteq> []"
    then have "?suffix \<noteq> []" unfolding res by (auto simp: strip_def)
    then show "0 < k" by auto
  next
    assume "0 < k"
    moreover from assms(1) have "0 < length texts" by simp
    ultimately have "length texts - k < length texts" by linarith
    then have "?suffix \<noteq> []" by simp
    then show "?result \<noteq> []" unfolding res by (rule strip_joined_nonempty)
  qed
  have budget: "count_tokens E ?result \<le> B"
    if sep: "\<forall>a b. count_tokens E (a @ SEP @ b) \<le> count_tokens E a + 5 + count_tokens E b"
      and stp: "\<forall>s. count_tokens E (strip s) \<le> count_tokens E s"
      and kb: "0 < k \<or> 0 \<le> B"
  proof (cases "0 < k")
    case True
    have "count_tokens E ?result \<le> count_tokens E (concat (map (\<lambda>t. t @ SEP) ?suffix))"
      unfolding res using stp by blast
    also have "\<dots> \<le> sum_list (map (estimate E) ?suffix)"
      by (rule joined_within_estimates [OF sep])
    also have "\<dots> \<le> B" by (rule fits [OF True])
    finally show ?thesis .
  next
    case False
    with nonempty have "?result = []" by blast
    moreover from False kb have "0 \<le> B" by blast
    ultimately show ?thesis by (simp add: count_tokens_def)
  qed
  have marker: "\<not> is_error_marker ?result"
    if "\<forall>t \<in> set texts. \<not> is_error_marker (dropWhile is_space t)"
  proof -
    from that have "\<forall>t \<in> set ?suffix. \<not> is_error_marker (dropWhile is_space t)"
      by (meson in_set_dropD)
    then show ?thesis unfolding res by (rule not_marker_joined)
  qed
  from k_le res fits stops pos nonempty budget marker show ?thesis by blast
qed

text \<open>
  With tokens of four characters and a budget of 10 tokens, only the most recent of two
  texts is taken.
\<close>

theorem compact_degraded_path_witness:
  "[''an old insight, long enough to be left out'', ''new''] \<noteq> []
   \<and> 10 < count_tokens (tokens_of_four (example_environment always_overloaded))
            (join SEP [''an old insight, long enough to be left out'', ''new''])
   \<and> is_error_marker (fst (call_anthropic_api (tokens_of_four (example_environment always_overloaded)) []
        SYSTEM_PROMPT_COMPACT_INSIGHTS_COLLECTION
        (compaction_user_prompt (tokens_of_four (example_environment always_overloaded))
           (join SEP [''an old insight, long enough to be left out'', ''new''])
           SYSTEM_PROMPT_COMPACT_INSIGHTS_COLLECTION) 3000 1))
   \<and> estimate (tokens_of_four (example_environment always_overloaded))
        (last [''an old insight, long enough to be left out'', ''new'']) \<le> 10
   \<and> (\<forall>a b. count_tokens (tokens_of_four (example_environment always_overloaded)) (a @ SEP @ b)
          \<le> count_tokens (tokens_of_four (example_environment always_overloaded)) a + 5
            + count_tokens (tokens_of_four (example_environment always_overloaded)) b)
   \<and> (\<forall>s. count_tokens (tokens_of_four (example_environment always_overloaded)) (strip s)
          \<le> count_tokens (tokens_of_four (example_environment always_overloaded)) s)
   \<and> \<not> is_error_marker (dropWhile is_space ''an old insight, long enough to be left out'')
   \<and> \<not> is_error_marker (dropWhile is_space ''new'')
   \<and> fst (compact_insights_collection (tokens_of_four (example_environment always_overloaded)) []
        [''an old insight, long enough to be left out'', ''new''] 10
        SYSTEM_PROMPT_COMPACT_INSIGHTS_COLLECTION) \<noteq> []
   \<and> count_tokens (tokens_of_four (example_environment always_overloaded))
        (fst (compact_insights_collection (tokens_of_four (example_environment always_overloaded)) []
           [''an old insight, long enough to be left out'', ''new''] 10
           SYSTEM_PROMPT_COMPACT_INSIGHTS_COLLECTION)) \<le> 10
   \<and> \<not> is_error_marker (fst (compact_insights_collection
        (tokens_of_four (example_environment always_overloaded)) []
        [''an old insight, long enough to be left out'', ''new''] 10
        SYSTEM_PROMPT_COMPACT_INSIGHTS_COLLECTION))"
proof -
  define E where "E = tokens_of_four (example_environment always_overloaded)"
  define texts where "texts = [''an old insight, long enough to be left out'', ''new'']"
  let ?result = "fst (compact_insights_collection E [] texts 10 SYSTEM_PROMPT_COMPACT_INSIGHTS_COLLECTION)"
  have h1: "texts \<noteq> []" by (simp add: texts_def)
  have h2: "10 < count_tokens E (join SEP texts)"
    by (simp add: E_def count_tokens_of_four SEP_def texts_def)
  have "\<forall>tr'. \<exists>code msg. respond E tr'
      \<lparr>system = SYSTEM_PROMPT_COMPACT_INSIGHTS_COLLECTION,
        messages_content = compaction_user_prompt E (join SEP texts) SYSTEM_PROMPT_COMPACT_INSIGHTS_COLLECTION,
        max_tokens = 3000\<rparr> = APIError code msg \<and> retriable code"
    by (simp add: E_def tokens_of_four_def example_environment_def always_overloaded_def retriable_def)
  then have h3: "is_error_marker (fst (call_anthropic_api E [] SYSTEM_PROMPT_COMPACT_INSIGHTS_COLLECTION
        (compaction_user_prompt E (join SEP texts) SYSTEM_PROMPT_COMPACT_INSIGHTS_COLLECTION) 3000 1))"
    by (rule all_failures_marker)
  have e: "estimate E (last texts) \<le> 10"
    by (simp add: estimate_def E_def count_tokens_of_four texts_def)
  have sep: "\<forall>a b. count_tokens E (a @ SEP @ b) \<le> count_tokens E a + 5 + count_tokens E b"
    unfolding E_def using tokens_of_four_separator by blast
  have stp: "\<forall>s. count_tokens E (strip s) \<le> count_tokens E s"
    unfolding E_def using tokens_of_four_strip by blast
  have m: "\<not> is_error_marker (dropWhile is_space ''an old insight, long enough to be left out'')"
    "\<not> is_error_marker (dropWhile is_space ''new'')"
    by (simp_all add: is_error_marker_def startswith_def is_space_def)
  then have ma: "\<forall>t \<in> set texts. \<not> is_error_marker (dropWhile is_space t)"
    by (simp add: texts_def)
  from compact_degraded_path [OF h1 h2 h3] e sep stp ma
  have "?result \<noteq> [] \<and> count_tokens E ?result \<le> 10 \<and> \<not> is_error_marker ?result"
    by blast
  with h1 h2 h3 e sep stp m show ?thesis unfolding E_def texts_def by blast
qed

text \<open>
  C2 as it is stated fails when the most recent text alone does not fit: with a budget of
  one token the loop stops at once, and the result is the empty string.
\<close>

theorem compact_degraded_path_counterexample:
  "[''hello world''] \<noteq> []
   \<and> 1 < count_tokens (example_environment always_overloaded) (join SEP [''hello world''])
   \<and> is_error_marker (fst (call_anthropic_api (example_environment always_overloaded) []
        SYSTEM_PROMPT_COMPACT_INSIGHTS_COLLECTION
        (compaction_user_prompt (example_environment always_overloaded)
           (join SEP [''hello world'']) SYSTEM_PROMPT_COMPACT_INSIGHTS_COLLECTION) 3000 1))
   \<and> fst (compact_insights_collection (example_environment always_overloaded) []
        [''hello world''] 1 SYSTEM_PROMPT_COMPACT_INSIGHTS_COLLECTION) = []"
proof -
  let ?E = "example_environment always_overloaded"
  have h1: "[''hello world''] \<noteq> []" by simp
  have h2: "1 < count_tokens ?E (join SEP [''hello world''])"
    by (simp add: count_tokens_def example_environment_def)
  note h3 = always_overloaded_marker [of "[]" SYSTEM_PROMPT_COMPACT_INSIGHTS_COLLECTION
      "compaction_user_prompt ?E (join SEP [''hello world'']) SYSTEM_PROMPT_COMPACT_INSIGHTS_COLLECTION" 3000]
  have "taken ?E 1 (rev [''hello world'']) 0 = 0"
    by (simp add: estimate_def count_tokens_def example_environment_def)
  with compact_degraded [OF h1 h2 h3]
  have "fst (compact_insights_collection ?E [] [''hello world''] 1
      SYSTEM_PROMPT_COMPACT_INSIGHTS_COLLECTION) = []"
    by (simp add: strip_def)
  with h1 h2 h3 show ?thesis by blast
qed


section \<open>Properties of the state snapshot\<close>

lemma load_state_data_fresh:
  "\<forall>data. f \<noteq> Object data \<Longrightarrow> load_state_data f = fresh_state"
  by (cases f) simp_all

text \<open>
  C10, as amended. If the state file is missing, cannot be opened, is not JSON or is not
  an object, \<^verbatim>\<open>load_state_data\<close> returns the fresh state: cursor \<open>(0, 0)\<close>, no Insights,
  no report. With that cursor, whatever the cursor was before, a Record is among the new
  messages of the next export if and only if its pair of timestamp and identifier is
  greater than \<open>(0, 0)\<close> and it is a message with something to render.
\<close>

theorem corrupt_state_resets_cursor:
  assumes "\<forall>data. f \<noteq> Object data"
  shows "load_state_data f = fresh_state
    \<and> last_processed_message_timestamp_unix (load_state_data f) = 0
    \<and> last_processed_message_id (load_state_data f) = 0
    \<and> individual_useful_insights (load_state_data f) = []
    \<and> latest_report_filename (load_state_data f) = None
    \<and> (\<forall>P export_file out a b i t.
          load_and_format_new_messages P export_file
            (last_processed_message_id (load_state_data f))
            (last_processed_message_timestamp_unix (load_state_data f)) = Inr (out, a, b) \<longrightarrow>
          (emitted out i t \<longleftrightarrow>
             (0, 0) < (t, i)
             \<and> (\<exists>d. JObj d \<in> set (export_records export_file)
                   \<and> py_int P (get d ''id'') = Some i \<and> py_int P (get d ''date_unixtime'') = Some t
                   \<and> get d ''type'' = JStr ''message'' \<and> has_content d)))"
proof -
  have fresh: "load_state_data f = fresh_state" by (rule load_state_data_fresh [OF assms])
  have "emitted out i t \<longleftrightarrow>
             (0, 0) < (t, i)
             \<and> (\<exists>d. JObj d \<in> set (export_records export_file)
                   \<and> py_int P (get d ''id'') = Some i \<and> py_int P (get d ''date_unixtime'') = Some t
                   \<and> get d ''type'' = JStr ''message'' \<and> has_content d)"
    if "load_and_format_new_messages P export_file
            (last_processed_message_id (load_state_data f))
            (last_processed_message_timestamp_unix (load_state_data f)) = Inr (out, a, b)"
    for P export_file out a b i t
    using emitted_iff [OF that, of i t] by (simp add: fresh fresh_state_def)
  then show ?thesis by (simp add: fresh fresh_state_def)
qed

theorem corrupt_state_resets_cursor_witness:
  "load_state_data Unparsable = fresh_state
   \<and> last_processed_message_timestamp_unix (load_state_data Unparsable) = 0
   \<and> last_processed_message_id (load_state_data Unparsable) = 0
   \<and> load_and_format_new_messages example_builtins (Some example_export)
        (last_processed_message_id (load_state_data Unparsable))
        (last_processed_message_timestamp_unix (load_state_data Unparsable))
      = Inr ([\<lparr>msg_id = 1, text_for_llm = ''From Ann: [Sent a photo]'',
               timestamp_unix = 100, timestamp_utc = JStr []\<rparr>,
              \<lparr>msg_id = 3, text_for_llm = ''From Bob (replying to '' @ [CHR 0x27] @ ''Ann: [Photo]'' @ [CHR 0x27] @ ''): nice'',
               timestamp_unix = 102, timestamp_utc = JStr []\<rparr>], 1, 3)
   \<and> emitted [\<lparr>msg_id = 1, text_for_llm = ''From Ann: [Sent a photo]'',
               timestamp_unix = 100, timestamp_utc = JStr []\<rparr>,
              \<lparr>msg_id = 3, text_for_llm = ''From Bob (replying to '' @ [CHR 0x27] @ ''Ann: [Photo]'' @ [CHR 0x27] @ ''): nice'',
               timestamp_unix = 102, timestamp_utc = JStr []\<rparr>] 1 100"
proof -
  have h: "\<forall>data. Unparsable \<noteq> Object data" by simp
  have l: "load_and_format_new_messages example_builtins (Some example_export)
        (last_processed_message_id (load_state_data Unparsable))
        (last_processed_message_timestamp_unix (load_state_data Unparsable))
      = Inr ([\<lparr>msg_id = 1, text_for_llm = ''From Ann: [Sent a photo]'',
               timestamp_unix = 100, timestamp_utc = JStr []\<rparr>,
              \<lparr>msg_id = 3, text_for_llm = ''From Bob (replying to '' @ [CHR 0x27] @ ''Ann: [Photo]'' @ [CHR 0x27] @ ''): nice'',
               timestamp_unix = 102, timestamp_utc = JStr []\<rparr>], 1, 3)"
    by (simp add: fresh_state_def load_and_format_new_messages_def example_export_def
      get_default_def get_def example_builtins_def digit_value_def new_message_def
      llm_text_prefix_def lookup_reply_def sender_name_def py_or_def final_text_for_llm_def
      attachment_placeholder_def reply_snippet_def strip_def is_space_def Let_def write_back_def)
  have e: "emitted [\<lparr>msg_id = 1, text_for_llm = ''From Ann: [Sent a photo]'',
               timestamp_unix = 100, timestamp_utc = JStr []\<rparr>,
              \<lparr>msg_id = 3, text_for_llm = ''From Bob (replying to '' @ [CHR 0x27] @ ''Ann: [Photo]'' @ [CHR 0x27] @ ''): nice'',
               timestamp_unix = 102, timestamp_utc = JStr []\<rparr>] 1 100"
    by (simp add: emitted_def)
  from corrupt_state_resets_cursor [OF h] l e show ?thesis by blast
qed

text \<open>
  C10 as it is stated fails on a Record that is not above \<open>(0, 0)\<close>: with the state file
  missing, the message of \<open>early_export\<close>, whose timestamp is \<open>-1\<close>, is not admitted.
\<close>

theorem corrupt_state_resets_cursor_counterexample:
  "load_state_data Missing = fresh_state
   \<and> export_records (Some early_export)
       = [JObj [(''id'', JNum 1), (''type'', JStr ''message''), (''date_unixtime'', JNum (- 1)),
                (''from'', JStr ''Ann''), (''text'', JStr ''old'')]]
   \<and> load_and_format_new_messages example_builtins (Some early_export)
        (last_processed_message_id (load_state_data Missing))
        (last_processed_message_timestamp_unix (load_state_data Missing)) = Inr ([], 1, 1)
   \<and> \<not> emitted [] 1 (- 1)"
  by (simp add: fresh_state_def load_and_format_new_messages_def early_export_def
      get_default_def get_def example_builtins_def new_message_def export_records_def
      emitted_def Let_def write_back_def)


section \<open>Properties of the chunk loop\<close>

lemma snapshots_append: "snapshots (a @ b) = snapshots a @ snapshots b"
  by (induction a rule: snapshots.induct) simp_all

text \<open>A call of the adapter writes no snapshot.\<close>

lemma call_anthropic_api_snapshots:
  "snapshots (snd (call_anthropic_api E tr sp uc mt a)) = snapshots tr"
proof (induction E tr sp uc mt a rule: call_anthropic_api.induct)
  case (1 E tr sp uc mt a)
  let ?req = "\<lparr>system = sp, messages_content = uc, max_tokens = mt\<rparr>"
  show ?case
  proof (cases "respond E tr ?req")
    case (Response resp)
    then show ?thesis
      by (simp add: call_anthropic_api.simps [of E tr sp uc mt a] Let_def snapshots_append)
  next
    case (OtherException exn)
    then show ?thesis
      by (simp add: call_anthropic_api.simps [of E tr sp uc mt a] Let_def snapshots_append)
  next
    case (APIError code msg)
    show ?thesis
    proof (cases "retriable code \<and> a < MAX_API_RETRIES")
      case False
      with APIError show ?thesis
        by (auto simp: call_anthropic_api.simps [of E tr sp uc mt a] Let_def snapshots_append)
    next
      case True
      let ?tr2 = "tr @ [ApiCall ?req, Sleep (backoff a (urandom E (tr @ [ApiCall ?req])))]"
      from True have rc: "retriable code" and lt: "a < MAX_API_RETRIES" by simp_all
      have eq: "call_anthropic_api E tr sp uc mt a = call_anthropic_api E ?tr2 sp uc mt (a + 1)"
        by (rule call_anthropic_api_retry [OF APIError rc lt])
      from "1.IH" [OF refl refl APIError True]
      have "snapshots (snd (call_anthropic_api E ?tr2 sp uc mt (a + 1))) = snapshots ?tr2"
        by simp
      then show ?thesis by (simp add: eq snapshots_append)
    qed
  qed
qed

lemma not_marker_no_new_insights: "\<not> is_error_marker ''NO_NEW_INSIGHTS''"
  by (simp add: is_error_marker_def startswith_def)

lemma process_chunk_break: "process_chunk E chunk r = (r', False) \<Longrightarrow> \<not> all_chunks_successful r'"
  by (auto simp: process_chunk_def Let_def split: prod.splits if_splits)

text \<open>The loop over the chunks before a chunk, when none of them broke off.\<close>

lemma chunk_loop_append:
  "chunk_loop E before r0 = r \<Longrightarrow> all_chunks_successful r \<Longrightarrow>
   chunk_loop E (before @ rest) r0 = chunk_loop E rest r"
proof (induction before arbitrary: r0)
  case Nil
  then show ?case by simp
next
  case (Cons chunk before)
  show ?case
  proof (cases "chunk = []")
    case True
    with Cons show ?thesis by simp
  next
    case False
    obtain r' continue where p: "process_chunk E chunk r0 = (r', continue)"
      by (cases "process_chunk E chunk r0")
    show ?thesis
    proof (cases continue)
      case True
      with Cons.prems False p have "chunk_loop E before r' = r" by simp
      from Cons.IH [OF this Cons.prems(2)] False p True show ?thesis by simp
    next
      case False
      with Cons.prems(1) \<open>chunk \<noteq> []\<close> p have "r' = r" by simp
      moreover from p False have "\<not> all_chunks_successful r'"
        by (intro process_chunk_break [of E chunk r0]) simp
      ultimately show ?thesis using Cons.prems(2) by simp
    qed
  qed
qed

lemma nothing_new_call:
  "call_anthropic_api (example_environment nothing_new) tr sp uc mt 1
   = (''NO_NEW_INSIGHTS'', tr @ [ApiCall \<lparr>system = sp, messages_content = uc, max_tokens = mt\<rparr>])"
  by (subst call_anthropic_api.simps)
     (simp add: example_environment_def nothing_new_def strip_def is_space_def)

lemma nothing_new_call_failing_writes:
  "call_anthropic_api (failing_writes (example_environment nothing_new)) tr sp uc mt 1
   = (''NO_NEW_INSIGHTS'', tr @ [ApiCall \<lparr>system = sp, messages_content = uc, max_tokens = mt\<rparr>])"
  by (subst call_anthropic_api.simps)
     (simp add: failing_writes_def example_environment_def nothing_new_def strip_def is_space_def)

text \<open>
  C5, as amended. The chunk is not empty and the call for it returns the text
  \<^verbatim>\<open>NO_NEW_INSIGHTS\<close>. Then the loop goes on to the rest of the chunks from a run in which
  no Insight was added, the cursor is the identifier and the timestamp of the last message
  of the chunk, the running context is unchanged, and \<^verbatim>\<open>save_state_data\<close> has already been
  applied to this state. If the write succeeds, the snapshot of this state is the last
  event before the next chunk, and the last snapshot written. If the write raises, the
  exception is caught: no snapshot is written, and the loop goes on all the same, with the
  cursor advanced in memory only.
\<close>

theorem no_new_insights_advances_cursor:
  assumes "chunk \<noteq> []"
    and "call_anthropic_api E (trace r) SYSTEM_PROMPT_CHUNK_INSIGHTS
           (prompt_content_for_chunk (previous_insights_context_str r) chunk) 1500 1
         = (''NO_NEW_INSIGHTS'', tr1)"
  shows "\<exists>r'. chunk_loop E (chunk # rest) r = chunk_loop E rest r'
    \<and> (state r', trace r') = save_state_data E tr1
          ((state r)\<lparr>last_processed_message_id := msg_id (last chunk),
                      last_processed_message_timestamp_unix := timestamp_unix (last chunk),
                      latest_report_filename := None, report_generated_at_utc := None\<rparr>)
    \<and> individual_useful_insights (state r') = individual_useful_insights (state r)
    \<and> last_processed_message_id (state r') = msg_id (last chunk)
    \<and> last_processed_message_timestamp_unix (state r') = timestamp_unix (last chunk)
    \<and> trace r' = (if state_write_ok E tr1 then tr1 @ [SaveState (state r')] else tr1)
    \<and> (state_write_ok E tr1 \<longrightarrow> snapshots (trace r') = snapshots (trace r) @ [state r'])
    \<and> (\<not> state_write_ok E tr1 \<longrightarrow> snapshots (trace r') = snapshots (trace r))
    \<and> previous_insights_context_str r' = previous_insights_context_str r
    \<and> all_chunks_successful r' = all_chunks_successful r"
proof -
  define r' where "r' = commit_chunk E chunk (r\<lparr>trace := tr1\<rparr>)"
  have p: "process_chunk E chunk r = (r', True)"
    using assms(2) by (simp add: process_chunk_def r'_def not_marker_no_new_insights)
  have "chunk_loop E (chunk # rest) r = chunk_loop E rest r'"
    using assms(1) p by simp
  moreover have "(state r', trace r') = save_state_data E tr1
          ((state r)\<lparr>last_processed_message_id := msg_id (last chunk),
                      last_processed_message_timestamp_unix := timestamp_unix (last chunk),
                      latest_report_filename := None, report_generated_at_utc := None\<rparr>)"
    by (simp add: r'_def commit_chunk_def split: prod.splits)
  moreover have t: "trace r' = (if state_write_ok E tr1 then tr1 @ [SaveState (state r')] else tr1)"
    by (simp add: r'_def commit_chunk_def save_state_data_def Let_def)
  moreover have "individual_useful_insights (state r') = individual_useful_insights (state r)"
    "last_processed_message_id (state r') = msg_id (last chunk)"
    "last_processed_message_timestamp_unix (state r') = timestamp_unix (last chunk)"
    "previous_insights_context_str r' = previous_insights_context_str r"
    "all_chunks_successful r' = all_chunks_successful r"
    by (simp_all add: r'_def commit_chunk_def save_state_data_def Let_def)
  moreover have s: "snapshots tr1 = snapshots (trace r)"
    using call_anthropic_api_snapshots [of E "trace r" SYSTEM_PROMPT_CHUNK_INSIGHTS
        "prompt_content_for_chunk (previous_insights_context_str r) chunk" 1500 1]
    unfolding assms(2) by simp
  have "state_write_ok E tr1 \<longrightarrow> snapshots (trace r') = snapshots (trace r) @ [state r']"
    "\<not> state_write_ok E tr1 \<longrightarrow> snapshots (trace r') = snapshots (trace r)"
    using t s by (simp_all add: snapshots_append)
  ultimately show ?thesis by blast
qed

theorem no_new_insights_advances_cursor_witness:
  "[example_message 1, example_message 2] \<noteq> []
   \<and> call_anthropic_api (example_environment nothing_new) (trace start_of_run)
        SYSTEM_PROMPT_CHUNK_INSIGHTS
        (prompt_content_for_chunk (previous_insights_context_str start_of_run)
           [example_message 1, example_message 2]) 1500 1
      = (''NO_NEW_INSIGHTS'',
         [ApiCall \<lparr>system = SYSTEM_PROMPT_CHUNK_INSIGHTS,
                    messages_content = prompt_content_for_chunk [] [example_message 1, example_message 2],
                    max_tokens = 1500\<rparr>])
   \<and> state_write_ok (example_environment nothing_new)
         [ApiCall \<lparr>system = SYSTEM_PROMPT_CHUNK_INSIGHTS,
                    messages_content = prompt_content_for_chunk [] [example_message 1, example_message 2],
                    max_tokens = 1500\<rparr>]
   \<and> (\<exists>r'. chunk_loop (example_environment nothing_new)
               ([example_message 1, example_message 2] # [[example_message 3]]) start_of_run
             = chunk_loop (example_environment nothing_new) [[example_message 3]] r'
          \<and> individual_useful_insights (state r') = []
          \<and> last_processed_message_id (state r') = 2
          \<and> last_processed_message_timestamp_unix (state r') = 102
          \<and> trace r' =
              [ApiCall \<lparr>system = SYSTEM_PROMPT_CHUNK_INSIGHTS,
                    messages_content = prompt_content_for_chunk [] [example_message 1, example_message 2],
                    max_tokens = 1500\<rparr>, SaveState (state r')]
          \<and> snapshots (trace r') = [state r'])"
proof -
  let ?E = "example_environment nothing_new"
  let ?chunk = "[example_message 1, example_message 2]"
  let ?tr1 = "[ApiCall \<lparr>system = SYSTEM_PROMPT_CHUNK_INSIGHTS,
                    messages_content = prompt_content_for_chunk [] ?chunk, max_tokens = 1500\<rparr>]"
  have h1: "?chunk \<noteq> []" by simp
  have h2: "call_anthropic_api ?E (trace start_of_run) SYSTEM_PROMPT_CHUNK_INSIGHTS
        (prompt_content_for_chunk (previous_insights_context_str start_of_run) ?chunk) 1500 1
      = (''NO_NEW_INSIGHTS'', ?tr1)"
    using nothing_new_call [of "[]" SYSTEM_PROMPT_CHUNK_INSIGHTS
        "prompt_content_for_chunk [] ?chunk" 1500]
    by (simp add: start_of_run_def)
  have w: "state_write_ok ?E ?tr1" by (simp add: example_environment_def)
  from no_new_insights_advances_cursor [OF h1 h2, of "[[example_message 3]]"]
  obtain r' where r': "chunk_loop ?E (?chunk # [[example_message 3]]) start_of_run
        = chunk_loop ?E [[example_message 3]] r'"
    "individual_useful_insights (state r') = individual_useful_insights (state start_of_run)"
    "last_processed_message_id (state r') = msg_id (last ?chunk)"
    "last_processed_message_timestamp_unix (state r') = timestamp_unix (last ?chunk)"
    "trace r' = (if state_write_ok ?E ?tr1 then ?tr1 @ [SaveState (state r')] else ?tr1)"
    "state_write_ok ?E ?tr1 \<longrightarrow> snapshots (trace r') = snapshots (trace start_of_run) @ [state r']"
    by blast
  from r'(2-6) w have "individual_useful_insights (state r') = []"
    "last_processed_message_id (state r') = 2"
    "last_processed_message_timestamp_unix (state r') = 102"
    "trace r' = ?tr1 @ [SaveState (state r')]"
    "snapshots (trace r') = [state r']"
    by (simp_all add: start_of_run_def fresh_state_def example_message_def)
  with r'(1) h1 h2 w show ?thesis by auto
qed

text \<open>
  C5 as it is stated fails when the write of the state file raises: both chunks are sent
  to the service, the cursor in memory ends at the last message, and no snapshot was
  written, neither before the second chunk nor after it.
\<close>

theorem no_new_insights_advances_cursor_counterexample:
  "call_anthropic_api (failing_writes (example_environment nothing_new)) (trace start_of_run)
        SYSTEM_PROMPT_CHUNK_INSIGHTS
        (prompt_content_for_chunk (previous_insights_context_str start_of_run)
           [example_message 1, example_message 2]) 1500 1
      = (''NO_NEW_INSIGHTS'',
         [ApiCall \<lparr>system = SYSTEM_PROMPT_CHUNK_INSIGHTS,
                    messages_content = prompt_content_for_chunk [] [example_message 1, example_message 2],
                    max_tokens = 1500\<rparr>])
   \<and> trace (chunk_loop (failing_writes (example_environment nothing_new))
              [[example_message 1, example_message 2], [example_message 3]] start_of_run)
       = [ApiCall \<lparr>system = SYSTEM_PROMPT_CHUNK_INSIGHTS,
                    messages_content = prompt_content_for_chunk [] [example_message 1, example_message 2],
                    max_tokens = 1500\<rparr>,
          ApiCall \<lparr>system = SYSTEM_PROMPT_CHUNK_INSIGHTS,
                    messages_content = prompt_content_for_chunk [] [example_message 3],
                    max_tokens = 1500\<rparr>]
   \<and> snapshots (trace (chunk_loop (failing_writes (example_environment nothing_new))
              [[example_message 1, example_message 2], [example_message 3]] start_of_run)) = []
   \<and> last_processed_message_id (state (chunk_loop (failing_writes (example_environment nothing_new))
              [[example_message 1, example_message 2], [example_message 3]] start_of_run)) = 3"
proof -
  define E where "E = failing_writes (example_environment nothing_new)"
  have w: "\<not> state_write_ok E tr" for tr
    by (simp add: E_def failing_writes_def)
  have c: "call_anthropic_api E tr sp uc mt 1
     = (''NO_NEW_INSIGHTS'', tr @ [ApiCall \<lparr>system = sp, messages_content = uc, max_tokens = mt\<rparr>])"
    for tr sp uc mt
    unfolding E_def by (rule nothing_new_call_failing_writes)
  define r1 where "r1 = [ApiCall \<lparr>system = SYSTEM_PROMPT_CHUNK_INSIGHTS,
                    messages_content = prompt_content_for_chunk [] [example_message 1, example_message 2],
                    max_tokens = 1500\<rparr>]"
  define r2 where "r2 = [ApiCall \<lparr>system = SYSTEM_PROMPT_CHUNK_INSIGHTS,
                    messages_content = prompt_content_for_chunk [] [example_message 3],
                    max_tokens = 1500\<rparr>]"
  have p1: "process_chunk E [example_message 1, example_message 2] start_of_run
      = (start_of_run\<lparr>state := fst (save_state_data E r1
            ((state start_of_run)\<lparr>last_processed_message_id := 2,
               last_processed_message_timestamp_unix := 102,
               latest_report_filename := None, report_generated_at_utc := None\<rparr>)),
          trace := r1\<rparr>, True)"
    using c [of "[]" SYSTEM_PROMPT_CHUNK_INSIGHTS
        "prompt_content_for_chunk [] [example_message 1, example_message 2]" 1500]
    by (simp add: process_chunk_def not_marker_no_new_insights commit_chunk_def
        save_state_data_def Let_def w start_of_run_def example_message_def r1_def)
  define s1 where "s1 = start_of_run\<lparr>state := fst (save_state_data E r1
            ((state start_of_run)\<lparr>last_processed_message_id := 2,
               last_processed_message_timestamp_unix := 102,
               latest_report_filename := None, report_generated_at_utc := None\<rparr>)),
          trace := r1\<rparr>"
  have s1: "trace s1 = r1" "previous_insights_context_str s1 = []"
    by (simp_all add: s1_def start_of_run_def)
  have p2: "process_chunk E [example_message 3] s1
      = (s1\<lparr>state := fst (save_state_data E (r1 @ r2)
            ((state s1)\<lparr>last_processed_message_id := 3,
               last_processed_message_timestamp_unix := 103,
               latest_report_filename := None, report_generated_at_utc := None\<rparr>)),
          trace := r1 @ r2\<rparr>, True)"
    using c [of r1 SYSTEM_PROMPT_CHUNK_INSIGHTS
        "prompt_content_for_chunk [] [example_message 3]" 1500]
    by (simp add: process_chunk_def s1 not_marker_no_new_insights commit_chunk_def
        save_state_data_def Let_def w example_message_def r2_def)
  have l: "chunk_loop E [[example_message 1, example_message 2], [example_message 3]] start_of_run
      = s1\<lparr>state := fst (save_state_data E (r1 @ r2)
            ((state s1)\<lparr>last_processed_message_id := 3,
               last_processed_message_timestamp_unix := 103,
               latest_report_filename := None, report_generated_at_utc := None\<rparr>)),
          trace := r1 @ r2\<rparr>"
    using p1 p2 by (simp add: s1_def)
  have "call_anthropic_api E (trace start_of_run) SYSTEM_PROMPT_CHUNK_INSIGHTS
        (prompt_content_for_chunk (previous_insights_context_str start_of_run)
           [example_message 1, example_message 2]) 1500 1 = (''NO_NEW_INSIGHTS'', r1)"
    using c [of "[]" SYSTEM_PROMPT_CHUNK_INSIGHTS
        "prompt_content_for_chunk [] [example_message 1, example_message 2]" 1500]
    by (simp add: start_of_run_def r1_def)
  moreover have "trace (chunk_loop E [[example_message 1, example_message 2], [example_message 3]] start_of_run)
      = r1 @ r2"
    "snapshots (trace (chunk_loop E [[example_message 1, example_message 2], [example_message 3]] start_of_run)) = []"
    "last_processed_message_id (state (chunk_loop E
        [[example_message 1, example_message 2], [example_message 3]] start_of_run)) = 3"
    unfolding l by (simp_all add: r1_def r2_def save_state_data_def Let_def)
  ultimately show ?thesis unfolding E_def r1_def r2_def by simp
qed

lemma commit_chunk_in_sync:
  "state_write_ok E (trace r) \<Longrightarrow> in_sync E (commit_chunk E chunk r)"
  by (simp add: commit_chunk_def save_state_data_def Let_def in_sync_def persisted_state_def
      snapshots_append)

lemma process_chunk_in_sync:
  assumes "\<forall>tr. state_write_ok E tr" and "process_chunk E chunk r = (r', True)"
  shows "in_sync E r'"
proof -
  from assms(2) obtain r1 where "r' = commit_chunk E chunk r1"
    by (auto simp: process_chunk_def Let_def split: prod.splits if_splits)
  with assms(1) commit_chunk_in_sync show ?thesis by simp
qed

text \<open>While no chunk breaks off and the writes succeed, what is persisted has the Insights
  and the cursor of the state in memory.\<close>

lemma chunk_loop_in_sync:
  "\<forall>tr. state_write_ok E tr \<Longrightarrow> in_sync E r0 \<Longrightarrow> all_chunks_successful (chunk_loop E cs r0) \<Longrightarrow>
   in_sync E (chunk_loop E cs r0)"
proof (induction cs arbitrary: r0)
  case Nil
  then show ?case by simp
next
  case (Cons chunk cs)
  show ?case
  proof (cases "chunk = []")
    case True
    with Cons show ?thesis by simp
  next
    case False
    obtain r' continue where p: "process_chunk E chunk r0 = (r', continue)"
      by (cases "process_chunk E chunk r0")
    show ?thesis
    proof (cases continue)
      case True
      with p Cons.prems(1) have "in_sync E r'" by (intro process_chunk_in_sync [of E chunk r0]) simp_all
      moreover from Cons.prems(3) False p True have "all_chunks_successful (chunk_loop E cs r')"
        by simp
      ultimately have "in_sync E (chunk_loop E cs r')" by (intro Cons.IH Cons.prems(1))
      with False p True show ?thesis by simp
    next
      case c: False
      with p have "\<not> all_chunks_successful r'" by (intro process_chunk_break [of E chunk r0]) simp
      with Cons.prems(3) False p c show ?thesis by simp
    qed
  qed
qed

text \<open>
  C3. The chunks before chunk \<open>i\<close> have been processed without a break, giving the run
  \<open>r\<close>; the call for chunk \<open>i\<close> returns an error-marker. Then the loop over all chunks
  ends there, whatever chunks follow: its result is \<open>r\<close> with the events of the failed call
  and the flag of success cleared. Insights and cursor in memory are those of \<open>r\<close>, the
  snapshots written are exactly those written for the chunks before \<open>i\<close>, and the rest of
  the run writes nothing more. If the writes succeed and the loop started from a state
  that was the persisted one, then what is persisted at the end has the Insights and the
  cursor of \<open>r\<close>.
\<close>

theorem chunk_error_stops_loop:
  assumes "chunk_loop E before r0 = r" and "all_chunks_successful r"
    and "chunk \<noteq> []"
    and "call_anthropic_api E (trace r) SYSTEM_PROMPT_CHUNK_INSIGHTS
           (prompt_content_for_chunk (previous_insights_context_str r) chunk) 1500 1
         = (chunk_insight_text, tr1)"
    and "is_error_marker chunk_insight_text"
  shows "chunk_loop E (before @ chunk # after) r0 = r\<lparr>trace := tr1, all_chunks_successful := False\<rparr>
    \<and> state (chunk_loop E (before @ chunk # after) r0) = state r
    \<and> snapshots tr1 = snapshots (trace r)
    \<and> finish_run E (chunk_loop E (before @ chunk # after) r0) = (state r, tr1)
    \<and> ((\<forall>tr'. state_write_ok E tr') \<and> in_sync E r0 \<longrightarrow>
          in_sync E (chunk_loop E (before @ chunk # after) r0))"
proof -
  have p: "process_chunk E chunk r = (r\<lparr>trace := tr1, all_chunks_successful := False\<rparr>, False)"
    using assms(4,5) by (simp add: process_chunk_def)
  have "chunk_loop E (before @ chunk # after) r0 = chunk_loop E (chunk # after) r"
    by (rule chunk_loop_append [OF assms(1,2)])
  also have "\<dots> = r\<lparr>trace := tr1, all_chunks_successful := False\<rparr>"
    using assms(3) p by simp
  finally have l: "chunk_loop E (before @ chunk # after) r0
      = r\<lparr>trace := tr1, all_chunks_successful := False\<rparr>" .
  have s: "snapshots tr1 = snapshots (trace r)"
    using call_anthropic_api_snapshots [of E "trace r" SYSTEM_PROMPT_CHUNK_INSIGHTS
        "prompt_content_for_chunk (previous_insights_context_str r) chunk" 1500 1] assms(4)
    by simp
  have "in_sync E (r\<lparr>trace := tr1, all_chunks_successful := False\<rparr>)"
    if "\<forall>tr'. state_write_ok E tr'" "in_sync E r0"
  proof -
    from chunk_loop_in_sync [OF that, of before] assms(1,2) have "in_sync E r" by simp
    moreover have "persisted_state E tr1 = persisted_state E (trace r)"
      by (simp add: persisted_state_def s)
    ultimately show ?thesis by (simp add: in_sync_def)
  qed
  with s show ?thesis by (simp add: l finish_run_def)
qed

lemma fails_after_first_loop:
  "chunk_loop (example_environment fails_after_first) [[example_message 1]] start_of_run
   = \<lparr>state = fresh_state\<lparr>last_processed_message_id := 1,
          last_processed_message_timestamp_unix := 101,
          system_prompts_used :=
            [(''chunk_insights'', SYSTEM_PROMPT_CHUNK_INSIGHTS),
             (''compact_insights_collection'', SYSTEM_PROMPT_COMPACT_INSIGHTS_COLLECTION),
             (''final_report'', SYSTEM_PROMPT_FINAL_REPORT)]\<rparr>,
      previous_insights_context_str = [],
      trace = [ApiCall \<lparr>system = SYSTEM_PROMPT_CHUNK_INSIGHTS,
                 messages_content = prompt_content_for_chunk [] [example_message 1],
                 max_tokens = 1500\<rparr>,
               SaveState (fresh_state\<lparr>last_processed_message_id := 1,
                 last_processed_message_timestamp_unix := 101,
                 system_prompts_used :=
                   [(''chunk_insights'', SYSTEM_PROMPT_CHUNK_INSIGHTS),
                    (''compact_insights_collection'', SYSTEM_PROMPT_COMPACT_INSIGHTS_COLLECTION),
                    (''final_report'', SYSTEM_PROMPT_FINAL_REPORT)]\<rparr>)],
      any_new_insights_this_run = False, all_chunks_successful = True\<rparr>"
proof -
  have c: "call_anthropic_api (example_environment fails_after_first) [] SYSTEM_PROMPT_CHUNK_INSIGHTS
      (prompt_content_for_chunk [] [example_message 1]) 1500 1
    = (''NO_NEW_INSIGHTS'', [ApiCall \<lparr>system = SYSTEM_PROMPT_CHUNK_INSIGHTS,
                 messages_content = prompt_content_for_chunk [] [example_message 1],
                 max_tokens = 1500\<rparr>])"
    by (subst call_anthropic_api.simps)
       (simp add: example_environment_def fails_after_first_def strip_def is_space_def)
  show ?thesis
    using c
    by (simp add: process_chunk_def start_of_run_def not_marker_no_new_insights commit_chunk_def
        save_state_data_def fresh_state_def example_message_def Let_def)
       (simp add: example_environment_def)
qed

theorem chunk_error_stops_loop_witness:
  "all_chunks_successful (chunk_loop (example_environment fails_after_first) [[example_message 1]] start_of_run)
   \<and> [example_message 2] \<noteq> []
   \<and> is_error_marker (error_prefix (Some 400) ''Bad request'')
   \<and> state (chunk_loop (example_environment fails_after_first)
        ([[example_message 1]] @ [example_message 2] # [[example_message 3]]) start_of_run)
      = state (chunk_loop (example_environment fails_after_first) [[example_message 1]] start_of_run)
   \<and> last_processed_message_id (state (chunk_loop (example_environment fails_after_first)
        ([[example_message 1]] @ [example_message 2] # [[example_message 3]]) start_of_run)) = 1
   \<and> length (filter is_api_call (trace (chunk_loop (example_environment fails_after_first)
        ([[example_message 1]] @ [example_message 2] # [[example_message 3]]) start_of_run))) = 2
   \<and> length (snapshots (trace (chunk_loop (example_environment fails_after_first)
        ([[example_message 1]] @ [example_message 2] # [[example_message 3]]) start_of_run))) = 1
   \<and> state_write_ok (example_environment fails_after_first) [] \<and> in_sync (example_environment fails_after_first) start_of_run
   \<and> in_sync (example_environment fails_after_first) (chunk_loop (example_environment fails_after_first)
        ([[example_message 1]] @ [example_message 2] # [[example_message 3]]) start_of_run)"
proof -
  let ?E = "example_environment fails_after_first"
  let ?r = "chunk_loop ?E [[example_message 1]] start_of_run"
  let ?req = "\<lparr>system = SYSTEM_PROMPT_CHUNK_INSIGHTS,
      messages_content = prompt_content_for_chunk (previous_insights_context_str ?r) [example_message 2],
      max_tokens = 1500\<rparr>"
  have h1: "chunk_loop ?E [[example_message 1]] start_of_run = ?r" ..
  have h2: "all_chunks_successful ?r" unfolding fails_after_first_loop by simp
  have h3: "[example_message 2] \<noteq> []" by simp
  have ne: "trace ?r \<noteq> []" unfolding fails_after_first_loop by simp
  have h4: "call_anthropic_api ?E (trace ?r) SYSTEM_PROMPT_CHUNK_INSIGHTS
           (prompt_content_for_chunk (previous_insights_context_str ?r) [example_message 2]) 1500 1
         = (error_prefix (Some 400) ''Bad request'', trace ?r @ [ApiCall ?req])"
    using ne by (subst call_anthropic_api.simps)
      (simp add: example_environment_def fails_after_first_def retriable_def)
  have h5: "is_error_marker (error_prefix (Some 400) ''Bad request'')"
    by (rule is_error_marker_error_prefix)
  note t = chunk_error_stops_loop [OF h1 h2 h3 h4 h5, of "[[example_message 3]]"]
  from t have a: "state (chunk_loop ?E ([[example_message 1]] @ [example_message 2] # [[example_message 3]])
      start_of_run) = state ?r" by blast
  from t have b: "trace (chunk_loop ?E ([[example_message 1]] @ [example_message 2] # [[example_message 3]])
      start_of_run) = trace ?r @ [ApiCall ?req]" by simp
  have c: "last_processed_message_id (state ?r) = 1" unfolding fails_after_first_loop by simp
  have d: "length (filter is_api_call (trace ?r @ [ApiCall ?req])) = 2"
    "length (snapshots (trace ?r @ [ApiCall ?req])) = 1"
    unfolding fails_after_first_loop by (simp_all add: is_api_call_def)
  have w: "\<forall>tr'. state_write_ok ?E tr'" by (simp add: example_environment_def)
  have i0: "in_sync ?E start_of_run"
    by (simp add: in_sync_def persisted_state_def start_of_run_def example_environment_def)
  from t w i0 have e: "in_sync ?E (chunk_loop ?E
      ([[example_message 1]] @ [example_message 2] # [[example_message 3]]) start_of_run)"
    by blast
  from w have w0: "state_write_ok ?E []" by blast
  from h2 h3 h5 a b c d w0 i0 e show ?thesis by simp
qed


section \<open>Properties of the report\<close>

text \<open>
  C8, as amended. A report is due, there are insight texts to report, and the final call
  returns an error-marker. Then \<^verbatim>\<open>generate_and_save_final_report_txt\<close> returns \<open>False\<close>; in
  the state it leaves, the name of the report is cleared, and the Insights and the cursor
  are those it was given; \<^verbatim>\<open>save_state_data\<close> is applied to this state after the call. If
  the write succeeds, the snapshot of this state is the last event and the last snapshot
  written. If the write raises, the exception is caught and no snapshot is written: the
  name of the report is cleared in memory only.
\<close>

theorem report_failure_clears_reference:
  assumes "should_generate_report E state_data_ref new_insights_were_added_this_run"
    and "all_individual_insights state_data_ref \<noteq> []"
    and "current_input_for_report E tr (all_individual_insights state_data_ref) = (input, tr1)"
    and "call_anthropic_api E tr1 SYSTEM_PROMPT_FINAL_REPORT (final_report_request input) 4000 1
         = (final_report_text_content, tr2)"
    and "is_error_marker final_report_text_content"
  shows "\<exists>state_data.
      generate_and_save_final_report_txt E tr state_data_ref new_insights_were_added_this_run
        = (False, state_data, if state_write_ok E tr2 then tr2 @ [SaveState state_data] else tr2)
    \<and> (state_write_ok E tr2 \<longrightarrow>
          snapshots (snd (snd (generate_and_save_final_report_txt E tr state_data_ref
              new_insights_were_added_this_run))) = snapshots tr1 @ [state_data])
    \<and> (\<not> state_write_ok E tr2 \<longrightarrow>
          snapshots (snd (snd (generate_and_save_final_report_txt E tr state_data_ref
              new_insights_were_added_this_run))) = snapshots tr1)
    \<and> latest_report_filename state_data = None
    \<and> individual_useful_insights state_data = individual_useful_insights state_data_ref
    \<and> last_processed_message_id state_data = last_processed_message_id state_data_ref
    \<and> last_processed_message_timestamp_unix state_data
        = last_processed_message_timestamp_unix state_data_ref"
proof -
  have s: "snapshots tr2 = snapshots tr1"
    using call_anthropic_api_snapshots [of E tr1 SYSTEM_PROMPT_FINAL_REPORT
        "final_report_request input" 4000 1]
    unfolding assms(4) by simp
  show ?thesis
    using assms s
    by (simp add: generate_and_save_final_report_txt_def no_valid_report_def save_state_data_def
        Let_def snapshots_append)
qed

theorem report_failure_clears_reference_witness:
  "should_generate_report (example_environment always_overloaded) one_insight_state True
   \<and> all_individual_insights one_insight_state \<noteq> []
   \<and> current_input_for_report (example_environment always_overloaded) []
        (all_individual_insights one_insight_state) = (''- Bob liked the photo'', [])
   \<and> is_error_marker (fst (call_anthropic_api (example_environment always_overloaded) []
        SYSTEM_PROMPT_FINAL_REPORT (final_report_request ''- Bob liked the photo'') 4000 1))
   \<and> state_write_ok (example_environment always_overloaded)
        (snd (call_anthropic_api (example_environment always_overloaded) []
                SYSTEM_PROMPT_FINAL_REPORT (final_report_request ''- Bob liked the photo'') 4000 1))
   \<and> (\<exists>state_data.
        generate_and_save_final_report_txt (example_environment always_overloaded) [] one_insight_state True
          = (False, state_data,
             snd (call_anthropic_api (example_environment always_overloaded) []
                    SYSTEM_PROMPT_FINAL_REPORT (final_report_request ''- Bob liked the photo'') 4000 1)
             @ [SaveState state_data])
        \<and> snapshots (snd (snd (generate_and_save_final_report_txt
              (example_environment always_overloaded) [] one_insight_state True))) = [state_data]
        \<and> latest_report_filename state_data = None
        \<and> map insight_text (individual_useful_insights state_data) = [''- Bob liked the photo'']
        \<and> last_processed_message_id state_data = 3
        \<and> last_processed_message_timestamp_unix state_data = 102)"
proof -
  let ?E = "example_environment always_overloaded"
  let ?call = "call_anthropic_api ?E [] SYSTEM_PROMPT_FINAL_REPORT
      (final_report_request ''- Bob liked the photo'') 4000 1"
  have h1: "should_generate_report ?E one_insight_state True"
    by (simp add: should_generate_report_def)
  have ins: "all_individual_insights one_insight_state = [''- Bob liked the photo'']"
    by (simp add: all_individual_insights_def one_insight_state_def fresh_state_def)
  then have h2: "all_individual_insights one_insight_state \<noteq> []" by simp
  have h3: "current_input_for_report ?E [] (all_individual_insights one_insight_state)
      = (''- Bob liked the photo'', [])"
    by (simp add: ins current_input_for_report_def count_tokens_def example_environment_def
        MAX_TOKENS_FOR_FINAL_REPORT_GENERATION_def)
  have h4: "?call = (fst ?call, snd ?call)" by simp
  have h5: "is_error_marker (fst ?call)" by (rule always_overloaded_marker)
  have w: "state_write_ok ?E (snd ?call)" by (simp add: example_environment_def)
  from report_failure_clears_reference [OF h1 h2 h3 h4 h5] w
  have "\<exists>state_data.
        generate_and_save_final_report_txt ?E [] one_insight_state True
          = (False, state_data, snd ?call @ [SaveState state_data])
        \<and> snapshots (snd (snd (generate_and_save_final_report_txt ?E [] one_insight_state True)))
            = [state_data]
        \<and> latest_report_filename state_data = None
        \<and> map insight_text (individual_useful_insights state_data) = [''- Bob liked the photo'']
        \<and> last_processed_message_id state_data = 3
        \<and> last_processed_message_timestamp_unix state_data = 102"
    by (auto simp: one_insight_state_def fresh_state_def)
  with h1 h2 h3 h5 w show ?thesis by blast
qed

text \<open>
  C8 as it is stated fails when the write of the state file raises: the function returns
  \<open>False\<close> with the name of the report cleared, and no snapshot was written.
\<close>

theorem report_failure_clears_reference_counterexample:
  "should_generate_report (failing_writes (example_environment always_overloaded)) one_insight_state True
   \<and> is_error_marker (fst (call_anthropic_api (failing_writes (example_environment always_overloaded)) []
        SYSTEM_PROMPT_FINAL_REPORT (final_report_request ''- Bob liked the photo'') 4000 1))
   \<and> fst (generate_and_save_final_report_txt (failing_writes (example_environment always_overloaded)) []
        one_insight_state True) = False
   \<and> latest_report_filename (fst (snd (generate_and_save_final_report_txt
        (failing_writes (example_environment always_overloaded)) [] one_insight_state True))) = None
   \<and> snapshots (snd (snd (generate_and_save_final_report_txt
        (failing_writes (example_environment always_overloaded)) [] one_insight_state True))) = []"
proof -
  define E where "E = failing_writes (example_environment always_overloaded)"
  let ?call = "call_anthropic_api E [] SYSTEM_PROMPT_FINAL_REPORT
      (final_report_request ''- Bob liked the photo'') 4000 1"
  have w: "\<not> state_write_ok E tr" for tr
    by (simp add: E_def failing_writes_def)
  have h1: "should_generate_report E one_insight_state True"
    by (simp add: should_generate_report_def)
  have ins: "all_individual_insights one_insight_state = [''- Bob liked the photo'']"
    by (simp add: all_individual_insights_def one_insight_state_def fresh_state_def)
  have h3: "current_input_for_report E [] [''- Bob liked the photo''] = (''- Bob liked the photo'', [])"
    by (simp add: current_input_for_report_def count_tokens_def E_def failing_writes_def
        example_environment_def MAX_TOKENS_FOR_FINAL_REPORT_GENERATION_def)
  have "\<forall>tr'. \<exists>code msg. respond E tr'
      \<lparr>system = SYSTEM_PROMPT_FINAL_REPORT,
        messages_content = final_report_request ''- Bob liked the photo'',
        max_tokens = 4000\<rparr> = APIError code msg \<and> retriable code"
    by (simp add: E_def failing_writes_def example_environment_def always_overloaded_def retriable_def)
  then have h5: "is_error_marker (fst ?call)" by (rule all_failures_marker)
  have s: "snapshots (snd ?call) = []"
    using call_anthropic_api_snapshots [of E "[]" SYSTEM_PROMPT_FINAL_REPORT
        "final_report_request ''- Bob liked the photo''" 4000 1] by simp
  obtain c tr2 where call: "?call = (c, tr2)" by (cases ?call)
  with h5 have m: "is_error_marker c" by simp
  have "generate_and_save_final_report_txt E [] one_insight_state True
      = (False, no_valid_report E tr2 one_insight_state)"
    using h1 m call by (simp add: generate_and_save_final_report_txt_def ins h3)
  with call have g: "generate_and_save_final_report_txt E [] one_insight_state True
      = (False, no_valid_report E (snd ?call) one_insight_state)"
    by simp
  have "fst (generate_and_save_final_report_txt E [] one_insight_state True) = False"
    "latest_report_filename (fst (snd (generate_and_save_final_report_txt E [] one_insight_state True))) = None"
    "snapshots (snd (snd (generate_and_save_final_report_txt E [] one_insight_state True))) = []"
    unfolding g using s by (simp_all add: no_valid_report_def save_state_data_def Let_def w)
  with h1 h5 show ?thesis unfolding E_def by blast
qed

section \<open>A run on an example\<close>

text \<open>
  The export \<open>example_export\<close> with no state file and a service that finds nothing new:
  one request, the cursor moves to the last message, the state is saved, no report is due,
  and the export is removed.
\<close>

lemma example_new_messages:
  "load_and_format_new_messages example_builtins (Some example_export) 0 0
      = Inr ([\<lparr>msg_id = 1, text_for_llm = ''From Ann: [Sent a photo]'',
               timestamp_unix = 100, timestamp_utc = JStr []\<rparr>,
              \<lparr>msg_id = 3, text_for_llm = ''From Bob (replying to '' @ [CHR 0x27] @ ''Ann: [Photo]'' @ [CHR 0x27] @ ''): nice'',
               timestamp_unix = 102, timestamp_utc = JStr []\<rparr>], 1, 3)"
    by (simp add: load_and_format_new_messages_def example_export_def
      get_default_def get_def example_builtins_def digit_value_def new_message_def
      llm_text_prefix_def lookup_reply_def sender_name_def py_or_def final_text_for_llm_def
      attachment_placeholder_def reply_snippet_def strip_def is_space_def Let_def write_back_def)

lemma chunks_two: "chunks MESSAGES_PER_CHUNK [a, b] = [[a, b]]"
  by (simp add: chunks_def num_chunks_def MESSAGES_PER_CHUNK_def chunk_messages_def slice_def)

lemma run_example:
  "process_chat_folder (example_environment nothing_new) =
    (None, example_saved,
     [ApiCall \<lparr>system = SYSTEM_PROMPT_CHUNK_INSIGHTS,
                messages_content = prompt_content_for_chunk [] example_new, max_tokens = 1500\<rparr>,
      SaveState example_saved, RemoveExport])"
proof -
  let ?E = "example_environment nothing_new"
  have e: "chat_folder_is_dir ?E" "state_file_content ?E = Missing"
    "latest_export_file ?E = Some (Some example_export)" "python ?E = example_builtins"
    "state_write_ok ?E tr" for tr
    by (simp_all add: example_environment_def)
  have c: "get_anthropic_client = Inr ()"
    by (simp add: get_anthropic_client_def ANTHROPIC_API_KEY_def startswith_def)
  have l: "chunk_loop ?E [example_new] \<lparr>state = fresh_state, previous_insights_context_str = [],
      trace = [], any_new_insights_this_run = False, all_chunks_successful = True\<rparr>
    = \<lparr>state = example_saved, previous_insights_context_str = [],
       trace = [ApiCall \<lparr>system = SYSTEM_PROMPT_CHUNK_INSIGHTS,
                messages_content = prompt_content_for_chunk [] example_new, max_tokens = 1500\<rparr>,
                SaveState example_saved],
       any_new_insights_this_run = False, all_chunks_successful = True\<rparr>"
    using nothing_new_call [of "[]" SYSTEM_PROMPT_CHUNK_INSIGHTS "prompt_content_for_chunk [] example_new" 1500]
    by (simp add: process_chunk_def not_marker_no_new_insights commit_chunk_def
        save_state_data_def Let_def e example_new_def example_saved_def fresh_state_def)
  have f: "finish_run ?E \<lparr>state = example_saved, previous_insights_context_str = [],
       trace = tr, any_new_insights_this_run = False, all_chunks_successful = True\<rparr>
     = (example_saved, tr @ [RemoveExport])" for tr
    by (simp add: finish_run_def generate_and_save_final_report_txt_def should_generate_report_def
        example_saved_def fresh_state_def)
  have ne: "example_new \<noteq> []" by (simp add: example_new_def)
  have ch: "chunks MESSAGES_PER_CHUNK example_new = [example_new]"
    by (simp add: example_new_def chunks_two)
  have ld: "load_and_format_new_messages example_builtins (Some example_export)
      (last_processed_message_id fresh_state) (last_processed_message_timestamp_unix fresh_state)
      = Inr (example_new, 1, 3)"
    by (simp add: fresh_state_def example_new_messages example_new_def)
  have cp: "compact_insights_collection ?E [] (map insight_text (individual_useful_insights fresh_state))
      MAX_PREVIOUS_INSIGHTS_TOKENS_FOR_CHUNK_PROCESSING SYSTEM_PROMPT_COMPACT_INSIGHTS_COLLECTION
      = ([], [])"
    by (simp add: compact_insights_collection_def fresh_state_def)
  have nm: "\<not> is_error_marker []" by (simp add: is_error_marker_def startswith_def)
  have pl: "print_loaded_state example_builtins fresh_state = None"
    by (simp add: print_loaded_state_def fresh_state_def)
  show ?thesis
    by (simp add: process_chat_folder_def e c pl ld cp nm ne ch l f Let_def del: chunk_loop.simps)
qed

text \<open>
  A state file whose timestamp has no local time: the run ends with the exception of the
  line that prints the loaded state, before any request and without writing anything.
\<close>

lemma run_stops_at_unprintable_timestamp:
  "process_chat_folder
     ((example_environment nothing_new)
        \<lparr>state_file_content := Object
           \<lparr>file_last_processed_message_id = Some 3,
            file_last_processed_message_timestamp_unix = Some 1000000000000,
            file_individual_useful_insights = Some [],
            file_latest_report_filename = Some None,
            file_report_generated_at_utc = Some None,
            file_system_prompts_used = Some []\<rparr>\<rparr>)
   = (Some ValueError,
      fresh_state\<lparr>last_processed_message_id := 3,
                   last_processed_message_timestamp_unix := 1000000000000\<rparr>, [])"
  by (simp add: process_chat_folder_def example_environment_def print_loaded_state_def
      example_builtins_def setdefault_def fresh_state_def Let_def)

end
